(* ===== verification/Prelude.thy ===== *)
theory Prelude imports Main "HOL-Library.AList" begin

text \<open>
  What every component of the development shares: Go maps as association lists with a
  chosen iteration order, the state-and-error semantics of Go functions that return an
  \<open>error\<close>, and the two calculi the component theories prove their lemmas with,
  an \<^emph>\<open>effect\<close> calculus (what a function may do to the state, whatever it returns) and
  an approximation order between functions that may run out of fuel.
\<close>

named_theorems eff_getter \<open>effect rules for a read followed by a continuation\<close>
named_theorems eff_rule \<open>effect rules for control flow and for the writes of a store\<close>
named_theorems stable_rule \<open>closure rules for stable predicates\<close>
named_theorems approx_rule \<open>monotonicity rules for the approximation order\<close>
named_theorems sem_simp \<open>unfolding rules of the state-and-error semantics\<close>

section \<open>Go maps\<close>

text \<open>
  A Go \<open>map[string]T\<close> is an association list with distinct keys. Lookup is \<open>map_of\<close>,
  assignment \<open>AList.update\<close>, \<open>delete\<close> is \<open>AList.delete\<close>. Go iterates over a map in an
  unspecified order: \<open>mrange ord m\<close> is one \<open>range\<close> loop, with the order given by \<open>ord\<close>
  on the keys.
\<close>

type_synonym 'v gomap = "(string \<times> 'v) list"

definition mrange :: "(string list \<Rightarrow> string list) \<Rightarrow> 'v gomap \<Rightarrow> (string \<times> 'v) list" where
  "mrange ord m = concat (map (\<lambda>k. case map_of m k of None \<Rightarrow> [] | Some v \<Rightarrow> [(k, v)])
                               (ord (map fst m)))"

text \<open>An iteration order visits every key exactly once.\<close>

definition fair_order :: "(string list \<Rightarrow> string list) \<Rightarrow> bool" where
  "fair_order ord \<longleftrightarrow> (\<forall>ks. distinct ks \<longrightarrow> distinct (ord ks) \<and> set (ord ks) = set ks)"

lemma fair_order_id: "fair_order (\<lambda>ks. ks)"
  by (simp add: fair_order_def)

lemma mrange_lookup: "(k, v) \<in> set (mrange ord m) \<Longrightarrow> map_of m k = Some v"
  by (auto simp: mrange_def split: option.splits)

lemma set_mrange:
  assumes "fair_order ord" and "distinct (map fst m)"
  shows "set (mrange ord m) = set m"
proof -
  have "set (ord (map fst m)) = fst ` set m"
    using assms by (simp add: fair_order_def)
  then show ?thesis
    using assms(2) by (force simp: mrange_def split: option.splits dest: map_of_SomeD)
qed

lemma mrange_keys_distinct:
  assumes "fair_order ord" and "distinct (map fst m)"
  shows "distinct (map fst (mrange ord m))"
proof -
  have "map fst (concat (map (\<lambda>k. case map_of m k of None \<Rightarrow> [] | Some v \<Rightarrow> [(k, v)]) ks))
          = filter (\<lambda>k. map_of m k \<noteq> None) ks" for ks
    by (induction ks) (auto split: option.splits)
  then show ?thesis
    using assms by (simp add: mrange_def fair_order_def)
qed

text \<open>The values of a map that satisfy a test, in iteration order.\<close>

definition mvalues :: "(string list \<Rightarrow> string list) \<Rightarrow> ('v \<Rightarrow> bool) \<Rightarrow> 'v gomap \<Rightarrow> 'v list" where
  "mvalues ord P m = filter P (map snd (mrange ord m))"

lemma mvalues_lookup:
  "v \<in> set (mvalues ord P m) \<Longrightarrow> P v \<and> (\<exists>k. map_of m k = Some v)"
  by (auto simp: mvalues_def dest!: mrange_lookup)

lemma set_mvalues:
  assumes "fair_order ord" and "distinct (map fst m)"
  shows "set (mvalues ord P m) = {v. P v \<and> (\<exists>k. map_of m k = Some v)}"
proof -
  have "set (map snd (mrange ord m)) = {v. \<exists>k. map_of m k = Some v}"
    using assms by (force simp: set_mrange image_iff dest: map_of_SomeD)
  then show ?thesis by (auto simp: mvalues_def)
qed

lemma map_of_AList_update [simp]: "map_of (AList.update k v m) = (map_of m)(k \<mapsto> v)"
  by (rule update_conv')

lemma map_of_AList_delete [simp]: "map_of (AList.delete k m) = (map_of m)(k := None)"
  by (rule delete_conv')

lemma dom_AList_update: "fst ` set (AList.update k v m) = insert k (fst ` set m)"
  by (simp add: dom_update)

lemma map_of_filter_keep:
  "distinct (map fst m) \<Longrightarrow>
     map_of (filter (\<lambda>(k, v). P v) m) k = (case map_of m k of None \<Rightarrow> None
        | Some v \<Rightarrow> if P v then Some v else None)"
  by (induction m) (auto simp: map_of_eq_None_iff split: option.splits)

lemma distinct_filter_keys: "distinct (map fst m) \<Longrightarrow> distinct (map fst (filter P m))"
  by (induction m) auto

section \<open>Functions that read and write a state and may return an error\<close>

text \<open>
  A Go function of type \<open>func(...) (T, error)\<close> that works on shared state: it returns an
  error or a value, and the state it leaves behind in either case. A write before an error
  return stays: nothing is rolled back.
\<close>

type_synonym ('s, 'e, 'a) sem = "'s \<Rightarrow> ('e + 'a) \<times> 's"

definition returnM :: "'a \<Rightarrow> ('s, 'e, 'a) sem" where
  "returnM x = (\<lambda>s. (Inr x, s))"

definition throwM :: "'e \<Rightarrow> ('s, 'e, 'a) sem" where
  "throwM e = (\<lambda>s. (Inl e, s))"

definition bindM :: "('s, 'e, 'a) sem \<Rightarrow> ('a \<Rightarrow> ('s, 'e, 'b) sem) \<Rightarrow> ('s, 'e, 'b) sem" where
  "bindM m f = (\<lambda>s. case m s of (Inl e, s') \<Rightarrow> (Inl e, s') | (Inr x, s') \<Rightarrow> f x s')"

definition getsM :: "('s \<Rightarrow> 'a) \<Rightarrow> ('s, 'e, 'a) sem" where
  "getsM f = (\<lambda>s. (Inr (f s), s))"

text \<open>\<open>if !ok { return err }\<close>\<close>

definition requireM :: "bool \<Rightarrow> 'e \<Rightarrow> ('s, 'e, unit) sem" where
  "requireM b e = (if b then returnM () else throwM e)"

text \<open>\<open>_ = f()\<close> and \<open>x, _ := f()\<close>: the error is dropped, the zero value stands in.\<close>

definition ignoreM :: "'a \<Rightarrow> ('s, 'e, 'a) sem \<Rightarrow> ('s, 'e, 'a) sem" where
  "ignoreM z m = (\<lambda>s. case m s of (Inl e, s') \<Rightarrow> (Inr z, s') | (Inr x, s') \<Rightarrow> (Inr x, s'))"

text \<open>A call whose error is looked at by the caller instead of being returned.\<close>

definition tryM :: "('s, 'e, 'a) sem \<Rightarrow> ('s, 'e, 'e + 'a) sem" where
  "tryM m = (\<lambda>s. case m s of (r, s') \<Rightarrow> (Inr r, s'))"

text \<open>\<open>for _, x := range xs { if err := f(x); err != nil { return err } }\<close>\<close>

primrec forM :: "('a \<Rightarrow> ('s, 'e, unit) sem) \<Rightarrow> 'a list \<Rightarrow> ('s, 'e, unit) sem" where
  "forM f [] = returnM ()"
| "forM f (x # xs) = bindM (f x) (\<lambda>_. forM f xs)"

lemmas sem_defs [sem_simp] =
  returnM_def throwM_def bindM_def getsM_def requireM_def ignoreM_def tryM_def

lemma bindM_returnM [simp]: "bindM (returnM x) f = f x"
  by (simp add: bindM_def returnM_def)

lemma bindM_throwM [simp]: "bindM (throwM e) f = throwM e"
  by (simp add: bindM_def throwM_def)

lemma bindM_return_right [simp]: "bindM m returnM = m"
  by (rule ext) (simp add: bindM_def returnM_def split: prod.splits sum.splits)

lemma bindM_assoc: "bindM (bindM m f) g = bindM m (\<lambda>x. bindM (f x) g)"
  by (rule ext) (simp add: bindM_def split: prod.splits sum.splits)

lemma requireM_True [simp]: "requireM True e = returnM ()"
  by (simp add: requireM_def)

lemma requireM_False [simp]: "requireM False e = throwM e"
  by (simp add: requireM_def)

lemma bindM_Inr: "m s = (Inr x, s') \<Longrightarrow> bindM m f s = f x s'"
  by (simp add: bindM_def)

lemma bindM_Inl: "m s = (Inl e, s') \<Longrightarrow> bindM m f s = (Inl e, s')"
  by (simp add: bindM_def)

lemma bindM_InrE:
  assumes "bindM m f s = (Inr y, t)"
  obtains x s' where "m s = (Inr x, s')" and "f x s' = (Inr y, t)"
  using assms by (auto simp: bindM_def split: prod.splits sum.splits)

section \<open>The effect calculus\<close>

text \<open>
  \<open>eff I R X P m\<close>: started in a state with the invariant \<open>I\<close> and the precondition \<open>P\<close>, the
  function \<open>m\<close> changes the state only as the relation \<open>R\<close> allows, whether it returns a
  value or an error, and an error satisfies \<open>X\<close>. \<open>R\<close> is a preorder that keeps \<open>I\<close>; a
  predicate is stable when \<open>R\<close> keeps it.
\<close>

definition eff ::
  "('s \<Rightarrow> bool) \<Rightarrow> ('s \<Rightarrow> 's \<Rightarrow> bool) \<Rightarrow> ('e \<Rightarrow> bool) \<Rightarrow> ('s \<Rightarrow> bool) \<Rightarrow> ('s, 'e, 'a) sem \<Rightarrow> bool" where
  "eff I R X P m \<longleftrightarrow>
     (\<forall>s. I s \<and> P s \<longrightarrow> R s (snd (m s)) \<and> (\<forall>e. fst (m s) = Inl e \<longrightarrow> X e))"

definition stable :: "('s \<Rightarrow> bool) \<Rightarrow> ('s \<Rightarrow> 's \<Rightarrow> bool) \<Rightarrow> ('s \<Rightarrow> bool) \<Rightarrow> bool" where
  "stable I R P \<longleftrightarrow> (\<forall>s t. I s \<and> P s \<and> R s t \<longrightarrow> P t)"

lemma effD: "eff I R X P m \<Longrightarrow> I s \<Longrightarrow> P s \<Longrightarrow> R s (snd (m s))"
  by (simp add: eff_def)

lemma eff_error: "eff I R X P m \<Longrightarrow> I s \<Longrightarrow> P s \<Longrightarrow> fst (m s) = Inl e \<Longrightarrow> X e"
  by (simp add: eff_def)

lemma effI:
  "(\<And>s. I s \<Longrightarrow> P s \<Longrightarrow> R s (snd (m s))) \<Longrightarrow>
     (\<And>s e. I s \<Longrightarrow> P s \<Longrightarrow> fst (m s) = Inl e \<Longrightarrow> X e) \<Longrightarrow> eff I R X P m"
  by (auto simp: eff_def)

lemma eff_weaken: "eff I R X Q m \<Longrightarrow> (\<And>s. I s \<Longrightarrow> P s \<Longrightarrow> Q s) \<Longrightarrow> eff I R X P m"
  by (auto simp: eff_def)

lemma eff_mono: "eff I R X P m \<Longrightarrow> (\<And>s t. R s t \<Longrightarrow> R' s t) \<Longrightarrow> eff I R' X P m"
  by (simp add: eff_def)

lemma stable_True [stable_rule]: "stable I R (\<lambda>s. True)"
  by (simp add: stable_def)

lemma stable_conj [stable_rule]:
  "stable I R P \<Longrightarrow> stable I R Q \<Longrightarrow> stable I R (\<lambda>s. P s \<and> Q s)"
  by (auto simp: stable_def)

lemma stable_imp [stable_rule]: "stable I R P \<Longrightarrow> stable I R (\<lambda>s. c \<longrightarrow> P s)"
  by (auto simp: stable_def)

lemma stable_ball [stable_rule]:
  "(\<And>x. x \<in> A \<Longrightarrow> stable I R (P x)) \<Longrightarrow> stable I R (\<lambda>s. \<forall>x\<in>A. P x s)"
  by (auto simp: stable_def)

lemma stable_const [stable_rule]: "stable I R (\<lambda>s. c)"
  by (simp add: stable_def)

locale effect_order =
  fixes I :: "'s \<Rightarrow> bool"
    and R :: "'s \<Rightarrow> 's \<Rightarrow> bool"
    and X :: "'e \<Rightarrow> bool"
  assumes R_refl: "I s \<Longrightarrow> R s s"
    and R_trans: "R s t \<Longrightarrow> R t u \<Longrightarrow> R s u"
    and R_keeps: "I s \<Longrightarrow> R s t \<Longrightarrow> I t"
begin

lemma return: "eff I R X P (returnM x)"
  by (simp add: eff_def returnM_def R_refl)

lemma throw: "X e \<Longrightarrow> eff I R X P (throwM e)"
  by (simp add: eff_def throwM_def R_refl)

lemma gets: "eff I R X P (getsM f)"
  by (simp add: eff_def getsM_def R_refl)

lemma require: "X e \<Longrightarrow> eff I R X P (requireM b e)"
  by (simp add: requireM_def return throw)

lemma bind_post:
  assumes m: "eff I R X P m"
    and f: "\<And>x. eff I R X (Q x) (f x)"
    and post: "\<And>s x t. I s \<Longrightarrow> P s \<Longrightarrow> m s = (Inr x, t) \<Longrightarrow> Q x t"
  shows "eff I R X P (bindM m f)"
proof -
  have "R s (snd (bindM m f s)) \<and> (\<forall>e. fst (bindM m f s) = Inl e \<longrightarrow> X e)" if s: "I s" "P s" for s
  proof -
    obtain r t where mt: "m s = (r, t)" by (cases "m s")
    have st: "R s t" using effD [OF m s] mt by simp
    show ?thesis
    proof (cases r)
      case (Inl e)
      then have "X e" using eff_error [OF m s] mt by simp
      with mt st Inl show ?thesis by (simp add: bindM_Inl)
    next
      case (Inr x)
      with mt have "m s = (Inr x, t)" by simp
      then have Q: "Q x t" using post [OF s] by simp
      have "I t" using s(1) st by (rule R_keeps)
      then have "R t (snd (f x t))" and "\<forall>e. fst (f x t) = Inl e \<longrightarrow> X e"
        using Q effD [OF f] eff_error [OF f] by blast+
      with st show ?thesis using mt Inr by (auto simp: bindM_Inr intro: R_trans)
    qed
  qed
  then show ?thesis unfolding eff_def by blast
qed

lemma bind:
  assumes "eff I R X P m" and "stable I R P" and "\<And>x. eff I R X P (f x)"
  shows "eff I R X P (bindM m f)"
proof (rule bind_post [OF assms(1), where Q = "\<lambda>_. P"])
  show "eff I R X P (f x)" for x by (rule assms(3))
  show "P t" if "I s" "P s" "m s = (Inr x, t)" for s x t
    using effD [OF assms(1)] assms(2) that by (fastforce simp: stable_def)
qed

lemma require_bind:
  "X e \<Longrightarrow> (b \<Longrightarrow> eff I R X P (f ())) \<Longrightarrow> eff I R X P (bindM (requireM b e) f)"
  by (cases b) (auto intro: throw)

lemma ignore: "eff I R X P m \<Longrightarrow> eff I R X P (ignoreM z m)"
  by (auto simp: eff_def ignoreM_def split: prod.splits sum.splits)

lemma try_call: "eff I R X P m \<Longrightarrow> eff I R X P (tryM m)"
  by (auto simp: eff_def tryM_def split: prod.splits)

lemma for_loop:
  assumes "stable I R P" and "\<And>x. x \<in> set xs \<Longrightarrow> eff I R X P (f x)"
  shows "eff I R X P (forM f xs)"
  using assms by (induction xs) (auto intro: return bind)

lemma if_then_else:
  "(b \<Longrightarrow> eff I R X P m) \<Longrightarrow> (\<not> b \<Longrightarrow> eff I R X P m') \<Longrightarrow> eff I R X P (if b then m else m')"
  by simp

lemma let_in: "eff I R X P (f v) \<Longrightarrow> eff I R X P (Let v f)"
  by simp

lemma opt_case:
  "(x = None \<Longrightarrow> eff I R X P m) \<Longrightarrow> (\<And>y. x = Some y \<Longrightarrow> eff I R X P (f y)) \<Longrightarrow>
     eff I R X P (case x of None \<Rightarrow> m | Some y \<Rightarrow> f y)"
  by (cases x) auto

lemma sum_case:
  "(\<And>e. x = Inl e \<Longrightarrow> eff I R X P (g e)) \<Longrightarrow> (\<And>y. x = Inr y \<Longrightarrow> eff I R X P (f y)) \<Longrightarrow>
     eff I R X P (case x of Inl e \<Rightarrow> g e | Inr y \<Rightarrow> f y)"
  by (cases x) auto

lemma prod_case: "(\<And>a b. x = (a, b) \<Longrightarrow> eff I R X P (f a b)) \<Longrightarrow> eff I R X P (case x of (a, b) \<Rightarrow> f a b)"
  by (cases x) auto

lemmas control = return throw gets require require_bind ignore try_call for_loop if_then_else let_in
  opt_case sum_case prod_case bind

end

section \<open>Approximation: what more fuel may change\<close>

text \<open>
  A recursion that may not end is given fuel, and running out is an error \<open>oof\<close>. \<open>m\<close>
  approximates \<open>m'\<close> when \<open>m'\<close> does exactly what \<open>m\<close> does wherever \<open>m\<close> does not run out.
\<close>

definition approx :: "'e \<Rightarrow> ('s, 'e, 'a) sem \<Rightarrow> ('s, 'e, 'a) sem \<Rightarrow> bool" where
  "approx oof m m' \<longleftrightarrow> (\<forall>s. fst (m s) \<noteq> Inl oof \<longrightarrow> m' s = m s)"

lemma approx_refl [approx_rule]: "approx oof m m"
  by (simp add: approx_def)

lemma approx_trans: "approx oof m m' \<Longrightarrow> approx oof m' m'' \<Longrightarrow> approx oof m m''"
  by (simp add: approx_def)

lemma approx_oof: "approx oof (throwM oof) m"
  by (simp add: approx_def throwM_def)

lemma approxD: "approx oof m m' \<Longrightarrow> fst (m s) \<noteq> Inl oof \<Longrightarrow> m' s = m s"
  by (simp add: approx_def)

lemma approx_bind [approx_rule]:
  assumes m: "approx oof m m'" and f: "\<And>x. approx oof (f x) (f' x)"
  shows "approx oof (bindM m f) (bindM m' f')"
  unfolding approx_def
proof (intro allI impI)
  fix s assume ne: "fst (bindM m f s) \<noteq> Inl oof"
  obtain r t where mt: "m s = (r, t)" by (cases "m s")
  show "bindM m' f' s = bindM m f s"
  proof (cases r)
    case (Inl e)
    with mt ne have "fst (m s) \<noteq> Inl oof" by (simp add: bindM_Inl)
    with m have "m' s = m s" by (rule approxD)
    with mt Inl show ?thesis by (simp add: bindM_Inl)
  next
    case (Inr x)
    with mt m have "m' s = m s" by (simp add: approx_def)
    moreover have "f' x t = f x t"
      using f ne mt Inr by (auto simp: bindM_Inr approx_def)
    ultimately show ?thesis using mt Inr by (simp add: bindM_Inr)
  qed
qed

lemma approx_for [approx_rule]:
  "(\<And>x. x \<in> set xs \<Longrightarrow> approx oof (f x) (f' x)) \<Longrightarrow> approx oof (forM f xs) (forM f' xs)"
  by (induction xs) (auto intro: approx_rule)

lemma approx_if [approx_rule]:
  "(b \<Longrightarrow> approx oof m m') \<Longrightarrow> (\<not> b \<Longrightarrow> approx oof n n') \<Longrightarrow>
     approx oof (if b then m else n) (if b then m' else n')"
  by simp

lemma approx_let [approx_rule]: "approx oof (f v) (f' v) \<Longrightarrow> approx oof (Let v f) (Let v f')"
  by simp

lemma approx_option [approx_rule]:
  "approx oof m m' \<Longrightarrow> (\<And>y. approx oof (f y) (f' y)) \<Longrightarrow>
     approx oof (case x of None \<Rightarrow> m | Some y \<Rightarrow> f y) (case x of None \<Rightarrow> m' | Some y \<Rightarrow> f' y)"
  by (cases x) auto

end
