(* ===== verification/Values.thy ===== *)
theory Values imports Complex_Main "HOL-Library.Char_ord" "HOL-Library.List_Lexorder" Prelude begin

text \<open>
  Dynamically typed Go values (\<open>any\<close>), the conversions the engine applies to them, 64-bit
  integers, \<open>fmt.Sprintf\<close> with the verbs the program uses, and the generator of entity
  identifiers of engine/engine.go.
\<close>

section \<open>Values of type any\<close>

text \<open>
  The dynamic types a process variable takes: \<open>nil\<close>, \<open>bool\<close>, \<open>float64\<close>, \<open>int\<close>, \<open>int64\<close>,
  \<open>string\<close>, \<open>[]string\<close>, \<open>[]any\<close> and \<open>map[string]any\<close>. A \<open>float64\<close> is a rational number;
  the counters the engine keeps in this type are whole numbers far below \<open>2 ^ 53\<close>, where
  \<open>float64\<close> arithmetic is exact. NaN and the infinities are not represented.
\<close>

datatype gval =
    GNil
  | GBool bool
  | GFloat rat
  | GInt int
  | GInt64 int
  | GString string
  | GStrings "string list"
  | GList "gval list"
  | GMap "(string \<times> gval) list"

type_synonym vars = "gval gomap"

text \<open>\<open>f, _ := v.(float64)\<close>: the zero value when the key is absent or has another type.\<close>

definition assertFloat :: "gval option \<Rightarrow> rat" where
  "assertFloat v = (case v of Some (GFloat f) \<Rightarrow> f | _ \<Rightarrow> 0)"

definition assertString :: "gval option \<Rightarrow> string" where
  "assertString v = (case v of Some (GString s) \<Rightarrow> s | _ \<Rightarrow> '''')"

text \<open>\<open>int(f)\<close> truncates towards zero.\<close>

definition truncRat :: "rat \<Rightarrow> int" where
  "truncRat f = (if 0 \<le> f then \<lfloor>f\<rfloor> else \<lceil>f\<rceil>)"

lemma truncRat_of_int [simp]: "truncRat (of_int i) = i"
  by (simp add: truncRat_def)

lemma truncRat_of_nat [simp]: "truncRat (of_nat n) = int n"
  by (simp add: truncRat_def)

text \<open>\<open>toFloat64\<close> of engine/reject.go; an absent map entry reads as \<open>nil\<close>.\<close>

definition toFloat64 :: "gval option \<Rightarrow> rat" where
  "toFloat64 v = (case v of
      None \<Rightarrow> 0
    | Some GNil \<Rightarrow> 0
    | Some (GFloat n) \<Rightarrow> n
    | Some (GInt n) \<Rightarrow> of_int n
    | Some (GInt64 n) \<Rightarrow> of_int n
    | Some _ \<Rightarrow> 0)"

section \<open>64-bit integers\<close>

text \<open>Go's \<open>int\<close> and \<open>int64\<close> wrap around in two's complement.\<close>

definition wrap64 :: "int \<Rightarrow> int" where
  "wrap64 i = signed_take_bit 63 i"

definition in64 :: "int \<Rightarrow> bool" where
  "in64 i \<longleftrightarrow> - (2 ^ 63) \<le> i \<and> i < 2 ^ 63"

lemma wrap64_id [simp]: "in64 i \<Longrightarrow> wrap64 i = i"
  by (simp add: wrap64_def in64_def signed_take_bit_int_eq_self)

lemma in64_wrap64 [simp]: "in64 (wrap64 i)"
  using signed_take_bit_int_greater_eq_minus_exp [of 63 i] signed_take_bit_int_less_exp [of 63 i]
  by (simp add: wrap64_def in64_def)

section \<open>Formatting\<close>

definition digitChar :: "int \<Rightarrow> char" where
  "digitChar d = ''0123456789abcdef'' ! nat d"

text \<open>The digits of a non-negative number in base 16 and in base 10.\<close>

function hexDigits :: "int \<Rightarrow> string" where
  "hexDigits i = (if i < 16 then [digitChar i] else hexDigits (i div 16) @ [digitChar (i mod 16)])"
  by pat_completeness auto
termination
  by (relation "measure nat") auto

function decDigits :: "int \<Rightarrow> string" where
  "decDigits i = (if i < 10 then [digitChar i] else decDigits (i div 10) @ [digitChar (i mod 10)])"
  by pat_completeness auto
termination
  by (relation "measure nat") auto

declare hexDigits.simps [simp del] decDigits.simps [simp del]

text \<open>The verbs \<open>%x\<close> and \<open>%d\<close> on integers.\<close>

definition fmtHex :: "int \<Rightarrow> string" where
  "fmtHex i = (if i < 0 then CHR ''-'' # hexDigits (- i) else hexDigits i)"

definition fmtDec :: "int \<Rightarrow> string" where
  "fmtDec i = (if i < 0 then CHR ''-'' # decDigits (- i) else decDigits i)"

fun joinSep :: "string \<Rightarrow> string list \<Rightarrow> string" where
  "joinSep sep [] = ''''"
| "joinSep sep [x] = x"
| "joinSep sep (x # y # xs) = x @ sep @ joinSep sep (y # xs)"

text \<open>
  The verb \<open>%v\<close>. The shortest decimal form of a \<open>float64\<close> is the argument \<open>ff\<close>. Maps are
  printed in key order.
\<close>

fun sprintv :: "(rat \<Rightarrow> string) \<Rightarrow> gval \<Rightarrow> string" where
  "sprintv ff GNil = ''<nil>''"
| "sprintv ff (GBool b) = (if b then ''true'' else ''false'')"
| "sprintv ff (GFloat f) = ff f"
| "sprintv ff (GInt i) = fmtDec i"
| "sprintv ff (GInt64 i) = fmtDec i"
| "sprintv ff (GString s) = s"
| "sprintv ff (GStrings ss) = ''['' @ joinSep '' '' ss @ '']''"
| "sprintv ff (GList vs) = ''['' @ joinSep '' '' (map (sprintv ff) vs) @ '']''"
| "sprintv ff (GMap kvs) =
     ''map['' @ joinSep '' '' (map (\<lambda>(k, s). k @ '':'' @ s)
        (sort_key fst (map (\<lambda>(k, v). (k, sprintv ff v)) kvs))) @ '']''"

section \<open>Identifiers\<close>

text \<open>
  \<open>newID\<close> of engine/engine.go prints the time in nanoseconds and a process-wide counter in
  hexadecimal, one after the other and without a separator.
\<close>

definition newIDString :: "int \<Rightarrow> int \<Rightarrow> string" where
  "newIDString ts c = fmtHex ts @ fmtHex c"

fun hexVal :: "string \<Rightarrow> int" where
  "hexVal [] = 0"
| "hexVal (c # cs) = (if c \<in> set ''0123456789'' then of_char c - 48 else of_char c - 87) * 16 ^ length cs
      + hexVal cs"

lemma hexVal_append: "hexVal (xs @ ys) = hexVal xs * 16 ^ length ys + hexVal ys"
  by (induction xs) (auto simp: algebra_simps power_add)

lemma hexVal_digit: "0 \<le> d \<Longrightarrow> d < 16 \<Longrightarrow> hexVal [digitChar d] = d"
proof -
  assume "0 \<le> d" "d < 16"
  then have "d \<in> set [0..15]" by auto
  then show ?thesis by (simp add: digitChar_def upto.simps nth_Cons' nat_eq_iff) (elim disjE; simp)
qed

lemma hexVal_hexDigits: "0 \<le> i \<Longrightarrow> hexVal (hexDigits i) = i"
proof (induction i rule: hexDigits.induct)
  case (1 i)
  show ?case
  proof (cases "i < 16")
    case True
    with "1.prems" show ?thesis
      using hexVal_digit [of i] by (simp add: hexDigits.simps [of i] del: hexVal.simps)
  next
    case False
    with 1 have "hexVal (hexDigits (i div 16)) = i div 16" by simp
    with False show ?thesis
      by (simp add: hexDigits.simps [of i] hexVal_append hexVal_digit del: hexVal.simps)
  qed
qed

lemma length_hexDigits:
  "16 ^ n \<le> i \<Longrightarrow> i < 16 ^ Suc n \<Longrightarrow> length (hexDigits i) = Suc n"
proof (induction n arbitrary: i)
  case 0
  then show ?case by (simp add: hexDigits.simps [of i])
next
  case (Suc n)
  have "1 \<le> (16 :: int) ^ n" by simp
  then have "(16 :: int) \<le> 16 ^ Suc n" by simp
  then have ge: "16 \<le> i" using Suc.prems(1) by (rule order_trans)
  have "16 ^ n \<le> i div 16" using Suc.prems(1) using zdiv_mono1 [of "16 ^ Suc n" i 16] by simp
  moreover have "i div 16 < 16 ^ Suc n"
    using Suc.prems(2) by (simp add: div_less_iff_less_mult mult.commute)
  ultimately have "length (hexDigits (i div 16)) = Suc n" by (rule Suc.IH)
  with ge show ?case by (simp add: hexDigits.simps [of i])
qed


lemma hexDigits_inj: "0 \<le> i \<Longrightarrow> 0 \<le> j \<Longrightarrow> hexDigits i = hexDigits j \<Longrightarrow> i = j"
  by (metis hexVal_hexDigits)

text \<open>
  Without a separator two different pairs can print alike (the number 0x111 splits in two
  ways); with timestamps of the same printed length they cannot.
\<close>

lemma newIDString_eq_iff:
  assumes ts: "2 ^ 60 \<le> ts" "ts < 2 ^ 63" and ts': "2 ^ 60 \<le> ts'" "ts' < 2 ^ 63"
    and c: "0 \<le> c" "0 \<le> c'"
  shows "newIDString ts c = newIDString ts' c' \<longleftrightarrow> ts = ts' \<and> c = c'"
proof
  assume eq: "newIDString ts c = newIDString ts' c'"
  have len: "length (hexDigits t) = Suc 15" if "2 ^ 60 \<le> t" "t < 2 ^ 63" for t :: int
    using that by (intro length_hexDigits) auto
  have "hexDigits ts = hexDigits ts'" and "hexDigits c = hexDigits c'"
    using eq ts ts' c len [of ts] len [of ts'] by (auto simp: newIDString_def fmtHex_def)
  then show "ts = ts' \<and> c = c'"
    using ts ts' c by (auto dest: hexDigits_inj [rotated 2])
qed simp

end
