(* ===== verification/ProcSpec.thy ===== *)
theory ProcSpec imports Values begin

text \<open>
  The package spec: process definitions (spec/spec.go, spec/elements.go, spec/gateways.go,
  spec/sequence_flow.go), their structural validation, and the record form in which
  elements are written to and read from JSON.
\<close>

section \<open>Elements and flows\<close>

text \<open>\<open>ElementType\<close> is a Go string type; a value outside the constants is \<open>ElementTypeOther\<close>.\<close>

datatype ElementType =
    ElementTypeStartEvent
  | ElementTypeEndEvent
  | ElementTypeUserTask
  | ElementTypeServiceTask
  | ElementTypeExclusiveGateway
  | ElementTypeParallelGateway
  | ElementTypeInclusiveGateway
  | ElementTypeBoundaryEvent
  | ElementTypeIntermediateCatchEvent
  | ElementTypeIntermediateThrowEvent
  | ElementTypeCallActivity
  | ElementTypeOther string

record LoopCharacteristics =
  lc_IsSequential :: bool
  lc_LoopCardinality :: string
  lc_Collection :: string
  lc_ElementVariable :: string
  lc_CompletionCondition :: string

record TimerEventDefinition =
  td_TimerDuration :: string
  td_TimerDate :: string
  td_TimerCycle :: string

record SignalEventDefinition =
  sd_SignalRef :: string

record MessageEventDefinition =
  md_MessageRef :: string

record UserTask =
  ut_ID :: string
  ut_Name :: string
  ut_Assignee :: string
  ut_CandidateUsers :: "string list"
  ut_CandidateGroup :: string
  ut_FormKey :: string
  ut_LoopCharacteristics :: "LoopCharacteristics option"

record ServiceTask =
  st_ID :: string
  st_Name :: string
  st_Type :: string

record CallActivity =
  ca_ID :: string
  ca_Name :: string
  ca_CalledElement :: string
  ca_InheritVariables :: bool

record BoundaryEvent =
  be_ID :: string
  be_Name :: string
  be_AttachedToRef :: string
  be_CancelActivity :: bool
  be_TimerDefinition :: "TimerEventDefinition option"
  be_SignalDefinition :: "SignalEventDefinition option"
  be_MessageDefinition :: "MessageEventDefinition option"

record IntermediateCatchEvent =
  ice_ID :: string
  ice_Name :: string
  ice_TimerDefinition :: "TimerEventDefinition option"
  ice_SignalDefinition :: "SignalEventDefinition option"
  ice_MessageDefinition :: "MessageEventDefinition option"

record IntermediateThrowEvent =
  ite_ID :: string
  ite_Name :: string
  ite_SignalDefinition :: "SignalEventDefinition option"
  ite_MessageDefinition :: "MessageEventDefinition option"

text \<open>\<open>ExclusiveGateway\<close> and \<open>InclusiveGateway\<close> have the same fields.\<close>

record DefaultGateway =
  gw_ID :: string
  gw_Name :: string
  gw_DefaultFlowID :: string

text \<open>The interface \<open>FlowElement\<close>: one constructor per struct that implements it.\<close>

datatype FlowElement =
    StartEvent string string
  | EndEvent string string
  | UserTaskEl UserTask
  | ServiceTaskEl ServiceTask
  | ExclusiveGateway DefaultGateway
  | ParallelGateway string string
  | InclusiveGateway DefaultGateway
  | BoundaryEventEl BoundaryEvent
  | IntermediateCatchEventEl IntermediateCatchEvent
  | IntermediateThrowEventEl IntermediateThrowEvent
  | CallActivityEl CallActivity

fun GetID :: "FlowElement \<Rightarrow> string" where
  "GetID (StartEvent i n) = i"
| "GetID (EndEvent i n) = i"
| "GetID (UserTaskEl t) = ut_ID t"
| "GetID (ServiceTaskEl t) = st_ID t"
| "GetID (ExclusiveGateway g) = gw_ID g"
| "GetID (ParallelGateway i n) = i"
| "GetID (InclusiveGateway g) = gw_ID g"
| "GetID (BoundaryEventEl e) = be_ID e"
| "GetID (IntermediateCatchEventEl e) = ice_ID e"
| "GetID (IntermediateThrowEventEl e) = ite_ID e"
| "GetID (CallActivityEl c) = ca_ID c"

fun GetName :: "FlowElement \<Rightarrow> string" where
  "GetName (StartEvent i n) = n"
| "GetName (EndEvent i n) = n"
| "GetName (UserTaskEl t) = ut_Name t"
| "GetName (ServiceTaskEl t) = st_Name t"
| "GetName (ExclusiveGateway g) = gw_Name g"
| "GetName (ParallelGateway i n) = n"
| "GetName (InclusiveGateway g) = gw_Name g"
| "GetName (BoundaryEventEl e) = be_Name e"
| "GetName (IntermediateCatchEventEl e) = ice_Name e"
| "GetName (IntermediateThrowEventEl e) = ite_Name e"
| "GetName (CallActivityEl c) = ca_Name c"

fun GetType :: "FlowElement \<Rightarrow> ElementType" where
  "GetType (StartEvent i n) = ElementTypeStartEvent"
| "GetType (EndEvent i n) = ElementTypeEndEvent"
| "GetType (UserTaskEl t) = ElementTypeUserTask"
| "GetType (ServiceTaskEl t) = ElementTypeServiceTask"
| "GetType (ExclusiveGateway g) = ElementTypeExclusiveGateway"
| "GetType (ParallelGateway i n) = ElementTypeParallelGateway"
| "GetType (InclusiveGateway g) = ElementTypeInclusiveGateway"
| "GetType (BoundaryEventEl e) = ElementTypeBoundaryEvent"
| "GetType (IntermediateCatchEventEl e) = ElementTypeIntermediateCatchEvent"
| "GetType (IntermediateThrowEventEl e) = ElementTypeIntermediateThrowEvent"
| "GetType (CallActivityEl c) = ElementTypeCallActivity"

record SequenceFlow =
  sf_ID :: string
  sf_Name :: string
  sf_SourceRef :: string
  sf_TargetRef :: string
  sf_ConditionExpression :: "string option"

definition HasCondition :: "SequenceFlow \<Rightarrow> bool" where
  "HasCondition sf \<longleftrightarrow> sf_ConditionExpression sf \<noteq> None"

record ProcessDefinition =
  pd_ID :: string
  pd_Name :: string
  pd_Key :: string
  pd_Version :: int
  pd_TenantID :: string
  pd_Elements :: "FlowElement gomap"
  pd_SequenceFlows :: "SequenceFlow list"
  pd_StartEventID :: string

definition element :: "ProcessDefinition \<Rightarrow> string \<Rightarrow> FlowElement option" where
  "element pd i = map_of (pd_Elements pd) i"

definition FindOutgoingFlows :: "SequenceFlow list \<Rightarrow> string \<Rightarrow> SequenceFlow list" where
  "FindOutgoingFlows flows elementID = filter (\<lambda>sf. sf_SourceRef sf = elementID) flows"

definition FindIncomingFlows :: "SequenceFlow list \<Rightarrow> string \<Rightarrow> SequenceFlow list" where
  "FindIncomingFlows flows elementID = filter (\<lambda>sf. sf_TargetRef sf = elementID) flows"

lemma FindOutgoingFlows_source:
  "sf \<in> set (FindOutgoingFlows fs i) \<longleftrightarrow> sf \<in> set fs \<and> sf_SourceRef sf = i"
  by (simp add: FindOutgoingFlows_def)

lemma FindIncomingFlows_target:
  "sf \<in> set (FindIncomingFlows fs i) \<longleftrightarrow> sf \<in> set fs \<and> sf_TargetRef sf = i"
  by (simp add: FindIncomingFlows_def)

section \<open>Validation\<close>

text \<open>One constructor per error message of \<open>Validate\<close>; all wrap \<open>ErrInvalidDefinition\<close>.\<close>

datatype invalid =
    IdRequired
  | StartRequired
  | NoElements
  | StartNotFound string
  | NotAStartEvent string ElementType
  | KeyMismatch string string
  | SourceNotFound string string
  | TargetNotFound string string
  | StartHasNoOutgoing string
  | NoEndEvent

text \<open>The loop over the sequence flows returns the first bad reference.\<close>

primrec checkFlows :: "FlowElement gomap \<Rightarrow> SequenceFlow list \<Rightarrow> invalid option" where
  "checkFlows els [] = None"
| "checkFlows els (sf # sfs) =
     (if map_of els (sf_SourceRef sf) = None then Some (SourceNotFound (sf_ID sf) (sf_SourceRef sf))
      else if map_of els (sf_TargetRef sf) = None then Some (TargetNotFound (sf_ID sf) (sf_TargetRef sf))
      else checkFlows els sfs)"

text \<open>
  \<open>Validate\<close> returns \<open>None\<close> for a valid definition. \<open>ord\<close> is the iteration order of the
  element map, which decides which of several mismatched keys is reported.
\<close>

definition Validate :: "(string list \<Rightarrow> string list) \<Rightarrow> ProcessDefinition \<Rightarrow> invalid option" where
  "Validate ord pd =
     (if pd_ID pd = '''' then Some IdRequired
      else if pd_StartEventID pd = '''' then Some StartRequired
      else if pd_Elements pd = [] then Some NoElements
      else case map_of (pd_Elements pd) (pd_StartEventID pd) of
        None \<Rightarrow> Some (StartNotFound (pd_StartEventID pd))
      | Some startEvent \<Rightarrow>
          if GetType startEvent \<noteq> ElementTypeStartEvent
          then Some (NotAStartEvent (pd_StartEventID pd) (GetType startEvent))
          else case find (\<lambda>(i, el). i \<noteq> GetID el) (mrange ord (pd_Elements pd)) of
            Some (i, el) \<Rightarrow> Some (KeyMismatch i (GetID el))
          | None \<Rightarrow>
              (case checkFlows (pd_Elements pd) (pd_SequenceFlows pd) of
                 Some e \<Rightarrow> Some e
               | None \<Rightarrow>
                   if FindOutgoingFlows (pd_SequenceFlows pd) (pd_StartEventID pd) = []
                   then Some (StartHasNoOutgoing (pd_StartEventID pd))
                   else if \<not> list_ex (\<lambda>(i, el). GetType el = ElementTypeEndEvent)
                                     (mrange ord (pd_Elements pd))
                   then Some NoEndEvent
                   else None))"

text \<open>What a valid definition is, without reference to the order of the checks.\<close>

definition wf_definition :: "ProcessDefinition \<Rightarrow> bool" where
  "wf_definition pd \<longleftrightarrow>
     pd_ID pd \<noteq> '''' \<and> pd_StartEventID pd \<noteq> ''''
   \<and> (\<exists>i n. element pd (pd_StartEventID pd) = Some (StartEvent i n))
   \<and> (\<forall>i el. element pd i = Some el \<longrightarrow> GetID el = i)
   \<and> (\<forall>sf\<in>set (pd_SequenceFlows pd).
        element pd (sf_SourceRef sf) \<noteq> None \<and> element pd (sf_TargetRef sf) \<noteq> None)
   \<and> (\<exists>sf\<in>set (pd_SequenceFlows pd). sf_SourceRef sf = pd_StartEventID pd)
   \<and> (\<exists>i j n. element pd i = Some (EndEvent j n))"

lemma checkFlows_None:
  "checkFlows els sfs = None \<longleftrightarrow>
     (\<forall>sf\<in>set sfs. map_of els (sf_SourceRef sf) \<noteq> None \<and> map_of els (sf_TargetRef sf) \<noteq> None)"
  by (induction sfs) auto

lemma GetType_start: "GetType el = ElementTypeStartEvent \<longleftrightarrow> (\<exists>i n. el = StartEvent i n)"
  by (cases el) auto

lemma GetType_end: "GetType el = ElementTypeEndEvent \<longleftrightarrow> (\<exists>i n. el = EndEvent i n)"
  by (cases el) auto

lemma GetType_userTask: "GetType el = ElementTypeUserTask \<longleftrightarrow> (\<exists>t. el = UserTaskEl t)"
  by (cases el) auto

lemma find_None_set: "find P xs = None \<longleftrightarrow> (\<forall>x\<in>set xs. \<not> P x)"
  by (induction xs) auto

lemma Validate_None_iff:
  assumes "fair_order ord" and d: "distinct (map fst (pd_Elements pd))"
  shows "Validate ord pd = None \<longleftrightarrow> wf_definition pd"
proof -
  have set_el: "set (mrange ord (pd_Elements pd)) = set (pd_Elements pd)"
    using assms by (rule set_mrange)
  have lookup: "map_of (pd_Elements pd) i = Some el \<longleftrightarrow> (i, el) \<in> set (pd_Elements pd)" for i el
    using d by (rule map_of_eq_Some_iff)
  have keys: "find (\<lambda>(i, el). i \<noteq> GetID el) (mrange ord (pd_Elements pd)) = None
       \<longleftrightarrow> (\<forall>i el. element pd i = Some el \<longrightarrow> GetID el = i)"
    by (auto simp: find_None_set set_el element_def lookup)
  have ends: "list_ex (\<lambda>(i, el). GetType el = ElementTypeEndEvent) (mrange ord (pd_Elements pd))
       \<longleftrightarrow> (\<exists>i j n. element pd i = Some (EndEvent j n))"
    by (auto simp: list_ex_iff set_el element_def lookup GetType_end)
  have out: "FindOutgoingFlows (pd_SequenceFlows pd) i = []
       \<longleftrightarrow> \<not> (\<exists>sf\<in>set (pd_SequenceFlows pd). sf_SourceRef sf = i)" for i
    by (auto simp: FindOutgoingFlows_def filter_empty_conv)
  show ?thesis
  proof (cases "element pd (pd_StartEventID pd)")
    case None
    then show ?thesis by (simp add: Validate_def wf_definition_def element_def)
  next
    case (Some el)
    then have ne: "pd_Elements pd \<noteq> []" and el: "map_of (pd_Elements pd) (pd_StartEventID pd) = Some el"
      by (auto simp: element_def)
    have "Validate ord pd = None \<longleftrightarrow> pd_ID pd \<noteq> [] \<and> pd_StartEventID pd \<noteq> []
        \<and> GetType el = ElementTypeStartEvent
        \<and> find (\<lambda>(i, el). i \<noteq> GetID el) (mrange ord (pd_Elements pd)) = None
        \<and> checkFlows (pd_Elements pd) (pd_SequenceFlows pd) = None
        \<and> FindOutgoingFlows (pd_SequenceFlows pd) (pd_StartEventID pd) \<noteq> []
        \<and> list_ex (\<lambda>(i, el). GetType el = ElementTypeEndEvent) (mrange ord (pd_Elements pd))"
      using ne el by (simp add: Validate_def split: option.split prod.split)
    then show ?thesis
      by (simp only: keys ends out wf_definition_def checkFlows_None GetType_start element_def
          el option.inject not_not)
  qed
qed

section \<open>The JSON form of elements\<close>

text \<open>
  \<open>MarshalJSON\<close> turns each element into an \<open>elementRecord\<close> before the library encodes the
  list, and \<open>UnmarshalJSON\<close> rebuilds the elements from the decoded list. The text encoding
  itself is encoding/json; a field that is absent from the text decodes to its zero value.
\<close>

record elementRecord =
  er_ID :: string
  er_Name :: string
  er_Type :: ElementType
  er_DefaultFlowID :: string
  er_Assignee :: string
  er_CandidateUsers :: "string list"
  er_CandidateGroup :: string
  er_FormKey :: string
  er_LoopCharacteristics :: "LoopCharacteristics option"
  er_ServiceType :: string
  er_AttachedToRef :: string
  er_CancelActivity :: bool
  er_TimerDefinition :: "TimerEventDefinition option"
  er_SignalDefinition :: "SignalEventDefinition option"
  er_MessageDefinition :: "MessageEventDefinition option"
  er_CalledElement :: string
  er_InheritVariables :: bool

definition zeroRecord :: "string \<Rightarrow> string \<Rightarrow> ElementType \<Rightarrow> elementRecord" where
  "zeroRecord i n t = \<lparr>er_ID = i, er_Name = n, er_Type = t, er_DefaultFlowID = '''', er_Assignee = '''',
     er_CandidateUsers = [], er_CandidateGroup = '''', er_FormKey = '''', er_LoopCharacteristics = None,
     er_ServiceType = '''', er_AttachedToRef = '''', er_CancelActivity = False,
     er_TimerDefinition = None, er_SignalDefinition = None, er_MessageDefinition = None,
     er_CalledElement = '''', er_InheritVariables = False\<rparr>"

definition marshalElement :: "FlowElement \<Rightarrow> elementRecord" where
  "marshalElement el = (let rec = zeroRecord (GetID el) (GetName el) (GetType el) in
     case el of
       ExclusiveGateway v \<Rightarrow> rec\<lparr>er_DefaultFlowID := gw_DefaultFlowID v\<rparr>
     | InclusiveGateway v \<Rightarrow> rec\<lparr>er_DefaultFlowID := gw_DefaultFlowID v\<rparr>
     | UserTaskEl v \<Rightarrow> rec\<lparr>er_Assignee := ut_Assignee v, er_CandidateUsers := ut_CandidateUsers v,
         er_CandidateGroup := ut_CandidateGroup v, er_FormKey := ut_FormKey v,
         er_LoopCharacteristics := ut_LoopCharacteristics v\<rparr>
     | ServiceTaskEl v \<Rightarrow> rec\<lparr>er_ServiceType := st_Type v\<rparr>
     | BoundaryEventEl v \<Rightarrow> rec\<lparr>er_AttachedToRef := be_AttachedToRef v,
         er_CancelActivity := be_CancelActivity v, er_TimerDefinition := be_TimerDefinition v,
         er_SignalDefinition := be_SignalDefinition v, er_MessageDefinition := be_MessageDefinition v\<rparr>
     | IntermediateCatchEventEl v \<Rightarrow> rec\<lparr>er_TimerDefinition := ice_TimerDefinition v,
         er_SignalDefinition := ice_SignalDefinition v, er_MessageDefinition := ice_MessageDefinition v\<rparr>
     | IntermediateThrowEventEl v \<Rightarrow> rec\<lparr>er_SignalDefinition := ite_SignalDefinition v,
         er_MessageDefinition := ite_MessageDefinition v\<rparr>
     | CallActivityEl v \<Rightarrow> rec\<lparr>er_CalledElement := ca_CalledElement v,
         er_InheritVariables := ca_InheritVariables v\<rparr>
     | _ \<Rightarrow> rec)"

definition MarshalJSON :: "(string list \<Rightarrow> string list) \<Rightarrow> ProcessDefinition \<Rightarrow> elementRecord list" where
  "MarshalJSON ord pd = map (\<lambda>(_, el). marshalElement el) (mrange ord (pd_Elements pd))"

text \<open>\<open>Inl\<close> is the error for an unknown element type.\<close>

fun unmarshalElement :: "elementRecord \<Rightarrow> ElementType + FlowElement" where
  "unmarshalElement rec = (case er_Type rec of
       ElementTypeStartEvent \<Rightarrow> Inr (StartEvent (er_ID rec) (er_Name rec))
     | ElementTypeEndEvent \<Rightarrow> Inr (EndEvent (er_ID rec) (er_Name rec))
     | ElementTypeUserTask \<Rightarrow> Inr (UserTaskEl \<lparr>ut_ID = er_ID rec, ut_Name = er_Name rec,
         ut_Assignee = er_Assignee rec, ut_CandidateUsers = er_CandidateUsers rec,
         ut_CandidateGroup = er_CandidateGroup rec, ut_FormKey = er_FormKey rec,
         ut_LoopCharacteristics = er_LoopCharacteristics rec\<rparr>)
     | ElementTypeServiceTask \<Rightarrow> Inr (ServiceTaskEl \<lparr>st_ID = er_ID rec, st_Name = er_Name rec,
         st_Type = er_ServiceType rec\<rparr>)
     | ElementTypeExclusiveGateway \<Rightarrow> Inr (ExclusiveGateway \<lparr>gw_ID = er_ID rec, gw_Name = er_Name rec,
         gw_DefaultFlowID = er_DefaultFlowID rec\<rparr>)
     | ElementTypeParallelGateway \<Rightarrow> Inr (ParallelGateway (er_ID rec) (er_Name rec))
     | ElementTypeInclusiveGateway \<Rightarrow> Inr (InclusiveGateway \<lparr>gw_ID = er_ID rec, gw_Name = er_Name rec,
         gw_DefaultFlowID = er_DefaultFlowID rec\<rparr>)
     | ElementTypeBoundaryEvent \<Rightarrow> Inr (BoundaryEventEl \<lparr>be_ID = er_ID rec, be_Name = er_Name rec,
         be_AttachedToRef = er_AttachedToRef rec, be_CancelActivity = er_CancelActivity rec,
         be_TimerDefinition = er_TimerDefinition rec, be_SignalDefinition = er_SignalDefinition rec,
         be_MessageDefinition = er_MessageDefinition rec\<rparr>)
     | ElementTypeIntermediateCatchEvent \<Rightarrow> Inr (IntermediateCatchEventEl \<lparr>ice_ID = er_ID rec,
         ice_Name = er_Name rec, ice_TimerDefinition = er_TimerDefinition rec,
         ice_SignalDefinition = er_SignalDefinition rec, ice_MessageDefinition = er_MessageDefinition rec\<rparr>)
     | ElementTypeIntermediateThrowEvent \<Rightarrow> Inr (IntermediateThrowEventEl \<lparr>ite_ID = er_ID rec,
         ite_Name = er_Name rec, ite_SignalDefinition = er_SignalDefinition rec,
         ite_MessageDefinition = er_MessageDefinition rec\<rparr>)
     | ElementTypeCallActivity \<Rightarrow> Inr (CallActivityEl \<lparr>ca_ID = er_ID rec, ca_Name = er_Name rec,
         ca_CalledElement = er_CalledElement rec, ca_InheritVariables = er_InheritVariables rec\<rparr>)
     | ElementTypeOther t \<Rightarrow> Inl (ElementTypeOther t))"

primrec unmarshalLoop :: "elementRecord list \<Rightarrow> FlowElement gomap \<Rightarrow> ElementType + FlowElement gomap" where
  "unmarshalLoop [] els = Inr els"
| "unmarshalLoop (rec # recs) els =
     (case unmarshalElement rec of
        Inl t \<Rightarrow> Inl t
      | Inr el \<Rightarrow> unmarshalLoop recs (AList.update (er_ID rec) el els))"

definition UnmarshalJSON :: "elementRecord list \<Rightarrow> ElementType + FlowElement gomap" where
  "UnmarshalJSON recs = unmarshalLoop recs []"

lemma unmarshal_marshal: "unmarshalElement (marshalElement el) = Inr el"
  by (cases el) (auto simp: marshalElement_def zeroRecord_def Let_def)

lemma er_ID_marshal: "er_ID (marshalElement el) = GetID el"
  by (cases el) (auto simp: marshalElement_def zeroRecord_def Let_def)

lemma unmarshalLoop_marshal:
  assumes "\<forall>(i, el)\<in>set kvs. GetID el = i" and "distinct (map fst kvs)"
  shows "\<exists>els'. unmarshalLoop (map (\<lambda>(_, el). marshalElement el) kvs) els = Inr els'
       \<and> (\<forall>i. map_of els' i = (case map_of kvs i of Some el \<Rightarrow> Some el | None \<Rightarrow> map_of els i))"
  using assms
proof (induction kvs arbitrary: els)
  case Nil
  then show ?case by simp
next
  case (Cons kv kvs)
  obtain k el where kv: "kv = (k, el)" by (cases kv)
  have "map_of kvs k = None"
    using Cons.prems(2) by (simp add: kv map_of_eq_None_iff)
  moreover have "GetID el = k" using Cons.prems(1) by (simp add: kv)
  moreover obtain els' where
    "unmarshalLoop (map (\<lambda>(_, el). marshalElement el) kvs) (AList.update k el els) = Inr els'"
    "\<forall>i. map_of els' i = (case map_of kvs i of Some e \<Rightarrow> Some e | None \<Rightarrow> map_of (AList.update k el els) i)"
    using Cons.IH [of "AList.update k el els"] Cons.prems unfolding kv by auto
  ultimately show ?case
    by (auto simp: kv unmarshal_marshal er_ID_marshal simp del: unmarshalElement.simps split: option.splits)
qed

text \<open>C33. Marshalling a definition to its JSON records and back gives the same elements, in whatever
  order the map of elements is written.\<close>

theorem json_roundtrip:
  assumes ord: "fair_order ord" and d: "distinct (map fst (pd_Elements pd))"
    and ids: "\<forall>i el. element pd i = Some el \<longrightarrow> GetID el = i"
  shows "\<exists>els. UnmarshalJSON (MarshalJSON ord pd) = Inr els \<and> map_of els = map_of (pd_Elements pd)"
proof -
  let ?kvs = "mrange ord (pd_Elements pd)"
  have s: "set ?kvs = set (pd_Elements pd)" and dk: "distinct (map fst ?kvs)"
    using ord d by (rule set_mrange, rule mrange_keys_distinct)
  have "\<forall>(i, el)\<in>set ?kvs. GetID el = i"
    using ids d by (auto simp: s element_def)
  from unmarshalLoop_marshal [OF this dk, of "[]"] obtain els where
    "UnmarshalJSON (MarshalJSON ord pd) = Inr els"
    "\<forall>i. map_of els i = (case map_of ?kvs i of Some el \<Rightarrow> Some el | None \<Rightarrow> None)"
    by (auto simp only: UnmarshalJSON_def MarshalJSON_def map_of.simps)
  moreover have "map_of ?kvs = map_of (pd_Elements pd)"
    using dk d s by (rule map_of_inject_set [THEN iffD2])
  ultimately show ?thesis by (auto simp: fun_eq_iff split: option.splits)
qed

theorem json_roundtrip_witness:
  "let d = \<lparr>pd_ID = ''k:v1'', pd_Name = ''K'', pd_Key = ''k'', pd_Version = 1, pd_TenantID = [],
      pd_Elements = [(''s'', StartEvent ''s'' ''begin''), (''e'', EndEvent ''e'' ''done'')],
      pd_SequenceFlows = [], pd_StartEventID = ''s''\<rparr>
   in \<exists>els. UnmarshalJSON (MarshalJSON rev d) = Inr els \<and> map_of els = map_of (pd_Elements d)"
  unfolding Let_def by (rule json_roundtrip) (auto simp: fair_order_def element_def split: if_splits)

lemma unmarshalElement_typed:
  "unmarshalElement r = Inr el \<Longrightarrow> GetID el = er_ID r \<and> GetType el = er_Type r \<and> GetName el = er_Name r"
  by (auto split: ElementType.splits)

lemma unmarshalElement_error: "unmarshalElement r = Inl t \<longleftrightarrow> er_Type r = t \<and> (\<exists>x. t = ElementTypeOther x)"
  by (auto split: ElementType.splits)

text \<open>An element that was decoded from one of the records.\<close>

definition decodedFrom :: "elementRecord list \<Rightarrow> string \<times> FlowElement \<Rightarrow> bool" where
  "decodedFrom recs = (\<lambda>(i, el). \<exists>r\<in>set recs. er_ID r = i \<and> GetID el = i \<and> GetType el = er_Type r \<and> GetName el = er_Name r)"

lemma unmarshalLoop_typed:
  assumes "unmarshalLoop recs els = Inr els'" and "distinct (map fst els)"
    and "fst ` set els = er_ID ` set done" and "\<forall>kv\<in>set els. decodedFrom done kv"
  shows "distinct (map fst els') \<and> fst ` set els' = er_ID ` set (done @ recs) \<and> (\<forall>kv\<in>set els'. decodedFrom (done @ recs) kv)
    \<and> (\<forall>r\<in>set recs. \<nexists>x. er_Type r = ElementTypeOther x)"
  using assms
proof (induction recs arbitrary: els "done")
  case (Cons r recs)
  then obtain el where el: "unmarshalElement r = Inr el" "unmarshalLoop recs (AList.update (er_ID r) el els) = Inr els'"
    by (auto simp del: unmarshalElement.simps split: sum.splits)
  let ?els = "AList.update (er_ID r) el els" and ?done = "done @ [r]"
  have new: "decodedFrom ?done (er_ID r, el)" using unmarshalElement_typed [OF el(1)] by (auto simp: decodedFrom_def)
  have old: "decodedFrom ?done kv" if "decodedFrom done kv" for kv using that by (auto simp: decodedFrom_def)
  have d: "distinct (map fst ?els)" using Cons.prems(2) by (rule distinct_update)
  have "set ?els \<subseteq> insert (er_ID r, el) (set els)" by (induction els) auto
  then have all: "\<forall>kv\<in>set ?els. decodedFrom ?done kv" using Cons.prems(4) new old by auto
  have "fst ` set ?els = insert (er_ID r) (fst ` set els)" by (induction els) auto
  then have "fst ` set ?els = er_ID ` set ?done" using Cons.prems(3) by auto
  from Cons.IH [OF el(2) d this all] have "distinct (map fst els') \<and> fst ` set els' = er_ID ` set (?done @ recs)
      \<and> (\<forall>kv\<in>set els'. decodedFrom (?done @ recs) kv) \<and> (\<forall>r\<in>set recs. \<nexists>x. er_Type r = ElementTypeOther x)" .
  moreover have "\<nexists>x. er_Type r = ElementTypeOther x" using el(1) unmarshalElement_error [of r "er_Type r"] by (metis sum.distinct(1))
  ultimately show ?case by simp
qed simp

lemma unmarshalLoop_error:
  "unmarshalLoop recs els = Inl t \<Longrightarrow> (\<exists>r\<in>set recs. er_Type r = t) \<and> (\<exists>x. t = ElementTypeOther x)"
proof (induction recs arbitrary: els)
  case (Cons r recs)
  then show ?case
    using unmarshalElement_error [of r] by (auto simp del: unmarshalElement.simps split: sum.splits)
qed simp

text \<open>C34. Decoding a definition produces elements of the types that their records name: each record gives one element under its
  identifier, with its name and its type, and nothing else is in the map; a record of an unknown type makes decoding fail with
  that type.\<close>

theorem decoded_elements_typed:
  "case UnmarshalJSON recs of
     Inl t \<Rightarrow> (\<exists>r\<in>set recs. er_Type r = t) \<and> (\<exists>x. t = ElementTypeOther x)
   | Inr els \<Rightarrow> distinct (map fst els) \<and> fst ` set els = er_ID ` set recs \<and> (\<forall>kv\<in>set els. decodedFrom recs kv)
       \<and> (\<forall>r\<in>set recs. \<nexists>x. er_Type r = ElementTypeOther x)"
proof (cases "UnmarshalJSON recs")
  case (Inl t)
  then show ?thesis using unmarshalLoop_error [of recs "[]" t] by (simp add: UnmarshalJSON_def)
next
  case (Inr els)
  then show ?thesis using unmarshalLoop_typed [of recs "[]" els "[]"] by (simp add: UnmarshalJSON_def)
qed

theorem decoded_elements_typed_witness:
  "let recs = [zeroRecord ''s'' ''begin'' ElementTypeStartEvent, zeroRecord ''u'' ''ask'' ElementTypeUserTask]
   in \<exists>els. UnmarshalJSON recs = Inr els \<and> distinct (map fst els) \<and> fst ` set els = {''s'', ''u''} \<and> (\<forall>kv\<in>set els. decodedFrom recs kv)"
  using decoded_elements_typed [of "[zeroRecord ''s'' ''begin'' ElementTypeStartEvent, zeroRecord ''u'' ''ask'' ElementTypeUserTask]"]
  by (auto simp: UnmarshalJSON_def zeroRecord_def)

end
