(* ===== verification/Instances.thy ===== *)
theory Instances imports ProcSpec begin

text \<open>
  The package instance: the runtime records (process instances, activity instances, tokens,
  history, timer jobs, signal subscriptions), their constructors, and the errors the store
  and the engine return. A time is a number of nanoseconds since the Unix epoch.
\<close>

section \<open>Process instances\<close>

datatype ProcessInstanceState = Running | Suspended | Completed | Terminated | Rejected

text \<open>The string constants behind the states; queries compare against them.\<close>

fun piStateString :: "ProcessInstanceState \<Rightarrow> string" where
  "piStateString Running = ''running''"
| "piStateString Suspended = ''suspended''"
| "piStateString Completed = ''completed''"
| "piStateString Terminated = ''terminated''"
| "piStateString Rejected = ''rejected''"

record ProcessInstance =
  pi_ID :: string
  pi_ProcessDefinitionID :: string
  pi_TenantID :: string
  pi_BusinessKey :: string
  pi_State :: ProcessInstanceState
  pi_Variables :: vars
  pi_StartedAt :: int
  pi_EndedAt :: "int option"
  pi_ParentProcessInstanceID :: string
  pi_ParentActivityID :: string

definition NewProcessInstance :: "int \<Rightarrow> string \<Rightarrow> string \<Rightarrow> vars \<Rightarrow> ProcessInstance" where
  "NewProcessInstance now i defID variables =
     \<lparr>pi_ID = i, pi_ProcessDefinitionID = defID, pi_TenantID = '''', pi_BusinessKey = '''',
      pi_State = Running, pi_Variables = variables, pi_StartedAt = now, pi_EndedAt = None,
      pi_ParentProcessInstanceID = '''', pi_ParentActivityID = ''''\<rparr>"

section \<open>Activity instances\<close>

datatype ActivityInstanceState = ActivityActive | ActivityUnclaimed | ActivityCompleted

fun actStateString :: "ActivityInstanceState \<Rightarrow> string" where
  "actStateString ActivityActive = ''active''"
| "actStateString ActivityUnclaimed = ''unclaimed''"
| "actStateString ActivityCompleted = ''completed''"

record ActivityInstance =
  ai_ID :: string
  ai_ProcessInstanceID :: string
  ai_TenantID :: string
  ai_ActivityID :: string
  ai_ActivityType :: ElementType
  ai_State :: ActivityInstanceState
  ai_Assignee :: string
  ai_ClaimTime :: "int option"
  ai_CompletedTime :: "int option"
  ai_MultiInstanceLoopID :: string
  ai_LoopCounter :: int
  ai_AdhocParentID :: string
  ai_LockVersion :: int
  ai_ExpireTime :: "int option"
  ai_TermMode :: int

definition NewActivityInstance :: "string \<Rightarrow> string \<Rightarrow> string \<Rightarrow> ElementType \<Rightarrow> ActivityInstance" where
  "NewActivityInstance i piID activityID activityType =
     \<lparr>ai_ID = i, ai_ProcessInstanceID = piID, ai_TenantID = '''', ai_ActivityID = activityID,
      ai_ActivityType = activityType, ai_State = ActivityActive, ai_Assignee = '''',
      ai_ClaimTime = None, ai_CompletedTime = None, ai_MultiInstanceLoopID = '''',
      ai_LoopCounter = 0, ai_AdhocParentID = '''', ai_LockVersion = 0, ai_ExpireTime = None,
      ai_TermMode = 0\<rparr>"

definition Complete :: "int \<Rightarrow> ActivityInstance \<Rightarrow> ActivityInstance" where
  "Complete now ai = ai\<lparr>ai_State := ActivityCompleted, ai_CompletedTime := Some now\<rparr>"

section \<open>Tokens\<close>

datatype TokenState = TokenActive | TokenConsumed

record Token =
  tok_ID :: string
  tok_ProcessInstanceID :: string
  tok_TenantID :: string
  tok_CurrentElementID :: string
  tok_State :: TokenState
  tok_LockVersion :: int
  tok_CreatedAt :: int

definition NewToken :: "int \<Rightarrow> string \<Rightarrow> string \<Rightarrow> string \<Rightarrow> Token" where
  "NewToken now i piID elementID =
     \<lparr>tok_ID = i, tok_ProcessInstanceID = piID, tok_TenantID = '''', tok_CurrentElementID = elementID,
      tok_State = TokenActive, tok_LockVersion = 0, tok_CreatedAt = now\<rparr>"

section \<open>History, timers, signals\<close>

record HistoricActivityInstance =
  hai_ID :: string
  hai_ProcessInstanceID :: string
  hai_TenantID :: string
  hai_ActivityID :: string
  hai_ActivityType :: ElementType
  hai_Variables :: vars
  hai_StartedAt :: int
  hai_CompletedAt :: int

text \<open>The zero value of \<open>time.Time\<close>, the start of year 1.\<close>

definition zeroTime :: int where
  "zeroTime = - 62135596800000000000"

record TimerJob =
  tj_ID :: string
  tj_ProcessInstanceID :: string
  tj_TenantID :: string
  tj_ElementID :: string
  tj_DueAt :: int
  tj_Fired :: bool

record SignalSubscription =
  ss_ID :: string
  ss_ProcessInstanceID :: string
  ss_TenantID :: string
  ss_ElementID :: string
  ss_SignalRef :: string

section \<open>Errors\<close>

text \<open>
  \<open>NotFound\<close> wraps \<open>storage.ErrNotFound\<close> and \<open>OptimisticLocking\<close> wraps
  \<open>storage.ErrOptimisticLocking\<close>; the message text around them, and the prefixes that
  callers add with \<open>%w\<close>, are left out. The rest are the engine's own messages.
  \<open>OutOfFuel\<close> is not an error of the program: it marks a run that the model did not follow
  to its end.
\<close>

datatype err =
    NotFound string
  | NotFoundPlain string
  | AlreadyExists string
  | OptimisticLocking string
  | InvalidDefinition invalid
  | IsUnclaimed string
  | NotActive string
  | NotUserTask string
  | NotUnclaimed string
  | NotCandidate string string
  | NoCandidates string
  | AssigneeRequired
  | SignOnSign
  | InstanceNotRunning string
  | InstanceNotSuspended string
  | InstanceEnded string
  | NoActiveSign string
  | ElementNotFound string
  | UnhandledTarget string
  | TargetNotInDefinition string
  | BoundaryAsTarget string
  | NoMatchingFlow string
  | ConditionEmpty
  | ConditionCompile string
  | ConditionEval string
  | ConditionNotBool
  | ConditionNotNumeric
  | NoLoopCharacteristics
  | RejectionLimit int int
  | NoPreviousTask string
  | NoInitiatorTask
  | TargetRequired
  | UnknownRejectType string
  | ReclaimSign
  | JumpSign
  | NoPreviousActivity
  | KeyRequired
  | IdentityError string
  | LockError string
  | Panic
  | OutOfFuel

end
