(* ===== verification/MemStore.thy ===== *)
theory MemStore imports Instances begin

text \<open>
  The in-memory store, storage/memstore/mem_store.go: its eight maps and its operations,
  each under the mutex and therefore atomic. Operations that can fail return an error and
  leave the maps as they are.

  The Go maps hold pointers. The engine never keeps using an object after another reference
  has changed it, so objects are passed as values here; what a caller passes to an update is
  compared with what the map holds by its lock version, as in the source.
\<close>

record Store =
  definitions :: "ProcessDefinition gomap"
  instances :: "ProcessInstance gomap"
  activities :: "ActivityInstance gomap"
  tokens :: "Token gomap"
  variables :: "vars gomap"
  historicActivities :: "HistoricActivityInstance gomap"
  timerJobsMap :: "TimerJob gomap"
  signalSubsMap :: "SignalSubscription gomap"

type_synonym 'a storeM = "(Store, err, 'a) sem"
type_synonym order = "string list \<Rightarrow> string list"

definition NewStore :: Store where
  "NewStore = \<lparr>definitions = [], instances = [], activities = [], tokens = [], variables = [],
     historicActivities = [], timerJobsMap = [], signalSubsMap = []\<rparr>"

section \<open>Process definitions\<close>

definition CreateProcessDefinition :: "ProcessDefinition \<Rightarrow> unit storeM" where
  "CreateProcessDefinition def = (\<lambda>s.
     if map_of (definitions s) (pd_ID def) \<noteq> None then (Inl (AlreadyExists (pd_ID def)), s)
     else (Inr (), s\<lparr>definitions := AList.update (pd_ID def) def (definitions s)\<rparr>))"

definition GetProcessDefinition :: "string \<Rightarrow> ProcessDefinition storeM" where
  "GetProcessDefinition i = (\<lambda>s. case map_of (definitions s) i of
       None \<Rightarrow> (Inl (NotFound i), s) | Some def \<Rightarrow> (Inr def, s))"

definition GetProcessDefinitionByKeyVersion :: "order \<Rightarrow> string \<Rightarrow> int \<Rightarrow> ProcessDefinition storeM" where
  "GetProcessDefinitionByKeyVersion ord key version = (\<lambda>s.
     case find (\<lambda>def. pd_Key def = key \<and> pd_Version def = version) (mvalues ord (\<lambda>_. True) (definitions s)) of
       None \<Rightarrow> (Inl (NotFoundPlain key), s) | Some def \<Rightarrow> (Inr def, s))"

definition ListProcessDefinitions :: "order \<Rightarrow> ProcessDefinition list storeM" where
  "ListProcessDefinitions ord = (\<lambda>s. (Inr (mvalues ord (\<lambda>_. True) (definitions s)), s))"

definition DeleteProcessDefinition :: "string \<Rightarrow> unit storeM" where
  "DeleteProcessDefinition i = (\<lambda>s.
     if map_of (definitions s) i = None then (Inl (NotFound i), s)
     else (Inr (), s\<lparr>definitions := AList.delete i (definitions s)\<rparr>))"

text \<open>The loop keeps the first definition with the highest version of the key.\<close>

primrec latestLoop :: "string \<Rightarrow> ProcessDefinition option \<Rightarrow> ProcessDefinition list \<Rightarrow> ProcessDefinition option" where
  "latestLoop key latest [] = latest"
| "latestLoop key latest (def # defs) =
     (if pd_Key def = key then
        (case latest of
           None \<Rightarrow> latestLoop key (Some def) defs
         | Some l \<Rightarrow> if pd_Version l < pd_Version def then latestLoop key (Some def) defs
                     else latestLoop key latest defs)
      else latestLoop key latest defs)"

definition GetLatestProcessDefinitionByKey :: "order \<Rightarrow> string \<Rightarrow> ProcessDefinition storeM" where
  "GetLatestProcessDefinitionByKey ord key = (\<lambda>s.
     case latestLoop key None (mvalues ord (\<lambda>_. True) (definitions s)) of
       None \<Rightarrow> (Inl (NotFound key), s) | Some def \<Rightarrow> (Inr def, s))"

section \<open>Process instances\<close>

definition CreateProcessInstance :: "ProcessInstance \<Rightarrow> unit storeM" where
  "CreateProcessInstance p = (\<lambda>s.
     if map_of (instances s) (pi_ID p) \<noteq> None then (Inl (AlreadyExists (pi_ID p)), s)
     else (Inr (), s\<lparr>instances := AList.update (pi_ID p) p (instances s)\<rparr>))"

definition UpdateProcessInstance :: "ProcessInstance \<Rightarrow> unit storeM" where
  "UpdateProcessInstance p = (\<lambda>s.
     if map_of (instances s) (pi_ID p) = None then (Inl (NotFound (pi_ID p)), s)
     else (Inr (), s\<lparr>instances := AList.update (pi_ID p) p (instances s)\<rparr>))"

definition GetProcessInstance :: "string \<Rightarrow> ProcessInstance storeM" where
  "GetProcessInstance i = (\<lambda>s. case map_of (instances s) i of
       None \<Rightarrow> (Inl (NotFound i), s) | Some p \<Rightarrow> (Inr p, s))"

definition ListProcessInstances :: "order \<Rightarrow> string \<Rightarrow> ProcessInstance list storeM" where
  "ListProcessInstances ord defID = (\<lambda>s.
     (Inr (mvalues ord (\<lambda>p. pi_ProcessDefinitionID p = defID) (instances s)), s))"

text \<open>A limit that is not positive means no limit.\<close>

definition ListCompletedProcessInstances :: "order \<Rightarrow> int \<Rightarrow> ProcessInstance list storeM" where
  "ListCompletedProcessInstances ord limit = (\<lambda>s.
     let result = mvalues ord (\<lambda>p. pi_State p = Completed) (instances s)
     in (Inr (if 0 < limit then take (nat limit) result else result), s))"

section \<open>Activity instances\<close>

definition CreateActivityInstance :: "ActivityInstance \<Rightarrow> unit storeM" where
  "CreateActivityInstance ai = (\<lambda>s.
     if map_of (activities s) (ai_ID ai) \<noteq> None then (Inl (AlreadyExists (ai_ID ai)), s)
     else (Inr (), s\<lparr>activities := AList.update (ai_ID ai) ai (activities s)\<rparr>))"

definition UpdateActivityInstance :: "ActivityInstance \<Rightarrow> unit storeM" where
  "UpdateActivityInstance ai = (\<lambda>s. case map_of (activities s) (ai_ID ai) of
       None \<Rightarrow> (Inl (NotFound (ai_ID ai)), s)
     | Some existing \<Rightarrow>
         if ai_LockVersion ai \<noteq> ai_LockVersion existing then (Inl (OptimisticLocking (ai_ID ai)), s)
         else (Inr (), s\<lparr>activities :=
           AList.update (ai_ID ai) (ai\<lparr>ai_LockVersion := ai_LockVersion ai + 1\<rparr>) (activities s)\<rparr>))"

definition GetActivityInstance :: "string \<Rightarrow> ActivityInstance storeM" where
  "GetActivityInstance i = (\<lambda>s. case map_of (activities s) i of
       None \<Rightarrow> (Inl (NotFound i), s) | Some ai \<Rightarrow> (Inr ai, s))"

definition ListActiveActivities :: "order \<Rightarrow> string \<Rightarrow> ActivityInstance list storeM" where
  "ListActiveActivities ord piID = (\<lambda>s.
     (Inr (mvalues ord (\<lambda>ai. ai_ProcessInstanceID ai = piID \<and> ai_State ai = ActivityActive) (activities s)), s))"

definition ListActivitiesByProcessInstance :: "order \<Rightarrow> string \<Rightarrow> ActivityInstance list storeM" where
  "ListActivitiesByProcessInstance ord piID = (\<lambda>s.
     (Inr (mvalues ord (\<lambda>ai. ai_ProcessInstanceID ai = piID) (activities s)), s))"

definition ListActivitiesByLoopID :: "order \<Rightarrow> string \<Rightarrow> string \<Rightarrow> ActivityInstance list storeM" where
  "ListActivitiesByLoopID ord piID loopID = (\<lambda>s.
     (Inr (mvalues ord (\<lambda>ai. ai_ProcessInstanceID ai = piID \<and> ai_MultiInstanceLoopID ai = loopID) (activities s)), s))"

section \<open>Tokens\<close>

definition CreateToken :: "Token \<Rightarrow> unit storeM" where
  "CreateToken t = (\<lambda>s.
     if map_of (tokens s) (tok_ID t) \<noteq> None then (Inl (AlreadyExists (tok_ID t)), s)
     else (Inr (), s\<lparr>tokens := AList.update (tok_ID t) t (tokens s)\<rparr>))"

definition UpdateToken :: "Token \<Rightarrow> unit storeM" where
  "UpdateToken t = (\<lambda>s. case map_of (tokens s) (tok_ID t) of
       None \<Rightarrow> (Inl (NotFound (tok_ID t)), s)
     | Some existing \<Rightarrow>
         if tok_LockVersion t \<noteq> tok_LockVersion existing then (Inl (OptimisticLocking (tok_ID t)), s)
         else (Inr (), s\<lparr>tokens :=
           AList.update (tok_ID t) (t\<lparr>tok_LockVersion := tok_LockVersion t + 1\<rparr>) (tokens s)\<rparr>))"

definition GetToken :: "string \<Rightarrow> Token storeM" where
  "GetToken i = (\<lambda>s. case map_of (tokens s) i of
       None \<Rightarrow> (Inl (NotFound i), s) | Some t \<Rightarrow> (Inr t, s))"

definition ListActiveTokens :: "order \<Rightarrow> string \<Rightarrow> Token list storeM" where
  "ListActiveTokens ord piID = (\<lambda>s.
     (Inr (mvalues ord (\<lambda>t. tok_ProcessInstanceID t = piID \<and> tok_State t = TokenActive) (tokens s)), s))"

definition DeleteToken :: "string \<Rightarrow> unit storeM" where
  "DeleteToken i = (\<lambda>s.
     if map_of (tokens s) i = None then (Inl (NotFound i), s)
     else (Inr (), s\<lparr>tokens := AList.delete i (tokens s)\<rparr>))"

section \<open>Variables\<close>

definition instanceVars :: "Store \<Rightarrow> string \<Rightarrow> vars" where
  "instanceVars s piID = (case map_of (variables s) piID of None \<Rightarrow> [] | Some vs \<Rightarrow> vs)"

definition SetVariable :: "string \<Rightarrow> string \<Rightarrow> gval \<Rightarrow> unit storeM" where
  "SetVariable piID name v = (\<lambda>s.
     (Inr (), s\<lparr>variables := AList.update piID (AList.update name v (instanceVars s piID)) (variables s)\<rparr>))"

definition GetVariable :: "string \<Rightarrow> string \<Rightarrow> gval storeM" where
  "GetVariable piID name = (\<lambda>s. case map_of (variables s) piID of
       None \<Rightarrow> (Inl (NotFound name), s)
     | Some vs \<Rightarrow> (case map_of vs name of None \<Rightarrow> (Inl (NotFound name), s) | Some v \<Rightarrow> (Inr v, s)))"

definition GetAllVariables :: "string \<Rightarrow> vars storeM" where
  "GetAllVariables piID = (\<lambda>s. (Inr (instanceVars s piID), s))"

definition DeleteVariable :: "string \<Rightarrow> string \<Rightarrow> unit storeM" where
  "DeleteVariable piID name = (\<lambda>s. case map_of (variables s) piID of
       None \<Rightarrow> (Inl (NotFound name), s)
     | Some vs \<Rightarrow> (if map_of vs name = None then (Inl (NotFound name), s)
         else (Inr (), s\<lparr>variables := AList.update piID (AList.delete name vs) (variables s)\<rparr>)))"

section \<open>History, timer jobs, signal subscriptions\<close>

definition CreateHistoricActivityInstance :: "HistoricActivityInstance \<Rightarrow> unit storeM" where
  "CreateHistoricActivityInstance hai = (\<lambda>s.
     (Inr (), s\<lparr>historicActivities := AList.update (hai_ID hai) hai (historicActivities s)\<rparr>))"

definition ListHistoricByProcessInstance :: "order \<Rightarrow> string \<Rightarrow> HistoricActivityInstance list storeM" where
  "ListHistoricByProcessInstance ord piID = (\<lambda>s.
     (Inr (mvalues ord (\<lambda>h. hai_ProcessInstanceID h = piID) (historicActivities s)), s))"

definition CreateTimerJob :: "TimerJob \<Rightarrow> unit storeM" where
  "CreateTimerJob job = (\<lambda>s.
     (Inr (), s\<lparr>timerJobsMap := AList.update (tj_ID job) job (timerJobsMap s)\<rparr>))"

definition UpdateTimerJob :: "TimerJob \<Rightarrow> unit storeM" where
  "UpdateTimerJob job = (\<lambda>s.
     (Inr (), s\<lparr>timerJobsMap := AList.update (tj_ID job) job (timerJobsMap s)\<rparr>))"

definition ListDueTimerJobs :: "order \<Rightarrow> int \<Rightarrow> TimerJob list storeM" where
  "ListDueTimerJobs ord before = (\<lambda>s.
     (Inr (mvalues ord (\<lambda>job. \<not> tj_Fired job \<and> tj_DueAt job < before) (timerJobsMap s)), s))"

definition DeleteTimerJob :: "string \<Rightarrow> unit storeM" where
  "DeleteTimerJob i = (\<lambda>s. (Inr (), s\<lparr>timerJobsMap := AList.delete i (timerJobsMap s)\<rparr>))"

definition DeleteTimerJobsByInstance :: "string \<Rightarrow> unit storeM" where
  "DeleteTimerJobsByInstance piID = (\<lambda>s. (Inr (), s\<lparr>timerJobsMap :=
     filter (\<lambda>(_, job). tj_ProcessInstanceID job \<noteq> piID) (timerJobsMap s)\<rparr>))"

definition CreateSignalSubscription :: "SignalSubscription \<Rightarrow> unit storeM" where
  "CreateSignalSubscription sub = (\<lambda>s.
     (Inr (), s\<lparr>signalSubsMap := AList.update (ss_ID sub) sub (signalSubsMap s)\<rparr>))"

definition ListSignalSubscriptions :: "order \<Rightarrow> string \<Rightarrow> SignalSubscription list storeM" where
  "ListSignalSubscriptions ord signalRef = (\<lambda>s.
     (Inr (mvalues ord (\<lambda>sub. ss_SignalRef sub = signalRef) (signalSubsMap s)), s))"

definition DeleteSignalSubscription :: "string \<Rightarrow> unit storeM" where
  "DeleteSignalSubscription i = (\<lambda>s. (Inr (), s\<lparr>signalSubsMap := AList.delete i (signalSubsMap s)\<rparr>))"

definition DeleteSubscriptionsByInstance :: "string \<Rightarrow> unit storeM" where
  "DeleteSubscriptionsByInstance piID = (\<lambda>s. (Inr (), s\<lparr>signalSubsMap :=
     filter (\<lambda>(_, sub). ss_ProcessInstanceID sub \<noteq> piID) (signalSubsMap s)\<rparr>))"

section \<open>Transactions\<close>

text \<open>
  \<open>RunInTransaction\<close> only calls the function: what it wrote before it failed stays.
\<close>

definition RunInTransaction :: "(Store, err, 'a) sem \<Rightarrow> (Store, err, 'a) sem" where
  "RunInTransaction fn = fn"

section \<open>Filtered and paginated queries\<close>

text \<open>
  The common tail of the four queries: the slice \<open>filtered[offset:end]\<close>, with \<open>end\<close>
  computed in 64 bits. \<open>None\<close> is the panic of a slice whose end is before its start.
\<close>

definition paginate :: "int \<Rightarrow> int \<Rightarrow> 'a list \<Rightarrow> 'a list option" where
  "paginate offset0 limit0 filtered =
     (let total = int (length filtered);
          offset = (if offset0 < 0 then 0 else offset0);
          limit = (if limit0 \<le> 0 then total else limit0)
      in if total \<le> offset then Some []
         else let end1 = wrap64 (offset + limit);
                  end2 = (if total < end1 then total else end1)
              in if end2 < offset then None
                 else Some (take (nat (end2 - offset)) (drop (nat offset) filtered)))"

record DefQuery =
  dq_Key :: string
  dq_Name :: string
  dq_Version :: int
  dq_TenantID :: string
  dq_Offset :: int
  dq_Limit :: int

record InstQuery =
  iq_DefID :: string
  iq_State :: string
  iq_DefKey :: string
  iq_Assignee :: string
  iq_Initiator :: string
  iq_BusinessKey :: string
  iq_TenantID :: string
  iq_StartAfter :: "int option"
  iq_StartBefore :: "int option"
  iq_Offset :: int
  iq_Limit :: int

record ActQuery =
  aq_ProcessInstanceID :: string
  aq_Assignee :: string
  aq_ActivityID :: string
  aq_ActivityType :: string
  aq_State :: string
  aq_IsSign :: "bool option"
  aq_TenantID :: string
  aq_Offset :: int
  aq_Limit :: int

record HistQuery =
  hq_ProcessInstanceID :: string
  hq_ActivityID :: string
  hq_Assignee :: string
  hq_TenantID :: string
  hq_CompletedAfter :: "int option"
  hq_CompletedBefore :: "int option"
  hq_Offset :: int
  hq_Limit :: int

fun elementTypeString :: "ElementType \<Rightarrow> string" where
  "elementTypeString ElementTypeStartEvent = ''startEvent''"
| "elementTypeString ElementTypeEndEvent = ''endEvent''"
| "elementTypeString ElementTypeUserTask = ''userTask''"
| "elementTypeString ElementTypeServiceTask = ''serviceTask''"
| "elementTypeString ElementTypeExclusiveGateway = ''exclusiveGateway''"
| "elementTypeString ElementTypeParallelGateway = ''parallelGateway''"
| "elementTypeString ElementTypeInclusiveGateway = ''inclusiveGateway''"
| "elementTypeString ElementTypeBoundaryEvent = ''boundaryEvent''"
| "elementTypeString ElementTypeIntermediateCatchEvent = ''intermediateCatchEvent''"
| "elementTypeString ElementTypeIntermediateThrowEvent = ''intermediateThrowEvent''"
| "elementTypeString ElementTypeCallActivity = ''callActivity''"
| "elementTypeString (ElementTypeOther s) = s"

text \<open>\<open>strings.Contains\<close>\<close>

fun strContains :: "string \<Rightarrow> string \<Rightarrow> bool" where
  "strContains [] sub = (sub = [])"
| "strContains (c # cs) sub = (take (length sub) (c # cs) = sub \<or> strContains cs sub)"

text \<open>\<open>strings.ToLower\<close> on ASCII text; other characters are left alone.\<close>

definition asciiLower :: "string \<Rightarrow> string" where
  "asciiLower = map (\<lambda>c. if c \<in> set ''ABCDEFGHIJKLMNOPQRSTUVWXYZ'' then char_of (of_char c + 32 :: nat) else c)"

definition matchesDefQuery :: "DefQuery \<Rightarrow> ProcessDefinition \<Rightarrow> bool" where
  "matchesDefQuery q def \<longleftrightarrow>
     \<not> (dq_Key q \<noteq> '''' \<and> pd_Key def \<noteq> dq_Key q)
   \<and> \<not> (0 < dq_Version q \<and> pd_Version def \<noteq> dq_Version q)
   \<and> \<not> (dq_Name q \<noteq> '''' \<and> \<not> strContains (asciiLower (pd_Name def)) (asciiLower (dq_Name q)))"

definition QueryDefinitions :: "order \<Rightarrow> DefQuery \<Rightarrow> Store \<Rightarrow> (ProcessDefinition list \<times> int) option" where
  "QueryDefinitions ord q s =
     (let filtered = mvalues ord (matchesDefQuery q) (definitions s)
      in map_option (\<lambda>page. (page, int (length filtered))) (paginate (dq_Offset q) (dq_Limit q) filtered))"

definition matchesInstQuery :: "InstQuery \<Rightarrow> string list \<Rightarrow> ProcessInstance \<Rightarrow> bool" where
  "matchesInstQuery q defIDs p \<longleftrightarrow>
     \<not> (iq_DefID q \<noteq> '''' \<and> pi_ProcessDefinitionID p \<noteq> iq_DefID q)
   \<and> \<not> (iq_State q \<noteq> '''' \<and> piStateString (pi_State p) \<noteq> iq_State q)
   \<and> \<not> (iq_DefKey q \<noteq> '''' \<and> pi_ProcessDefinitionID p \<notin> set defIDs)
   \<and> \<not> (iq_Initiator q \<noteq> '''' \<and> map_of (pi_Variables p) ''initiator'' \<noteq> Some (GString (iq_Initiator q)))
   \<and> \<not> (iq_BusinessKey q \<noteq> '''' \<and> pi_BusinessKey p \<noteq> iq_BusinessKey q)
   \<and> (case iq_StartAfter q of None \<Rightarrow> True | Some t \<Rightarrow> \<not> pi_StartedAt p < t)
   \<and> (case iq_StartBefore q of None \<Rightarrow> True | Some t \<Rightarrow> \<not> t < pi_StartedAt p)"

definition QueryProcessInstances :: "order \<Rightarrow> InstQuery \<Rightarrow> Store \<Rightarrow> (ProcessInstance list \<times> int) option" where
  "QueryProcessInstances ord q s =
     (let defIDs = map pd_ID (mvalues ord (\<lambda>def. pd_Key def = iq_DefKey q) (definitions s));
          filtered = mvalues ord (matchesInstQuery q defIDs) (instances s)
      in map_option (\<lambda>page. (page, int (length filtered))) (paginate (iq_Offset q) (iq_Limit q) filtered))"

definition matchesActQuery :: "ActQuery \<Rightarrow> ActivityInstance \<Rightarrow> bool" where
  "matchesActQuery q a \<longleftrightarrow>
     \<not> (aq_ProcessInstanceID q \<noteq> '''' \<and> ai_ProcessInstanceID a \<noteq> aq_ProcessInstanceID q)
   \<and> \<not> (aq_Assignee q \<noteq> '''' \<and> ai_Assignee a \<noteq> aq_Assignee q)
   \<and> \<not> (aq_ActivityID q \<noteq> '''' \<and> ai_ActivityID a \<noteq> aq_ActivityID q)
   \<and> \<not> (aq_ActivityType q \<noteq> '''' \<and> elementTypeString (ai_ActivityType a) \<noteq> aq_ActivityType q)
   \<and> \<not> (aq_State q \<noteq> '''' \<and> actStateString (ai_State a) \<noteq> aq_State q)
   \<and> (case aq_IsSign q of None \<Rightarrow> True | Some b \<Rightarrow> b = (ai_AdhocParentID a \<noteq> ''''))"

definition QueryActivities :: "order \<Rightarrow> ActQuery \<Rightarrow> Store \<Rightarrow> (ActivityInstance list \<times> int) option" where
  "QueryActivities ord q s =
     (let filtered = mvalues ord (matchesActQuery q) (activities s)
      in map_option (\<lambda>page. (page, int (length filtered))) (paginate (aq_Offset q) (aq_Limit q) filtered))"

definition matchesHistQuery :: "HistQuery \<Rightarrow> HistoricActivityInstance \<Rightarrow> bool" where
  "matchesHistQuery q h \<longleftrightarrow>
     \<not> (hq_ProcessInstanceID q \<noteq> '''' \<and> hai_ProcessInstanceID h \<noteq> hq_ProcessInstanceID q)
   \<and> \<not> (hq_ActivityID q \<noteq> '''' \<and> hai_ActivityID h \<noteq> hq_ActivityID q)
   \<and> \<not> (hq_Assignee q \<noteq> '''' \<and> map_of (hai_Variables h) ''assignee'' \<noteq> Some (GString (hq_Assignee q)))
   \<and> (case hq_CompletedAfter q of None \<Rightarrow> True | Some t \<Rightarrow> \<not> hai_CompletedAt h < t)
   \<and> (case hq_CompletedBefore q of None \<Rightarrow> True | Some t \<Rightarrow> \<not> t < hai_CompletedAt h)"

definition QueryHistoricActivities ::
  "order \<Rightarrow> HistQuery \<Rightarrow> Store \<Rightarrow> (HistoricActivityInstance list \<times> int) option" where
  "QueryHistoricActivities ord q s =
     (let filtered = mvalues ord (matchesHistQuery q) (historicActivities s)
      in map_option (\<lambda>page. (page, int (length filtered))) (paginate (hq_Offset q) (hq_Limit q) filtered))"

end
