(* ===== verification/Identity.thy ===== *)
theory Identity imports MemStore begin

text \<open>
  The package identity: users, groups and their membership in the in-memory store of
  identity/identity.go, and the resolution of the candidates of a task.
\<close>

section \<open>Users and groups\<close>

record User =
  usr_ID :: string
  usr_Name :: string
  usr_Groups :: "string list"

record Group =
  grp_ID :: string
  grp_Name :: string
  grp_Members :: "string list"

record MemoryStore =
  users :: "User gomap"
  groups :: "Group gomap"

datatype identErr = UserExists string | GroupExists string | UserNotFound string | GroupNotFound string

type_synonym 'a identM = "(MemoryStore, identErr, 'a) sem"


section \<open>Writes\<close>

text \<open>The loop that appends an id to a slice that does not hold it yet.\<close>

definition appendMissing :: "string \<Rightarrow> string list \<Rightarrow> string list" where
  "appendMissing x xs = (if x \<in> set xs then xs else xs @ [x])"





section \<open>Reads\<close>

definition GetUser :: "string \<Rightarrow> User identM" where
  "GetUser userID = (\<lambda>s. case map_of (users s) userID of
       None \<Rightarrow> (Inl (UserNotFound userID), s) | Some u \<Rightarrow> (Inr u, s))"

definition GetGroup :: "string \<Rightarrow> Group identM" where
  "GetGroup groupID = (\<lambda>s. case map_of (groups s) groupID of
       None \<Rightarrow> (Inl (GroupNotFound groupID), s) | Some g \<Rightarrow> (Inr g, s))"

definition GetUserGroups :: "string \<Rightarrow> string list identM" where
  "GetUserGroups userID = (\<lambda>s. case map_of (users s) userID of
       None \<Rightarrow> (Inl (UserNotFound userID), s) | Some u \<Rightarrow> (Inr (usr_Groups u), s))"

definition GetGroupMembers :: "string \<Rightarrow> string list identM" where
  "GetGroupMembers groupID = (\<lambda>s. case map_of (groups s) groupID of
       None \<Rightarrow> (Inl (GroupNotFound groupID), s) | Some g \<Rightarrow> (Inr (grp_Members g), s))"

definition IsUserInGroup :: "string \<Rightarrow> string \<Rightarrow> bool identM" where
  "IsUserInGroup userID groupID = (\<lambda>s. case map_of (users s) userID of
       None \<Rightarrow> (Inl (UserNotFound userID), s)
     | Some u \<Rightarrow> (Inr (list_ex (\<lambda>gid. gid = groupID) (usr_Groups u)), s))"

section \<open>Candidates\<close>

text \<open>One of the two loops of \<open>ResolveCandidateUsers\<close>: \<open>result\<close> also serves as \<open>seen\<close>.\<close>

primrec collectUnseen :: "string list \<Rightarrow> string list \<Rightarrow> string list" where
  "collectUnseen result [] = result"
| "collectUnseen result (uid # uids) =
     (if uid \<in> set result then collectUnseen result uids else collectUnseen (result @ [uid]) uids)"

definition ResolveCandidateUsers :: "string list \<Rightarrow> string \<Rightarrow> string list identM" where
  "ResolveCandidateUsers candidateUsers candidateGroup =
     (let result = collectUnseen [] candidateUsers
      in if candidateGroup \<noteq> '''' then
           bindM (GetGroupMembers candidateGroup) (\<lambda>members. returnM (collectUnseen result members))
         else returnM result)"

lemma collectUnseen_append:
  "collectUnseen result (xs @ ys) = collectUnseen (collectUnseen result xs) ys"
  by (induction xs arbitrary: result) auto

lemma set_collectUnseen: "set (collectUnseen result xs) = set result \<union> set xs"
  by (induction xs arbitrary: result) auto

lemma distinct_collectUnseen: "distinct result \<Longrightarrow> distinct (collectUnseen result xs)"
  by (induction xs arbitrary: result) auto

lemma collectUnseen_distinct:
  "distinct (result @ xs) \<Longrightarrow> collectUnseen result xs = result @ xs"
  by (induction xs arbitrary: result) auto

lemma ResolveCandidateUsers_value:
  "ResolveCandidateUsers us g s = (case (if g = '''' then Some [] else map_option grp_Members (map_of (groups s) g)) of
       None \<Rightarrow> (Inl (GroupNotFound g), s)
     | Some members \<Rightarrow> (Inr (collectUnseen [] (us @ members)), s))"
  by (auto simp: ResolveCandidateUsers_def GetGroupMembers_def collectUnseen_append sem_simp Let_def
      split: option.splits)

section \<open>Membership is recorded on both sides\<close>


lemma set_appendMissing [simp]: "set (appendMissing x xs) = insert x (set xs)"
  by (auto simp: appendMissing_def)







text \<open>C36. The candidates of a task are its users and the members of its group, each once; an unknown
  group is an error.\<close>

theorem candidates_resolved:
  "case fst (ResolveCandidateUsers us g s) of
     Inr xs \<Rightarrow> distinct xs \<and> (\<forall>u. u \<in> set xs \<longleftrightarrow> u \<in> set us \<or>
         g \<noteq> '''' \<and> (\<exists>gr. map_of (groups s) g = Some gr \<and> u \<in> set (grp_Members gr)))
   | Inl e \<Rightarrow> e = GroupNotFound g \<and> g \<noteq> '''' \<and> map_of (groups s) g = None"
  by (auto simp: ResolveCandidateUsers_value set_collectUnseen distinct_collectUnseen split: option.split)



end
