(* ===== verification/Expr.thy ===== *)
theory Expr imports Identity begin

text \<open>
  The environment of the engine, and the package expr on top of it: conditions, numeric
  expressions and the templates of engine/engine.go.
\<close>

section \<open>The environment\<close>

text \<open>
  What a run of the program takes from outside the repository, as one argument of the model.
  \<open>iter\<close> and \<open>clock\<close> give the iteration order of the \<open>n\<close>-th range loop and the reading of the
  \<open>n\<close>-th look at the clock. \<open>xcompile\<close> and \<open>xrun\<close> stand for \<open>Compile\<close> and \<open>Run\<close> of the
  expression library (which source text compiles; the result of a run, \<open>None\<close> for an error),
  \<open>fmtFloat\<close> for the shortest decimal form of a \<open>float64\<close>. \<open>ident\<close> is the identity service
  (\<open>None\<close> when none is configured) and \<open>locker\<close> the answer of the configured locker to
  \<open>Lock\<close> (an error message, or success).
\<close>

record Env =
  iter :: "nat \<Rightarrow> string list \<Rightarrow> string list"
  clock :: "nat \<Rightarrow> int"
  xcompile :: "string \<Rightarrow> bool"
  xrun :: "string \<Rightarrow> vars \<Rightarrow> gval option"
  fmtFloat :: "rat \<Rightarrow> string"
  ident :: "MemoryStore option"
  locker :: "(string \<Rightarrow> string option) option"

section \<open>Strings\<close>

text \<open>\<open>strings.TrimSpace\<close> on ASCII text.\<close>

definition isSpace :: "char \<Rightarrow> bool" where
  "isSpace c \<longleftrightarrow> (let n = (of_char c :: nat) in n = 32 \<or> 9 \<le> n \<and> n \<le> 13)"

definition TrimSpace :: "string \<Rightarrow> string" where
  "TrimSpace s = rev (dropWhile isSpace (rev (dropWhile isSpace s)))"

definition hasPrefix :: "string \<Rightarrow> string \<Rightarrow> bool" where
  "hasPrefix s p \<longleftrightarrow> take (length p) s = p"

definition hasSuffix :: "string \<Rightarrow> string \<Rightarrow> bool" where
  "hasSuffix s p \<longleftrightarrow> hasPrefix (rev s) (rev p)"

section \<open>Conditions\<close>

text \<open>\<open>NewCondition\<close>: strips the optional \<open>${}\<close> and keeps the text if it compiles.\<close>

definition NewCondition :: "Env \<Rightarrow> string \<Rightarrow> err + string" where
  "NewCondition E exprStr =
     (let e0 = TrimSpace exprStr
      in if e0 = '''' then Inl ConditionEmpty
         else let e = (if hasPrefix e0 ''${'' \<and> hasSuffix e0 ''}''
                       then take (length e0 - 3) (drop 2 e0) else e0)
              in if xcompile E e then Inr e else Inl (ConditionCompile exprStr))"

definition Evaluate :: "Env \<Rightarrow> string \<Rightarrow> vars \<Rightarrow> err + bool" where
  "Evaluate E raw vs =
     (if \<not> xcompile E raw then Inl (ConditionCompile raw)
      else case xrun E raw vs of
        None \<Rightarrow> Inl (ConditionEval raw)
      | Some (GBool b) \<Rightarrow> Inr b
      | Some _ \<Rightarrow> Inl ConditionNotBool)"

definition EvaluateNumeric :: "Env \<Rightarrow> string \<Rightarrow> vars \<Rightarrow> err + rat" where
  "EvaluateNumeric E raw vs =
     (if \<not> xcompile E raw then Inl (ConditionCompile raw)
      else case xrun E raw vs of
        None \<Rightarrow> Inl (ConditionEval raw)
      | Some (GFloat v) \<Rightarrow> Inr v
      | Some (GInt v) \<Rightarrow> Inr (of_int v)
      | Some (GInt64 v) \<Rightarrow> Inr (of_int v)
      | Some _ \<Rightarrow> Inl ConditionNotNumeric)"

text \<open>\<open>evaluateCondition\<close> of engine/gateway.go.\<close>

definition evaluateCondition :: "Env \<Rightarrow> string \<Rightarrow> vars \<Rightarrow> err + bool" where
  "evaluateCondition E conditionStr vs =
     (case NewCondition E conditionStr of Inl e \<Rightarrow> Inl e | Inr c \<Rightarrow> Evaluate E c vs)"

text \<open>A condition accepted by \<open>NewCondition\<close> never fails to compile later.\<close>

lemma NewCondition_compiles: "NewCondition E s = Inr c \<Longrightarrow> xcompile E c"
  by (auto simp: NewCondition_def Let_def split: if_splits)

lemma evaluateCondition_errors:
  "evaluateCondition E s vs = Inl e \<Longrightarrow> e \<noteq> OutOfFuel"
  by (auto simp: evaluateCondition_def NewCondition_def Evaluate_def Let_def
      split: if_splits sum.splits option.splits gval.splits)

lemma EvaluateNumeric_errors: "EvaluateNumeric E s vs = Inl e \<Longrightarrow> e \<noteq> OutOfFuel"
  by (auto simp: EvaluateNumeric_def split: if_splits option.splits gval.splits)

lemma NewCondition_errors: "NewCondition E s = Inl e \<Longrightarrow> e \<noteq> OutOfFuel"
  by (auto simp: NewCondition_def Let_def split: if_splits)

section \<open>Templates\<close>

text \<open>The text of an evaluated placeholder; a failure leaves the placeholder as it is.\<close>

definition renderInner :: "Env \<Rightarrow> vars \<Rightarrow> string \<Rightarrow> string \<Rightarrow> string" where
  "renderInner E vs inner whole =
     (if \<not> xcompile E inner then whole
      else case xrun E inner vs of None \<Rightarrow> whole | Some v \<Rightarrow> sprintv (fmtFloat E) v)"

definition RenderExpr :: "Env \<Rightarrow> string \<Rightarrow> vars \<Rightarrow> string" where
  "RenderExpr E input vs =
     (if input = '''' \<or> length input < 4 \<or> take 2 input \<noteq> ''${'' \<or> last input \<noteq> CHR ''}'' then input
      else renderInner E vs (take (length input - 3) (drop 2 input)) input)"

text \<open>
  The regular expression \<open>\$\{([^}]+)\}\<close> at the start of a text: the text between the braces
  and what follows the match.
\<close>

definition matchVar :: "string \<Rightarrow> (string \<times> string) option" where
  "matchVar s =
     (if hasPrefix s ''${'' then
        let inner = takeWhile (\<lambda>c. c \<noteq> CHR ''}'') (drop 2 s);
            rest = dropWhile (\<lambda>c. c \<noteq> CHR ''}'') (drop 2 s)
        in if inner \<noteq> '''' \<and> rest \<noteq> '''' then Some (inner, tl rest) else None
      else None)"

lemma matchVar_length:
  "matchVar s = Some (inner, rest) \<Longrightarrow> length rest < length s"
proof -
  assume m: "matchVar s = Some (inner, rest)"
  then have rest: "rest = tl (dropWhile (\<lambda>c. c \<noteq> CHR ''}'') (drop 2 s))"
    and "dropWhile (\<lambda>c. c \<noteq> CHR ''}'') (drop 2 s) \<noteq> []"
    by (auto simp: matchVar_def Let_def split: if_splits)
  then have "length rest < length (dropWhile (\<lambda>c. c \<noteq> CHR ''}'') (drop 2 s))" by simp
  also have "\<dots> \<le> length (drop 2 s)" by (rule length_dropWhile_le)
  finally show ?thesis by simp
qed

text \<open>\<open>ReplaceAllStringFunc\<close>: successive leftmost matches, each replaced by its value.\<close>

function replaceVars :: "Env \<Rightarrow> vars \<Rightarrow> string \<Rightarrow> string" where
  "replaceVars E vs [] = []"
| "replaceVars E vs (c # cs) = (case matchVar (c # cs) of
       None \<Rightarrow> c # replaceVars E vs cs
     | Some (inner, rest) \<Rightarrow>
         renderInner E vs inner (''${'' @ inner @ ''}'') @ replaceVars E vs rest)"
  by pat_completeness auto
termination
  by (relation "measure (\<lambda>(E, vs, s). length s)") (auto dest: matchVar_length)

definition RenderTemplate :: "Env \<Rightarrow> string \<Rightarrow> vars \<Rightarrow> string" where
  "RenderTemplate E tmpl vs =
     (if tmpl = '''' \<or> \<not> strContains tmpl ''${'' then tmpl else replaceVars E vs tmpl)"

section \<open>What rendering does\<close>

lemma matchVar_None: "\<not> hasPrefix s ''${'' \<Longrightarrow> matchVar s = None"
  by (simp add: matchVar_def)

lemma replaceVars_plain: "\<not> strContains s ''${'' \<Longrightarrow> replaceVars E vs s = s"
  by (induction s) (auto simp: matchVar_None hasPrefix_def)

text \<open>The early exit of \<open>RenderTemplate\<close> is an optimisation only.\<close>

lemma RenderTemplate_replaceVars: "RenderTemplate E tmpl vs = replaceVars E vs tmpl"
  by (auto simp: RenderTemplate_def replaceVars_plain)

lemma takeWhile_inner:
  "c \<notin> set inner \<Longrightarrow> takeWhile (\<lambda>x. x \<noteq> c) (inner @ c # post) = inner"
  by (subst takeWhile_append2) auto

lemma dropWhile_inner:
  "c \<notin> set inner \<Longrightarrow> dropWhile (\<lambda>x. x \<noteq> c) (inner @ c # post) = c # post"
  by (subst dropWhile_append2) auto

lemma replaceVars_placeholder:
  assumes "inner \<noteq> []" and "CHR ''}'' \<notin> set inner"
  shows "replaceVars E vs (''${'' @ inner @ ''}'' @ post)
           = renderInner E vs inner (''${'' @ inner @ ''}'') @ replaceVars E vs post"
proof -
  have "matchVar (''${'' @ inner @ ''}'' @ post) = Some (inner, post)"
    using assms by (simp add: matchVar_def hasPrefix_def Let_def takeWhile_inner dropWhile_inner)
  then show ?thesis by simp
qed

lemma replaceVars_prefix:
  assumes "\<not> strContains pre ''${''"
  shows "replaceVars E vs (pre @ ''${'' @ s) = pre @ replaceVars E vs (''${'' @ s)"
  using assms
proof (induction pre)
  case (Cons c cs)
  have "matchVar (c # cs @ ''${'' @ s) = None"
    using Cons.prems by (intro matchVar_None) (cases cs; auto simp: hasPrefix_def)
  moreover have "replaceVars E vs (cs @ ''${'' @ s) = cs @ replaceVars E vs (''${'' @ s)"
    using Cons by simp
  ultimately show ?case by simp
qed simp

text \<open>A template is rendered by replacing its placeholders and nothing else: text before the first
  placeholder is kept, the placeholder becomes the value of its expression, the rest is rendered in turn.\<close>

lemma template_rendering:
  assumes "\<not> strContains pre ''${''" and "inner \<noteq> []" and "CHR ''}'' \<notin> set inner"
  shows "RenderTemplate E (pre @ ''${'' @ inner @ ''}'' @ post) vs
    = pre @ renderInner E vs inner (''${'' @ inner @ ''}'') @ RenderTemplate E post vs"
  using replaceVars_prefix [OF assms(1), of E vs "inner @ ''}'' @ post"] replaceVars_placeholder [OF assms(2,3), of E vs post]
  by (simp only: RenderTemplate_replaceVars append_assoc)

end
