(* ===== verification/World.thy ===== *)
theory World imports Expr begin

text \<open>
  The state a run of the engine works on: the store, the counter behind \<open>newID\<close>, and a
  tick counter that gives every range loop its iteration order and every look at the clock
  its reading.
\<close>

record world =
  st :: Store
  idCounter :: int
  ticks :: nat

type_synonym 'a engM = "(world, err, 'a) sem"

text \<open>A call of a store operation; \<open>rangeS\<close> is one that ranges over a map of the store.\<close>

definition callS :: "'a storeM \<Rightarrow> 'a engM" where
  "callS m = (\<lambda>w. case m (st w) of (r, s') \<Rightarrow> (r, w\<lparr>st := s'\<rparr>))"

definition tickM :: "nat engM" where
  "tickM = (\<lambda>w. (Inr (ticks w), w\<lparr>ticks := Suc (ticks w)\<rparr>))"

definition rangeS :: "Env \<Rightarrow> (order \<Rightarrow> 'a storeM) \<Rightarrow> 'a engM" where
  "rangeS E m = bindM tickM (\<lambda>n. callS (m (iter E n)))"

text \<open>\<open>for k, v := range m\<close> over a Go map held by the engine.\<close>

definition rangeM :: "Env \<Rightarrow> 'v gomap \<Rightarrow> (string \<times> 'v \<Rightarrow> unit engM) \<Rightarrow> unit engM" where
  "rangeM E m f = bindM tickM (\<lambda>n. forM f (mrange (iter E n) m))"

text \<open>\<open>time.Now()\<close>\<close>

definition nowM :: "Env \<Rightarrow> int engM" where
  "nowM E = bindM tickM (\<lambda>n. returnM (clock E n))"

text \<open>\<open>newID\<close> of engine/engine.go; the counter is an \<open>int64\<close>.\<close>

definition nextCounter :: "int engM" where
  "nextCounter = (\<lambda>w. let c = wrap64 (idCounter w + 1) in (Inr c, w\<lparr>idCounter := c\<rparr>))"

definition newID :: "Env \<Rightarrow> string engM" where
  "newID E = bindM nextCounter (\<lambda>c. bindM (nowM E) (\<lambda>ts. returnM (newIDString ts c)))"

text \<open>A pure call that may fail.\<close>

definition liftE :: "err + 'a \<Rightarrow> 'a engM" where
  "liftE r = (case r of Inl e \<Rightarrow> throwM e | Inr x \<Rightarrow> returnM x)"

section \<open>Creation of runtime objects\<close>

text \<open>\<open>instance.NewToken(newID(), piID, elementID)\<close>\<close>

definition newToken :: "Env \<Rightarrow> string \<Rightarrow> string \<Rightarrow> Token engM" where
  "newToken E piID elementID =
     bindM (newID E) (\<lambda>i. bindM (nowM E) (\<lambda>now. returnM (NewToken now i piID elementID)))"

definition newActivity :: "Env \<Rightarrow> string \<Rightarrow> string \<Rightarrow> ElementType \<Rightarrow> ActivityInstance engM" where
  "newActivity E piID activityID ty =
     bindM (newID E) (\<lambda>i. returnM (NewActivityInstance i piID activityID ty))"

text \<open>\<open>ai.Complete()\<close> reads the clock.\<close>

definition completeM :: "Env \<Rightarrow> ActivityInstance \<Rightarrow> ActivityInstance engM" where
  "completeM E ai = bindM (nowM E) (\<lambda>now. returnM (Complete now ai))"

section \<open>Loops that consume tokens\<close>

text \<open>
  The loops over listed tokens come in four forms: they stop at the first token at an element
  or take all of them, and they return the error of \<open>UpdateToken\<close> or drop it.
\<close>

definition consumeToken :: "Token \<Rightarrow> unit engM" where
  "consumeToken tok = callS (UpdateToken (tok\<lparr>tok_State := TokenConsumed\<rparr>))"

definition consumeFirst :: "string \<Rightarrow> Token list \<Rightarrow> unit engM" where
  "consumeFirst elementID toks = (case find (\<lambda>tok. tok_CurrentElementID tok = elementID) toks of
       None \<Rightarrow> returnM () | Some tok \<Rightarrow> consumeToken tok)"

definition consumeAll :: "string \<Rightarrow> Token list \<Rightarrow> unit engM" where
  "consumeAll elementID toks = forM (\<lambda>tok.
     if tok_CurrentElementID tok = elementID then consumeToken tok else returnM ()) toks"

text \<open>The same loops over the active tokens of an instance, with the listing before them.\<close>

definition listTokens :: "Env \<Rightarrow> string \<Rightarrow> Token list engM" where
  "listTokens E piID = rangeS E (\<lambda>ord. ListActiveTokens ord piID)"

definition consumeFirstAt :: "Env \<Rightarrow> string \<Rightarrow> string \<Rightarrow> unit engM" where
  "consumeFirstAt E piID elementID = bindM (listTokens E piID) (consumeFirst elementID)"

definition consumeAllAt :: "Env \<Rightarrow> string \<Rightarrow> string \<Rightarrow> unit engM" where
  "consumeAllAt E piID elementID = bindM (listTokens E piID) (consumeAll elementID)"

text \<open>
  \<open>tokens, _ := ListActiveTokens\<close>, then the first token at the element, which is also tested
  for being active, is consumed and the error of the update dropped.
\<close>

definition dropFirstAt :: "Env \<Rightarrow> string \<Rightarrow> string \<Rightarrow> unit engM" where
  "dropFirstAt E piID elementID =
     bindM (ignoreM [] (listTokens E piID)) (\<lambda>toks.
       case find (\<lambda>tok. tok_CurrentElementID tok = elementID \<and> tok_State tok = TokenActive) toks of
         None \<Rightarrow> returnM () | Some tok \<Rightarrow> ignoreM () (consumeToken tok))"

definition dropAllAt :: "Env \<Rightarrow> string \<Rightarrow> string \<Rightarrow> unit engM" where
  "dropAllAt E piID elementID =
     bindM (ignoreM [] (listTokens E piID)) (forM (\<lambda>tok.
       if tok_CurrentElementID tok = elementID then ignoreM () (consumeToken tok) else returnM ()))"

lemmas world_defs = callS_def tickM_def rangeS_def nowM_def nextCounter_def newID_def liftE_def
  newToken_def newActivity_def completeM_def

section \<open>Identifiers are unique\<close>

text \<open>Identifiers do not repeat: two calls of \<open>newID\<close> at different values of the counter give
  different identifiers, whatever the clock reads between the years 2006 and 2262.\<close>

theorem ids_never_repeat:
  assumes clock: "\<And>n. 2 ^ 60 \<le> clock E n \<and> clock E n < 2 ^ 63"
    and "0 \<le> idCounter w" "idCounter w < idCounter w'" "idCounter w' < 2 ^ 63 - 1"
    and "newID E w = (Inr i, u)" "newID E w' = (Inr j, u')"
  shows "i \<noteq> j \<and> idCounter u = idCounter w + 1 \<and> st u = st w"
proof -
  have i: "i = newIDString (clock E (ticks w)) (idCounter w + 1) \<and> idCounter u = idCounter w + 1 \<and> st u = st w"
    and j: "j = newIDString (clock E (ticks w')) (idCounter w' + 1)"
    using assms by (auto simp: world_defs sem_simp Let_def in64_def)
  then show ?thesis using newIDString_eq_iff clock assms(2-4) by simp
qed

theorem ids_never_repeat_witness:
  "newIDString (2 ^ 60 + 7) 1 \<noteq> newIDString (2 ^ 60 + 7) 2"
  using ids_never_repeat [of "\<lparr>iter = (\<lambda>_ ks. ks), clock = (\<lambda>_. 2 ^ 60 + 7), xcompile = (\<lambda>_. True), xrun = (\<lambda>_ _. None),
      fmtFloat = (\<lambda>_. ''''), ident = None, locker = None\<rparr>" "\<lparr>st = NewStore, idCounter = 0, ticks = 0\<rparr>"
      "\<lparr>st = NewStore, idCounter = 1, ticks = 0\<rparr>"]
  by (simp add: world_defs sem_simp Let_def in64_def)

end
