(* ===== verification/Timers.thy ===== *)
theory Timers imports World begin

text \<open>
  Due times of timers, engine/event.go: ISO 8601 durations as the program reads them, and
  fixed dates with the two layouts that it gives to \<open>time.Parse\<close>.
\<close>

section \<open>Durations\<close>

text \<open>The local variables of the loop of \<open>parseISODuration\<close>.\<close>

record isoState =
  totalMinutes :: int
  currentVal :: int
  reading :: bool
  inTime :: bool

definition isDigit :: "char \<Rightarrow> bool" where
  "isDigit c \<longleftrightarrow> CHR ''0'' \<le> c \<and> c \<le> CHR ''9''"

definition digitVal :: "char \<Rightarrow> int" where
  "digitVal c = of_char c - 48"

text \<open>Integer division of Go, which truncates towards zero.\<close>

definition goDiv :: "int \<Rightarrow> int \<Rightarrow> int" where
  "goDiv a b = (if 0 \<le> a then a div b else - ((- a) div b))"

definition isoUnit :: "char \<Rightarrow> bool \<Rightarrow> int \<Rightarrow> int" where
  "isoUnit c inT v =
     (if c = CHR ''H'' then wrap64 (v * 60)
      else if c = CHR ''M'' then (if inT then v else wrap64 (v * 24 * 60))
      else if c = CHR ''S'' then goDiv (wrap64 (v + 30)) 60
      else if c = CHR ''D'' then wrap64 (v * 24 * 60)
      else 0)"

definition isoStep :: "char \<Rightarrow> isoState \<Rightarrow> isoState" where
  "isoStep c s =
     (if isDigit c then s\<lparr>currentVal := wrap64 (currentVal s * 10 + digitVal c), reading := True\<rparr>
      else if c = CHR ''T'' then s\<lparr>inTime := True, reading := False\<rparr>
      else if c = CHR ''P'' then s\<lparr>reading := False\<rparr>
      else if reading s then
        s\<lparr>totalMinutes := wrap64 (totalMinutes s + isoUnit c (inTime s) (currentVal s)),
          currentVal := 0, reading := False\<rparr>
      else s)"

definition isoMinutes :: "string \<Rightarrow> int" where
  "isoMinutes duration = totalMinutes (fold isoStep duration
     \<lparr>totalMinutes = 0, currentVal = 0, reading = False, inTime = False\<rparr>)"

definition minuteNs :: int where "minuteNs = 60000000000"
definition dayNs :: int where "dayNs = 24 * 60 * minuteNs"

definition parseISODuration :: "string \<Rightarrow> int \<Rightarrow> int" where
  "parseISODuration duration start =
     (let m = isoMinutes duration
      in if 0 < m then start + wrap64 (m * minuteNs) else start + dayNs)"

section \<open>Dates\<close>

text \<open>One or two digits; two are required when \<open>fixed\<close>.\<close>

definition getnum :: "bool \<Rightarrow> string \<Rightarrow> (int \<times> string) option" where
  "getnum fixed s = (case s of
       c # d # r \<Rightarrow> if \<not> isDigit c then None
                  else if isDigit d then Some (digitVal c * 10 + digitVal d, r)
                  else if fixed then None else Some (digitVal c, d # r)
     | [c] \<Rightarrow> if isDigit c \<and> \<not> fixed then Some (digitVal c, []) else None
     | [] \<Rightarrow> None)"

definition skipChar :: "char \<Rightarrow> string \<Rightarrow> string option" where
  "skipChar c s = (case s of d # r \<Rightarrow> if d = c then Some r else None | [] \<Rightarrow> None)"

definition year4 :: "string \<Rightarrow> (int \<times> string) option" where
  "year4 s = (if 4 \<le> length s \<and> list_all isDigit (take 4 s)
              then Some (foldl (\<lambda>v c. v * 10 + digitVal c) 0 (take 4 s), drop 4 s) else None)"

text \<open>A fraction of a second is accepted after the seconds; digits beyond the ninth are dropped.\<close>

definition fraction :: "string \<Rightarrow> int \<times> string" where
  "fraction s = (case s of
       c # d # r \<Rightarrow> if (c = CHR ''.'' \<or> c = CHR '','') \<and> isDigit d then
           (let ds = takeWhile isDigit (d # r)
            in (foldl (\<lambda>v x. v * 10 + digitVal x) 0 (take 9 (ds @ replicate 9 (CHR ''0''))),
                dropWhile isDigit (d # r)))
         else (0, s)
     | _ \<Rightarrow> (0, s))"

text \<open>The zone of RFC 3339, in seconds east of UTC.\<close>

definition zoneOffset :: "string \<Rightarrow> (int \<times> string) option" where
  "zoneOffset s = (case s of
       c # r \<Rightarrow>
         if c = CHR ''Z'' then Some (0, r)
         else if length s < 6 \<or> s ! 3 \<noteq> CHR '':'' then None
         else (case (getnum True (take 2 r), getnum True (take 2 (drop 4 s))) of
                 (Some (hh, _), Some (mm, _)) \<Rightarrow>
                   if 24 < hh \<or> 60 < mm then None
                   else if c = CHR ''+'' then Some ((hh * 60 + mm) * 60, drop 6 s)
                   else if c = CHR ''-'' then Some (- ((hh * 60 + mm) * 60), drop 6 s)
                   else None
               | _ \<Rightarrow> None)
     | [] \<Rightarrow> None)"

definition leapYear :: "int \<Rightarrow> bool" where
  "leapYear y \<longleftrightarrow> y mod 4 = 0 \<and> (y mod 100 \<noteq> 0 \<or> y mod 400 = 0)"

definition daysIn :: "int \<Rightarrow> int \<Rightarrow> int" where
  "daysIn m y = (if m = 2 then (if leapYear y then 29 else 28)
                 else if m \<in> {4, 6, 9, 11} then 30 else 31)"

text \<open>Days from 1970-01-01 of the proleptic Gregorian calendar.\<close>

definition daysBeforeYear :: "int \<Rightarrow> int" where
  "daysBeforeYear y = 365 * (y - 1) + (y - 1) div 4 - (y - 1) div 100 + (y - 1) div 400"

definition unixDay :: "int \<Rightarrow> int \<Rightarrow> int \<Rightarrow> int" where
  "unixDay y m d = daysBeforeYear y - daysBeforeYear 1970
     + sum_list (map (\<lambda>k. daysIn k y) [1..m - 1]) + d - 1"

text \<open>\<open>time.Parse\<close> for the layout of RFC 3339 (\<open>zoned\<close>) and for the one without a zone.\<close>

definition parseDate :: "bool \<Rightarrow> string \<Rightarrow> int option" where
  "parseDate zoned s =
     Option.bind (year4 s) (\<lambda>(y, s).
     Option.bind (skipChar (CHR ''-'') s) (\<lambda>s. Option.bind (getnum True s) (\<lambda>(mo, s).
     Option.bind (skipChar (CHR ''-'') s) (\<lambda>s. Option.bind (getnum True s) (\<lambda>(d, s).
     Option.bind (skipChar (CHR ''T'') s) (\<lambda>s. Option.bind (getnum False s) (\<lambda>(h, s).
     Option.bind (skipChar (CHR '':'') s) (\<lambda>s. Option.bind (getnum True s) (\<lambda>(mi, s).
     Option.bind (skipChar (CHR '':'') s) (\<lambda>s. Option.bind (getnum True s) (\<lambda>(sec, s).
     let (ns, s) = fraction s in
     Option.bind (if zoned then zoneOffset s else Some (0, s)) (\<lambda>(off, s).
       if s = '''' \<and> 1 \<le> mo \<and> mo \<le> 12 \<and> 1 \<le> d \<and> d \<le> daysIn mo y \<and> h < 24 \<and> mi < 60 \<and> sec < 60
       then Some ((unixDay y mo d * 86400 + h * 3600 + mi * 60 + sec - off) * 1000000000 + ns)
       else None))))))))))))"

definition parseTimerDuration :: "TimerEventDefinition \<Rightarrow> int \<Rightarrow> int" where
  "parseTimerDuration td now =
     (let fixedDate = (if td_TimerDate td \<noteq> '''' then
            (case parseDate True (td_TimerDate td) of
               Some t \<Rightarrow> Some t | None \<Rightarrow> parseDate False (td_TimerDate td)) else None)
      in case fixedDate of
           Some t \<Rightarrow> t
         | None \<Rightarrow>
             if td_TimerDuration td \<noteq> '''' then parseISODuration (td_TimerDuration td) now
             else if td_TimerCycle td \<noteq> '''' then parseISODuration (td_TimerCycle td) now
             else now + dayNs)"

section \<open>Durations of the usual form\<close>

lemma digitVal_digitChar: "0 \<le> d \<Longrightarrow> d < 10 \<Longrightarrow> isDigit (digitChar d) \<and> digitVal (digitChar d) = d"
proof -
  assume "0 \<le> d" "d < 10"
  then have "d \<in> set [0..9]" by auto
  then show ?thesis
    by (simp add: digitChar_def upto.simps nth_Cons' nat_eq_iff) (elim disjE; simp add: isDigit_def digitVal_def less_eq_char_def)
qed

text \<open>Reading the digits of a number that fits.\<close>

lemma fold_isoStep_digits:
  "0 \<le> v \<Longrightarrow> v < 2 ^ 63 \<Longrightarrow> currentVal s = 0 \<Longrightarrow>
     fold isoStep (decDigits v) s = s\<lparr>currentVal := v, reading := True\<rparr>"
proof (induction v rule: decDigits.induct)
  case (1 v)
  have digit: "isoStep (digitChar d) t = t\<lparr>currentVal := currentVal t * 10 + d, reading := True\<rparr>"
    if "0 \<le> d" "d < 10" "0 \<le> currentVal t * 10 + d" "currentVal t * 10 + d < 2 ^ 63" for d t
    using that digitVal_digitChar [of d] by (simp add: isoStep_def in64_def)
  show ?case
  proof (cases "v < 10")
    case True
    then show ?thesis using 1 digit [of v s] by (simp add: decDigits.simps [of v])
  next
    case False
    then have "fold isoStep (decDigits (v div 10)) s = s\<lparr>currentVal := v div 10, reading := True\<rparr>"
      using 1 by simp
    then show ?thesis
      using False 1 digit [of "v mod 10" "s\<lparr>currentVal := v div 10, reading := True\<rparr>"]
      by (simp add: decDigits.simps [of v])
  qed
qed

text \<open>C35. A duration of days, hours and minutes is read as written: the due time is that much after the
  start.\<close>

theorem duration_as_written:
  assumes "0 \<le> d" "0 \<le> h" "0 \<le> m" and "0 < (d * 24 + h) * 60 + m"
    and "((d * 24 + h) * 60 + m) * minuteNs < 2 ^ 63"
  shows "parseISODuration (''P'' @ fmtDec d @ ''DT'' @ fmtDec h @ ''H'' @ fmtDec m @ ''M'') start
    = start + ((d * 24 + h) * 60 + m) * minuteNs"
proof -
  let ?t = "(d * 24 + h) * 60 + m"
  have small: "d < 2 ^ 63" "h < 2 ^ 63" "m < 2 ^ 63" "d * 24 * 60 < 2 ^ 63" "h * 60 < 2 ^ 63"
     "d * 24 * 60 + h * 60 < 2 ^ 63" "?t < 2 ^ 63"
    using assms by (simp_all add: minuteNs_def)
  have "isoMinutes (''P'' @ fmtDec d @ ''DT'' @ fmtDec h @ ''H'' @ fmtDec m @ ''M'') = ?t"
    using assms(1-3) small
    by (simp add: isoMinutes_def fmtDec_def fold_isoStep_digits isoStep_def isoUnit_def in64_def isDigit_def
        less_eq_char_def algebra_simps)
  moreover have "in64 (?t * minuteNs)" using assms by (simp add: in64_def minuteNs_def)
  ultimately show ?thesis using assms(4) by (simp add: parseISODuration_def)
qed

theorem duration_as_written_witness:
  "parseISODuration (''P'' @ fmtDec 1 @ ''DT'' @ fmtDec 12 @ ''H'' @ fmtDec 5 @ ''M'') 1000
    = 1000 + ((1 * 24 + 12) * 60 + 5) * minuteNs"
  by (rule duration_as_written) (simp_all add: minuteNs_def)

end
