(* ===== verification/Gateways.thy ===== *)
theory Gateways imports Timers begin

text \<open>
  What the navigator does when execution leaves an element: completion of an instance and of
  the call activity that started it (engine/navigator.go, engine/call_activity.go), plain
  outgoing flows, and the three gateways (engine/gateway.go).

  \<open>navigateFrom\<close> and \<open>takeSequenceFlow\<close> call each other through these functions; here they
  are the arguments \<open>nav\<close> and \<open>flow\<close>. The theory Navigator ties the recursion.
\<close>

type_synonym navF = "string \<Rightarrow> string \<Rightarrow> unit engM"
type_synonym flowF = "ProcessDefinition \<Rightarrow> ProcessInstance \<Rightarrow> SequenceFlow \<Rightarrow> unit engM"

section \<open>Completion\<close>

definition completeActivity :: "Env \<Rightarrow> ActivityInstance \<Rightarrow> unit engM" where
  "completeActivity E ai = bindM (completeM E ai) (\<lambda>ai'. callS (UpdateActivityInstance ai'))"

definition checkParentCompletion :: "Env \<Rightarrow> navF \<Rightarrow> ProcessInstance \<Rightarrow> unit engM" where
  "checkParentCompletion E nav p =
     (if pi_ParentProcessInstanceID p = '''' \<or> pi_ParentActivityID p = '''' then returnM ()
      else bindM (listTokens E (pi_ParentProcessInstanceID p)) (\<lambda>parentTokens.
        case find (\<lambda>tok. tok_CurrentElementID tok = pi_ParentActivityID p) parentTokens of
          None \<Rightarrow> returnM ()
        | Some parentToken \<Rightarrow>
            bindM (consumeToken parentToken) (\<lambda>_.
            bindM (rangeS E (\<lambda>ord. ListActivitiesByProcessInstance ord (pi_ParentProcessInstanceID p))) (\<lambda>acts.
            bindM (forM (\<lambda>ai.
                if ai_ActivityID ai = pi_ParentActivityID p \<and> ai_State ai = ActivityActive
                then completeActivity E ai else returnM ()) acts) (\<lambda>_.
            nav (pi_ParentProcessInstanceID p) (pi_ParentActivityID p))))))"

definition checkComplete :: "Env \<Rightarrow> navF \<Rightarrow> ProcessInstance \<Rightarrow> unit engM" where
  "checkComplete E nav p =
     bindM (listTokens E (pi_ID p)) (\<lambda>active.
       if active = [] then
         bindM (nowM E) (\<lambda>now.
           let p' = p\<lparr>pi_State := Completed, pi_EndedAt := Some now\<rparr>
           in bindM (callS (UpdateProcessInstance p')) (\<lambda>_. checkParentCompletion E nav p'))
       else returnM ())"

definition handleEndEvent :: "Env \<Rightarrow> navF \<Rightarrow> ProcessInstance \<Rightarrow> string \<Rightarrow> unit engM" where
  "handleEndEvent E nav p elementID =
     bindM (consumeAllAt E (pi_ID p) elementID) (\<lambda>_. checkComplete E nav p)"

section \<open>Plain outgoing flows\<close>

definition handleOutgoingFlows ::
  "Env \<Rightarrow> navF \<Rightarrow> flowF \<Rightarrow> ProcessDefinition \<Rightarrow> ProcessInstance \<Rightarrow> SequenceFlow list \<Rightarrow> unit engM" where
  "handleOutgoingFlows E nav flow def p flows = (case flows of
       [] \<Rightarrow> checkComplete E nav p
     | sf # _ \<Rightarrow> bindM (consumeFirstAt E (pi_ID p) (sf_SourceRef sf)) (\<lambda>_. forM (flow def p) flows))"

section \<open>The exclusive gateway\<close>

text \<open>The loop over the flows: the first condition that holds, or the first that fails to evaluate.\<close>

primrec firstMatch :: "Env \<Rightarrow> vars \<Rightarrow> SequenceFlow list \<Rightarrow> err + SequenceFlow option" where
  "firstMatch E vs [] = Inr None"
| "firstMatch E vs (sf # sfs) = (case sf_ConditionExpression sf of
       None \<Rightarrow> firstMatch E vs sfs
     | Some c \<Rightarrow> (case evaluateCondition E c vs of
         Inl e \<Rightarrow> Inl e
       | Inr matched \<Rightarrow> if matched then Inr (Some sf) else firstMatch E vs sfs))"

definition defaultFlow :: "DefaultGateway \<Rightarrow> SequenceFlow list \<Rightarrow> SequenceFlow option" where
  "defaultFlow gw flows =
     (if gw_DefaultFlowID gw \<noteq> '''' then find (\<lambda>sf. sf_ID sf = gw_DefaultFlowID gw) flows else None)"

definition exclusiveTarget :: "Env \<Rightarrow> vars \<Rightarrow> DefaultGateway \<Rightarrow> SequenceFlow list \<Rightarrow> err + SequenceFlow" where
  "exclusiveTarget E vs gw outgoing = (case firstMatch E vs outgoing of
       Inl e \<Rightarrow> Inl e
     | Inr (Some sf) \<Rightarrow> Inr sf
     | Inr None \<Rightarrow> (case defaultFlow gw outgoing of
         Some sf \<Rightarrow> Inr sf | None \<Rightarrow> Inl (NoMatchingFlow (gw_ID gw))))"

definition handleExclusiveGateway ::
  "Env \<Rightarrow> flowF \<Rightarrow> ProcessDefinition \<Rightarrow> ProcessInstance \<Rightarrow> SequenceFlow list \<Rightarrow> DefaultGateway \<Rightarrow> unit engM" where
  "handleExclusiveGateway E flow def p outgoing gw =
     bindM (callS (GetAllVariables (pi_ID p))) (\<lambda>vs.
     bindM (liftE (exclusiveTarget E vs gw outgoing)) (\<lambda>matchedFlow.
     bindM (consumeAllAt E (pi_ID p) (gw_ID gw)) (\<lambda>_.
     flow def p matchedFlow)))"

section \<open>The parallel gateway\<close>

definition countEffectiveIncoming :: "SequenceFlow list \<Rightarrow> ProcessDefinition \<Rightarrow> int" where
  "countEffectiveIncoming incoming def =
     (let count = int (length (filter (\<lambda>sf. case element def (sf_SourceRef sf) of
            None \<Rightarrow> False | Some source \<Rightarrow> GetType source \<noteq> ElementTypeServiceTask) incoming))
      in if count = 0 then 1 else count)"

definition arrivalKey :: "string \<Rightarrow> string" where
  "arrivalKey gatewayID = ''__gw_arrived_'' @ gatewayID"

definition handleParallelGateway ::
  "Env \<Rightarrow> navF \<Rightarrow> flowF \<Rightarrow> ProcessDefinition \<Rightarrow> ProcessInstance \<Rightarrow> SequenceFlow list \<Rightarrow> string \<Rightarrow> unit engM" where
  "handleParallelGateway E nav flow def p outgoing gatewayID =
     (let effectiveIncoming =
            countEffectiveIncoming (FindIncomingFlows (pd_SequenceFlows def) gatewayID) def;
          split = (if outgoing = [] then checkComplete E nav p else forM (flow def p) outgoing)
      in if 1 < effectiveIncoming then
           bindM (callS (GetAllVariables (pi_ID p))) (\<lambda>vs.
           let arrived = assertFloat (map_of vs (arrivalKey gatewayID)) + 1
           in bindM (callS (SetVariable (pi_ID p) (arrivalKey gatewayID) (GFloat arrived))) (\<lambda>_.
             if truncRat arrived < effectiveIncoming then returnM ()
             else bindM (consumeAllAt E (pi_ID p) gatewayID) (\<lambda>_.
               bindM (callS (DeleteVariable (pi_ID p) (arrivalKey gatewayID))) (\<lambda>_. split))))
         else bindM (consumeAllAt E (pi_ID p) gatewayID) (\<lambda>_. split))"

section \<open>The inclusive gateway\<close>

primrec activatedFlows :: "Env \<Rightarrow> vars \<Rightarrow> SequenceFlow list \<Rightarrow> err + SequenceFlow list" where
  "activatedFlows E vs [] = Inr []"
| "activatedFlows E vs (sf # sfs) = (case sf_ConditionExpression sf of
       None \<Rightarrow> map_sum id ((#) sf) (activatedFlows E vs sfs)
     | Some c \<Rightarrow> (case evaluateCondition E c vs of
         Inl e \<Rightarrow> Inl e
       | Inr matched \<Rightarrow> if matched then map_sum id ((#) sf) (activatedFlows E vs sfs)
                        else activatedFlows E vs sfs))"

definition inclusiveTargets :: "Env \<Rightarrow> vars \<Rightarrow> DefaultGateway \<Rightarrow> SequenceFlow list \<Rightarrow> err + SequenceFlow list" where
  "inclusiveTargets E vs gw outgoing = (case activatedFlows E vs outgoing of
       Inl e \<Rightarrow> Inl e
     | Inr [] \<Rightarrow> (case defaultFlow gw outgoing of
         Some sf \<Rightarrow> Inr [sf] | None \<Rightarrow> Inl (NoMatchingFlow (gw_ID gw)))
     | Inr activated \<Rightarrow> Inr activated)"

definition handleInclusiveGateway ::
  "Env \<Rightarrow> flowF \<Rightarrow> ProcessDefinition \<Rightarrow> ProcessInstance \<Rightarrow> SequenceFlow list \<Rightarrow> DefaultGateway \<Rightarrow> unit engM" where
  "handleInclusiveGateway E flow def p outgoing gw =
     bindM (consumeAllAt E (pi_ID p) (gw_ID gw)) (\<lambda>_.
     bindM (callS (GetAllVariables (pi_ID p))) (\<lambda>vs.
     bindM (liftE (inclusiveTargets E vs gw outgoing)) (\<lambda>activated.
     forM (flow def p) activated)))"

section \<open>Which flows the gateways choose\<close>

lemma firstMatch_mem: "firstMatch E vs fs = Inr (Some sf) \<Longrightarrow> sf \<in> set fs"
  by (induction fs) (auto split: option.splits sum.splits if_splits)

lemma firstMatch_error: "firstMatch E vs fs = Inl e \<Longrightarrow> e \<noteq> OutOfFuel"
  by (induction fs) (auto split: option.splits sum.splits if_splits dest: evaluateCondition_errors)

lemma find_in_set: "find P xs = Some x \<Longrightarrow> x \<in> set xs \<and> P x"
  by (induction xs) (auto split: if_splits)

lemma defaultFlow_mem: "defaultFlow gw fs = Some sf \<Longrightarrow> sf \<in> set fs"
  by (auto simp: defaultFlow_def split: if_splits dest: find_in_set)

lemma exclusiveTarget_mem: "exclusiveTarget E vs gw fs = Inr sf \<Longrightarrow> sf \<in> set fs"
  by (auto simp: exclusiveTarget_def split: sum.splits option.splits dest: firstMatch_mem defaultFlow_mem)

lemma exclusiveTarget_error: "exclusiveTarget E vs gw fs = Inl e \<Longrightarrow> e \<noteq> OutOfFuel"
  by (auto simp: exclusiveTarget_def split: sum.splits option.splits dest: firstMatch_error)

lemma activatedFlows_mem: "activatedFlows E vs fs = Inr as \<Longrightarrow> set as \<subseteq> set fs"
proof (induction fs arbitrary: as)
  case (Cons sf fs)
  then show ?case by (cases "activatedFlows E vs fs") (auto split: option.splits sum.splits if_splits)
qed simp

lemma activatedFlows_error: "activatedFlows E vs fs = Inl e \<Longrightarrow> e \<noteq> OutOfFuel"
proof (induction fs)
  case (Cons sf fs)
  then show ?case
    by (cases "activatedFlows E vs fs")
       (auto split: option.splits sum.splits if_splits dest: evaluateCondition_errors)
qed simp

lemma inclusiveTargets_mem: "inclusiveTargets E vs gw fs = Inr as \<Longrightarrow> set as \<subseteq> set fs"
  by (auto simp: inclusiveTargets_def split: sum.splits option.splits list.splits
      dest: activatedFlows_mem defaultFlow_mem)

lemma inclusiveTargets_error: "inclusiveTargets E vs gw fs = Inl e \<Longrightarrow> e \<noteq> OutOfFuel"
  by (auto simp: inclusiveTargets_def split: sum.splits option.splits list.splits dest: activatedFlows_error)

end
