(* ===== verification/Events.thy ===== *)
theory Events imports Gateways begin

text \<open>
  Events (engine/event.go), call activities (engine/call_activity.go) and multi-instance user
  tasks (engine/multi_instance.go).
\<close>

section \<open>Timer jobs and signal subscriptions\<close>

definition createTimerJob :: "Env \<Rightarrow> ProcessInstance \<Rightarrow> string \<Rightarrow> TimerEventDefinition \<Rightarrow> unit engM" where
  "createTimerJob E p elementID td =
     bindM (nowM E) (\<lambda>now. bindM (newID E) (\<lambda>i.
     callS (CreateTimerJob \<lparr>tj_ID = i, tj_ProcessInstanceID = pi_ID p, tj_TenantID = '''',
       tj_ElementID = elementID, tj_DueAt = parseTimerDuration td now, tj_Fired = False\<rparr>)))"

definition createSubscription :: "Env \<Rightarrow> ProcessInstance \<Rightarrow> string \<Rightarrow> SignalEventDefinition \<Rightarrow> unit engM" where
  "createSubscription E p elementID sd =
     bindM (newID E) (\<lambda>i.
     callS (CreateSignalSubscription \<lparr>ss_ID = i, ss_ProcessInstanceID = pi_ID p, ss_TenantID = '''',
       ss_ElementID = elementID, ss_SignalRef = sd_SignalRef sd\<rparr>))"

definition optionM :: "'a option \<Rightarrow> ('a \<Rightarrow> unit engM) \<Rightarrow> unit engM" where
  "optionM x f = (case x of None \<Rightarrow> returnM () | Some y \<Rightarrow> f y)"

definition attachBoundaryEvents ::
  "Env \<Rightarrow> ProcessDefinition \<Rightarrow> ProcessInstance \<Rightarrow> string \<Rightarrow> unit engM" where
  "attachBoundaryEvents E def p activityID = rangeM E (pd_Elements def) (\<lambda>(_, el). case el of
       BoundaryEventEl be \<Rightarrow>
         if be_AttachedToRef be \<noteq> activityID then returnM ()
         else bindM (optionM (be_TimerDefinition be) (createTimerJob E p (be_ID be))) (\<lambda>_.
                optionM (be_SignalDefinition be) (createSubscription E p (be_ID be)))
     | _ \<Rightarrow> returnM ())"

section \<open>Intermediate events\<close>

definition handleIntermediateCatchEvent ::
  "Env \<Rightarrow> ProcessDefinition \<Rightarrow> ProcessInstance \<Rightarrow> IntermediateCatchEvent \<Rightarrow> unit engM" where
  "handleIntermediateCatchEvent E def p ice =
     bindM (newToken E (pi_ID p) (ice_ID ice)) (\<lambda>tok.
     bindM (callS (CreateToken tok)) (\<lambda>_.
     bindM (optionM (ice_TimerDefinition ice) (createTimerJob E p (ice_ID ice))) (\<lambda>_.
     optionM (ice_SignalDefinition ice) (createSubscription E p (ice_ID ice)))))"

text \<open>
  \<open>triggerEventElement\<close>: an interrupting boundary event consumes the tokens and completes the
  active activities it is attached to; then the event's own tokens are consumed and execution
  goes on from the event.
\<close>

definition interruptAttached :: "Env \<Rightarrow> string \<Rightarrow> BoundaryEvent \<Rightarrow> unit engM" where
  "interruptAttached E piID be =
     bindM (consumeAllAt E piID (be_AttachedToRef be)) (\<lambda>_.
     bindM (rangeS E (\<lambda>ord. ListActiveActivities ord piID)) (forM (\<lambda>ai.
       if ai_ActivityID ai = be_AttachedToRef be \<and> ai_State ai = ActivityActive
       then completeActivity E ai else returnM ())))"

definition triggerEventElement :: "Env \<Rightarrow> navF \<Rightarrow> string \<Rightarrow> string \<Rightarrow> unit engM" where
  "triggerEventElement E nav piID elementID =
     bindM (callS (GetProcessInstance piID)) (\<lambda>p.
     if pi_State p \<noteq> Running then returnM ()
     else bindM (callS (GetProcessDefinition (pi_ProcessDefinitionID p))) (\<lambda>def.
       case element def elementID of
         None \<Rightarrow> returnM ()
       | Some el \<Rightarrow>
           bindM (case el of
               BoundaryEventEl be \<Rightarrow> if be_CancelActivity be then interruptAttached E piID be else returnM ()
             | _ \<Rightarrow> returnM ()) (\<lambda>_.
           bindM (consumeAllAt E piID elementID) (\<lambda>_.
           bindM (newActivity E piID elementID (GetType el)) (\<lambda>ai0.
           bindM (completeM E ai0) (\<lambda>ai.
           bindM (callS (CreateActivityInstance ai)) (\<lambda>_.
           nav piID elementID)))))))"

definition fireSignal :: "Env \<Rightarrow> navF \<Rightarrow> string \<Rightarrow> unit engM" where
  "fireSignal E nav signalRef =
     bindM (rangeS E (\<lambda>ord. ListSignalSubscriptions ord signalRef)) (forM (\<lambda>sub.
       bindM (triggerEventElement E nav (ss_ProcessInstanceID sub) (ss_ElementID sub)) (\<lambda>_.
       callS (DeleteSignalSubscription (ss_ID sub)))))"

definition handleIntermediateThrowEvent ::
  "Env \<Rightarrow> navF \<Rightarrow> flowF \<Rightarrow> ProcessDefinition \<Rightarrow> ProcessInstance \<Rightarrow> IntermediateThrowEvent \<Rightarrow> unit engM" where
  "handleIntermediateThrowEvent E nav flow def p ite =
     bindM (newActivity E (pi_ID p) (ite_ID ite) ElementTypeIntermediateThrowEvent) (\<lambda>ai0.
     bindM (completeM E ai0) (\<lambda>ai.
     bindM (callS (CreateActivityInstance ai)) (\<lambda>_.
     bindM (optionM (ite_SignalDefinition ite) (\<lambda>sd.
         bindM (callS (GetAllVariables (pi_ID p))) (\<lambda>_. fireSignal E nav (sd_SignalRef sd)))) (\<lambda>_.
     let outgoing = FindOutgoingFlows (pd_SequenceFlows def) (ite_ID ite)
     in if outgoing = [] then checkComplete E nav p else forM (flow def p) outgoing))))"

section \<open>Call activities\<close>

definition startFrom :: "Env \<Rightarrow> navF \<Rightarrow> ProcessDefinition \<Rightarrow> ProcessInstance \<Rightarrow> unit engM" where
  "startFrom E nav def p =
     bindM (newActivity E (pi_ID p) (pd_StartEventID def) ElementTypeStartEvent) (\<lambda>ai0.
     bindM (completeM E (ai0\<lparr>ai_TenantID := pi_TenantID p\<rparr>)) (\<lambda>ai.
     bindM (callS (CreateActivityInstance ai)) (\<lambda>_.
     nav (pi_ID p) (pd_StartEventID def))))"

definition handleCallActivity ::
  "Env \<Rightarrow> navF \<Rightarrow> ProcessDefinition \<Rightarrow> ProcessInstance \<Rightarrow> CallActivity \<Rightarrow> unit engM" where
  "handleCallActivity E nav def p ca =
     bindM (rangeS E (\<lambda>ord. GetLatestProcessDefinitionByKey ord (ca_CalledElement ca))) (\<lambda>calledDef.
     bindM (if ca_InheritVariables ca then callS (GetAllVariables (pi_ID p)) else returnM []) (\<lambda>childVars.
     bindM (newID E) (\<lambda>childID.
     bindM (nowM E) (\<lambda>now.
     let childPI = (NewProcessInstance now childID (pd_ID calledDef) childVars)
           \<lparr>pi_ParentProcessInstanceID := pi_ID p, pi_ParentActivityID := ca_ID ca\<rparr>
     in bindM (callS (CreateProcessInstance childPI)) (\<lambda>_.
        bindM (rangeM E childVars (\<lambda>(k, v). callS (SetVariable childID k v))) (\<lambda>_.
        bindM (newActivity E (pi_ID p) (ca_ID ca) ElementTypeCallActivity) (\<lambda>ai.
        bindM (callS (CreateActivityInstance ai)) (\<lambda>_.
        bindM (newToken E (pi_ID p) (ca_ID ca)) (\<lambda>tok.
        bindM (callS (CreateToken tok)) (\<lambda>_.
        startFrom E nav calledDef childPI))))))))))"

section \<open>Multi-instance user tasks\<close>

definition resolveLoopCount :: "Env \<Rightarrow> LoopCharacteristics \<Rightarrow> vars \<Rightarrow> err + int" where
  "resolveLoopCount E lc vs =
     (if lc_Collection lc \<noteq> '''' then
        (case map_of vs (lc_Collection lc) of Some (GList xs) \<Rightarrow> Inr (int (length xs)) | _ \<Rightarrow> Inr 0)
      else if lc_LoopCardinality lc \<noteq> '''' then
        (case NewCondition E (lc_LoopCardinality lc) of
           Inl e \<Rightarrow> Inl e
         | Inr c \<Rightarrow> (case EvaluateNumeric E c vs of
             Inl e \<Rightarrow> Inl e
           | Inr n \<Rightarrow> Inr (if n < 0 then 0 else truncRat n)))
      else Inr 1)"

definition resolveCollectionItems :: "LoopCharacteristics \<Rightarrow> vars \<Rightarrow> gval list" where
  "resolveCollectionItems lc vs =
     (if lc_Collection lc = '''' then []
      else case map_of vs (lc_Collection lc) of Some (GList xs) \<Rightarrow> xs | _ \<Rightarrow> [])"

definition getTotalInstances :: "vars \<Rightarrow> string \<Rightarrow> int" where
  "getTotalInstances vs loopID = truncRat (assertFloat (map_of vs (loopID @ ''_nrOfInstances'')))"

text \<open>
  The body shared by the parallel loop and by \<open>startSequentialInstance\<close>: one token, one
  activity, and the element variable.
\<close>

definition startOneInstance ::
  "Env \<Rightarrow> ProcessInstance \<Rightarrow> UserTask \<Rightarrow> LoopCharacteristics \<Rightarrow> string \<Rightarrow> gval list \<Rightarrow> int \<Rightarrow> unit engM" where
  "startOneInstance E p ut lc loopID items i =
     bindM (newToken E (pi_ID p) (ut_ID ut)) (\<lambda>tok.
     bindM (callS (CreateToken tok)) (\<lambda>_.
     bindM (newActivity E (pi_ID p) (ut_ID ut) ElementTypeUserTask) (\<lambda>ai0.
     let ai1 = ai0\<lparr>ai_MultiInstanceLoopID := loopID, ai_LoopCounter := i\<rparr>;
         ai = (if ut_Assignee ut \<noteq> ''''
               then ai1\<lparr>ai_Assignee := RenderTemplate E (ut_Assignee ut) (pi_Variables p)\<rparr> else ai1)
     in bindM (callS (CreateActivityInstance ai)) (\<lambda>_.
        if lc_ElementVariable lc \<noteq> '''' \<and> i < int (length items)
        then callS (SetVariable (pi_ID p) (lc_ElementVariable lc) (items ! nat i))
        else returnM ()))))"

definition startParallelInstances ::
  "Env \<Rightarrow> ProcessInstance \<Rightarrow> UserTask \<Rightarrow> LoopCharacteristics \<Rightarrow> string \<Rightarrow> gval list \<Rightarrow> int \<Rightarrow> unit engM" where
  "startParallelInstances E p ut lc loopID items count =
     forM (startOneInstance E p ut lc loopID items) (map int [0..<nat count])"

definition startSequentialInstance ::
  "Env \<Rightarrow> ProcessInstance \<Rightarrow> UserTask \<Rightarrow> LoopCharacteristics \<Rightarrow> string \<Rightarrow> gval list \<Rightarrow> int \<Rightarrow> int \<Rightarrow> unit engM" where
  "startSequentialInstance E p ut lc loopID items index count =
     bindM (startOneInstance E p ut lc loopID items index) (\<lambda>_.
     bindM (callS (SetVariable (pi_ID p) (loopID @ ''_sequential_index'') (GFloat (of_int index)))) (\<lambda>_.
     callS (SetVariable (pi_ID p) (loopID @ ''_sequential_count'') (GFloat (of_int count)))))"

definition handleMultiInstanceTask ::
  "Env \<Rightarrow> navF \<Rightarrow> flowF \<Rightarrow> ProcessDefinition \<Rightarrow> ProcessInstance \<Rightarrow> UserTask \<Rightarrow> unit engM" where
  "handleMultiInstanceTask E nav flow def p ut = (case ut_LoopCharacteristics ut of
       None \<Rightarrow> throwM NoLoopCharacteristics
     | Some lc \<Rightarrow>
         bindM (newID E) (\<lambda>loopID.
         bindM (callS (GetAllVariables (pi_ID p))) (\<lambda>vs.
         bindM (liftE (resolveLoopCount E lc vs)) (\<lambda>count.
         if count \<le> 0 then
           handleOutgoingFlows E nav flow def p (FindOutgoingFlows (pd_SequenceFlows def) (ut_ID ut))
         else
           (let items = resolveCollectionItems lc vs; fCount = GFloat (of_int count);
                set = (\<lambda>name v. callS (SetVariable (pi_ID p) name v))
            in bindM (set (loopID @ ''_nrOfInstances'') fCount) (\<lambda>_.
               bindM (set ''nrOfInstances'' fCount) (\<lambda>_.
               bindM (set (loopID @ ''_nrOfActiveInstances'') fCount) (\<lambda>_.
               bindM (set ''nrOfActiveInstances'' fCount) (\<lambda>_.
               bindM (set (loopID @ ''_nrOfCompletedInstances'') (GFloat 0)) (\<lambda>_.
               bindM (set ''nrOfCompletedInstances'' (GFloat 0)) (\<lambda>_.
               if lc_IsSequential lc then startSequentialInstance E p ut lc loopID items 0 count
               else startParallelInstances E p ut lc loopID items count)))))))))))"

text \<open>The user task with its loop characteristics, when the element is such a task.\<close>

definition loopTask :: "FlowElement option \<Rightarrow> (UserTask \<times> LoopCharacteristics) option" where
  "loopTask x = (case x of
       Some (UserTaskEl ut) \<Rightarrow> map_option (Pair ut) (ut_LoopCharacteristics ut) | _ \<Rightarrow> None)"

text \<open>The type assertion on the total panics when it is missing.\<close>

definition allCompleted :: "vars \<Rightarrow> string \<Rightarrow> rat \<Rightarrow> bool engM" where
  "allCompleted vs loopID nrCompleted = (case map_of vs (loopID @ ''_nrOfInstances'') of
       Some (GFloat n) \<Rightarrow> returnM (n \<le> nrCompleted) | _ \<Rightarrow> throwM Panic)"

text \<open>An error of the completion condition counts as not met.\<close>

definition conditionMet :: "Env \<Rightarrow> ProcessInstance \<Rightarrow> LoopCharacteristics \<Rightarrow> bool engM" where
  "conditionMet E p lc =
     (if lc_CompletionCondition lc \<noteq> '''' then
        bindM (callS (GetAllVariables (pi_ID p))) (\<lambda>allVars.
        returnM (evaluateCondition E (lc_CompletionCondition lc) allVars = Inr True))
      else returnM False)"

definition nextInstance ::
  "Env \<Rightarrow> ProcessInstance \<Rightarrow> UserTask \<Rightarrow> LoopCharacteristics \<Rightarrow> string \<Rightarrow> vars \<Rightarrow> rat \<Rightarrow> rat \<Rightarrow> bool engM" where
  "nextInstance E p ut lc loopID vs nrCompleted nrActive =
     (let seqIndex = assertFloat (map_of vs (loopID @ ''_sequential_index''));
          seqCount = assertFloat (map_of vs (loopID @ ''_sequential_count''));
          nextIndex = truncRat seqIndex + 1
      in if lc_IsSequential lc \<and> nextIndex < truncRat seqCount then
           bindM (startSequentialInstance E p ut lc loopID
               (resolveCollectionItems lc vs) nextIndex (truncRat seqCount)) (\<lambda>_. returnM False)
         else returnM (nrActive \<le> 0 \<or> getTotalInstances vs loopID \<le> truncRat nrCompleted))"

text \<open>Whether the loop is over.\<close>

definition advanceMultiInstance :: "Env \<Rightarrow> ProcessInstance \<Rightarrow> ActivityInstance \<Rightarrow> bool engM" where
  "advanceMultiInstance E p ai =
     (let loopID = ai_MultiInstanceLoopID ai; set = (\<lambda>name v. callS (SetVariable (pi_ID p) name v))
      in if loopID = '''' then returnM True
         else bindM (callS (GetAllVariables (pi_ID p))) (\<lambda>vs.
           let nrCompleted = assertFloat (map_of vs (loopID @ ''_nrOfCompletedInstances'')) + 1;
               nrActive = assertFloat (map_of vs (loopID @ ''_nrOfActiveInstances'')) - 1
           in bindM (set (loopID @ ''_nrOfCompletedInstances'') (GFloat nrCompleted)) (\<lambda>_.
              bindM (set ''nrOfCompletedInstances'' (GFloat nrCompleted)) (\<lambda>_.
              bindM (set (loopID @ ''_nrOfActiveInstances'') (GFloat nrActive)) (\<lambda>_.
              bindM (set ''nrOfActiveInstances'' (GFloat nrActive)) (\<lambda>_.
              bindM (callS (GetProcessDefinition (pi_ProcessDefinitionID p))) (\<lambda>def.
              case loopTask (element def (ai_ActivityID ai)) of
                None \<Rightarrow> allCompleted vs loopID nrCompleted
              | Some (ut, lc) \<Rightarrow>
                  bindM (conditionMet E p lc) (\<lambda>met.
                  if met then
                    bindM (ignoreM () (set (loopID @ ''_nrOfActiveInstances'') (GInt 0))) (\<lambda>_. returnM True)
                  else nextInstance E p ut lc loopID vs nrCompleted nrActive))))))))"

lemma resolveLoopCount_error: "resolveLoopCount E lc vs = Inl e \<Longrightarrow> e \<noteq> OutOfFuel"
  by (auto simp: resolveLoopCount_def split: if_splits option.splits gval.splits sum.splits
      dest: NewCondition_errors EvaluateNumeric_errors)

end
