(* ===== verification/Tasks.thy ===== *)
theory Tasks imports Navigator begin

text \<open>
  The operations on a single task: completion with its sign (countersign) and delegation
  branches, claiming, transfer, signs (engine/engine.go, engine/add_sign.go,
  engine/delegate.go).
\<close>

section \<open>Helpers\<close>

definition recordHistory :: "ActivityInstance \<Rightarrow> unit engM" where
  "recordHistory ai = (case ai_CompletedTime ai of
       None \<Rightarrow> returnM ()
     | Some t \<Rightarrow>
         if ai_State ai \<noteq> ActivityCompleted then returnM ()
         else bindM (tryM (callS (GetAllVariables (ai_ProcessInstanceID ai)))) (\<lambda>r. case r of
             Inl _ \<Rightarrow> returnM ()
           | Inr vs \<Rightarrow> ignoreM () (callS (CreateHistoricActivityInstance
               \<lparr>hai_ID = ai_ID ai, hai_ProcessInstanceID = ai_ProcessInstanceID ai,
                hai_TenantID = ai_TenantID ai, hai_ActivityID = ai_ActivityID ai,
                hai_ActivityType = ai_ActivityType ai, hai_Variables = vs,
                hai_StartedAt = zeroTime, hai_CompletedAt = t\<rparr>))))"

text \<open>A variable name with a known suffix, without the suffix; Go slices by length.\<close>

definition isParentKey :: "string \<Rightarrow> bool" where
  "isParentKey k \<longleftrightarrow> 7 < length k \<and> hasSuffix k ''_parent''"

definition parentKeyPrefix :: "string \<Rightarrow> string" where
  "parentKeyPrefix k = take (length k - 7) k"

definition findSignID :: "order \<Rightarrow> vars \<Rightarrow> string \<Rightarrow> string" where
  "findSignID ord vs parentID =
     (case find (\<lambda>(k, v). isParentKey k \<and> v = GString parentID) (mrange ord vs) of
        None \<Rightarrow> '''' | Some (k, _) \<Rightarrow> parentKeyPrefix k)"

definition findSignIDM :: "Env \<Rightarrow> vars \<Rightarrow> string \<Rightarrow> string engM" where
  "findSignIDM E vs parentID = bindM tickM (\<lambda>n. returnM (findSignID (iter E n) vs parentID))"

definition hasPendingSigns :: "Env \<Rightarrow> ProcessInstance \<Rightarrow> ActivityInstance \<Rightarrow> bool engM" where
  "hasPendingSigns E p ai =
     bindM (tryM (rangeS E (\<lambda>ord. ListActiveActivities ord (pi_ID p)))) (\<lambda>r. case r of
       Inl _ \<Rightarrow> returnM False
     | Inr acts \<Rightarrow> returnM (list_ex (\<lambda>a. ai_AdhocParentID a = ai_ID ai) acts))"

text \<open>Completes the active sign activities of an activity; errors are dropped.\<close>

definition completeSigns :: "Env \<Rightarrow> string \<Rightarrow> string \<Rightarrow> unit engM" where
  "completeSigns E piID parentID =
     bindM (ignoreM [] (rangeS E (\<lambda>ord. ListActivitiesByProcessInstance ord piID))) (forM (\<lambda>a.
       if ai_AdhocParentID a = parentID \<and> ai_State a = ActivityActive
       then ignoreM () (completeActivity E a) else returnM ()))"

definition setVar :: "string \<Rightarrow> string \<Rightarrow> gval \<Rightarrow> unit engM" where
  "setVar piID name v = ignoreM () (callS (SetVariable piID name v))"

definition delVar :: "string \<Rightarrow> string \<Rightarrow> unit engM" where
  "delVar piID name = ignoreM () (callS (DeleteVariable piID name))"

definition getVars :: "string \<Rightarrow> vars engM" where
  "getVars piID = ignoreM [] (callS (GetAllVariables piID))"

section \<open>Signs\<close>

datatype SignType = SignForward | SignBackward | SignParallel | SignOther string
datatype SignStrategy = StrategyOR | StrategyAND | StrategyOther string

fun signTypeString :: "SignType \<Rightarrow> string" where
  "signTypeString SignForward = ''forward''"
| "signTypeString SignBackward = ''backward''"
| "signTypeString SignParallel = ''parallel''"
| "signTypeString (SignOther s) = s"

fun strategyString :: "SignStrategy \<Rightarrow> string" where
  "strategyString StrategyOR = ''or''"
| "strategyString StrategyAND = ''and''"
| "strategyString (StrategyOther s) = s"

definition signComplete :: "string \<Rightarrow> rat \<Rightarrow> rat \<Rightarrow> rat \<Rightarrow> bool" where
  "signComplete strategy nrApproved nrCompleted total' \<longleftrightarrow>
     strategy = ''or'' \<and> 1 \<le> nrApproved \<or> strategy = ''and'' \<and> total' \<le> nrCompleted"

text \<open>
  The end of a sign session: the remaining signs are completed, the tokens of the element are
  deleted down to one (to none when the signed activity is already completed), the variables
  of the session go, and a completed parent goes on.
\<close>

definition finishSigns ::
  "Env \<Rightarrow> navF \<Rightarrow> ProcessInstance \<Rightarrow> ActivityInstance \<Rightarrow> vars \<Rightarrow> string \<Rightarrow> unit engM" where
  "finishSigns E nav p parentAI vs signID =
     bindM (completeSigns E (pi_ID p) (ai_ID parentAI)) (\<lambda>_.
     bindM (ignoreM [] (listTokens E (pi_ID p))) (\<lambda>toks.
     let excess = map tok_ID (filter (\<lambda>tok. tok_CurrentElementID tok = ai_ActivityID parentAI) toks);
         keep = (if ai_State parentAI = ActivityCompleted then 0 else 1)
     in bindM (forM (\<lambda>i. ignoreM () (callS (DeleteToken i))) (take (length excess - keep) excess)) (\<lambda>_.
        bindM (rangeM E vs (\<lambda>(k, _). if length signID < length k \<and> hasPrefix k signID
            then delVar (pi_ID p) k else returnM ())) (\<lambda>_.
        if ai_State parentAI = ActivityCompleted then
          bindM (newToken E (pi_ID p) (ai_ActivityID parentAI)) (\<lambda>tok.
          bindM (callS (CreateToken tok)) (\<lambda>_.
          nav (pi_ID p) (ai_ActivityID parentAI)))
        else returnM ()))))"

definition handleSignCompletion ::
  "Env \<Rightarrow> navF \<Rightarrow> ProcessInstance \<Rightarrow> ActivityInstance \<Rightarrow> vars \<Rightarrow> unit engM" where
  "handleSignCompletion E nav p ai completedVariables =
     (if ai_AdhocParentID ai = '''' then returnM ()
      else bindM (callS (GetActivityInstance (ai_AdhocParentID ai))) (\<lambda>parentAI.
        bindM (callS (GetAllVariables (pi_ID p))) (\<lambda>vs.
        bindM (findSignIDM E vs (ai_ID parentAI)) (\<lambda>signID.
        if signID = '''' then returnM ()
        else
          (let nrCompleted = assertFloat (map_of vs (signID @ ''_completed'')) + 1;
               nrApproved = assertFloat (map_of vs (signID @ ''_approved''))
                 + (if map_of completedVariables ''approved'' = Some (GBool True) then 1 else 0)
           in bindM (setVar (pi_ID p) (signID @ ''_completed'') (GFloat nrCompleted)) (\<lambda>_.
              bindM (setVar (pi_ID p) (signID @ ''_approved'') (GFloat nrApproved)) (\<lambda>_.
              if \<not> signComplete (assertString (map_of vs (signID @ ''_strategy''))) nrApproved nrCompleted
                     (assertFloat (map_of vs (signID @ ''_total'')))
              then returnM ()
              else finishSigns E nav p parentAI vs signID)))))))"

section \<open>Delegation\<close>

definition DelegateTask :: "string \<Rightarrow> string \<Rightarrow> unit engM" where
  "DelegateTask activityInstanceID delegateAssignee =
     bindM (callS (GetActivityInstance activityInstanceID)) (\<lambda>ai.
     bindM (requireM (ai_State ai = ActivityActive) (NotActive activityInstanceID)) (\<lambda>_.
     bindM (requireM (ai_ActivityType ai = ElementTypeUserTask) (NotUserTask activityInstanceID)) (\<lambda>_.
     bindM (setVar (ai_ProcessInstanceID ai) (''__delegate_orig_'' @ ai_ID ai) (GString (ai_Assignee ai))) (\<lambda>_.
     bindM (setVar (ai_ProcessInstanceID ai) (''__delegate_to_'' @ ai_ID ai) (GString delegateAssignee)) (\<lambda>_.
     callS (UpdateActivityInstance (ai\<lparr>ai_Assignee := delegateAssignee\<rparr>)))))))"

text \<open>Whether the completed task was a delegated one; every error counts as \<open>false\<close>.\<close>

definition handleDelegateCompletion :: "Env \<Rightarrow> ProcessInstance \<Rightarrow> ActivityInstance \<Rightarrow> bool engM" where
  "handleDelegateCompletion E p ai =
     ignoreM False (
     bindM (callS (GetAllVariables (pi_ID p))) (\<lambda>vs.
     if map_of vs (''__delegate_to_'' @ ai_ID ai) = None \<or> map_of vs (''__delegate_orig_'' @ ai_ID ai) = None
     then returnM False
     else bindM (callS (GetProcessDefinition (pi_ProcessDefinitionID p))) (\<lambda>def.
       bindM (newActivity E (pi_ID p) (ai_ActivityID ai) ElementTypeUserTask) (\<lambda>newAI.
       bindM (case element def (ai_ActivityID ai) of
           Some (UserTaskEl ut) \<Rightarrow> bindM (tryM (callS (GetAllVariables (pi_ID p)))) (\<lambda>r. returnM (case r of
               Inr vs2 \<Rightarrow> RenderTemplate E (ut_Assignee ut) vs2
             | Inl _ \<Rightarrow> assertString (map_of vs (''__delegate_orig_'' @ ai_ID ai))))
         | _ \<Rightarrow> returnM (assertString (map_of vs (''__delegate_orig_'' @ ai_ID ai)))) (\<lambda>assignee.
       bindM (callS (CreateActivityInstance (newAI\<lparr>ai_Assignee := assignee\<rparr>))) (\<lambda>_.
       bindM (newToken E (pi_ID p) (ai_ActivityID ai)) (\<lambda>newTok.
       bindM (callS (CreateToken newTok)) (\<lambda>_.
       bindM (setVar (pi_ID p) (''__delegate_return_'' @ ai_ID ai) (GBool True)) (\<lambda>_.
       returnM True)))))))))"

section \<open>Completing a task\<close>

text \<open>\<open>runWithLock\<close>: the configured locker may refuse; the transaction only runs the function.\<close>

definition runWithLock :: "Env \<Rightarrow> string \<Rightarrow> 'a engM \<Rightarrow> 'a engM" where
  "runWithLock E piID fn = (case locker E of
       None \<Rightarrow> fn
     | Some lock \<Rightarrow> (case lock (''pi:'' @ piID) of Some msg \<Rightarrow> throwM (LockError msg) | None \<Rightarrow> fn))"

text \<open>The variables are written to the store and to the map of the instance.\<close>

definition mergeVariables :: "Env \<Rightarrow> string \<Rightarrow> vars \<Rightarrow> unit engM" where
  "mergeVariables E piID vs =
     (if vs = [] then returnM ()
      else bindM (callS (GetProcessInstance piID)) (\<lambda>p.
        bindM (rangeM E vs (\<lambda>(k, v). callS (SetVariable (pi_ID p) k v))) (\<lambda>_.
        callS (UpdateProcessInstance
          (p\<lparr>pi_Variables := fold (\<lambda>(k, v). AList.update k v) vs (pi_Variables p)\<rparr>)))))"

text \<open>What follows the bookkeeping for a task that is not a sign.\<close>

definition advanceTask :: "Env \<Rightarrow> navF \<Rightarrow> ActivityInstance \<Rightarrow> unit engM" where
  "advanceTask E nav ai =
     bindM (callS (GetProcessInstance (ai_ProcessInstanceID ai))) (\<lambda>p.
     bindM (hasPendingSigns E p ai) (\<lambda>pending.
     if pending then returnM ()
     else
       bindM (dropFirstAt E (ai_ProcessInstanceID ai) (ai_ActivityID ai)) (\<lambda>_.
       bindM (handleDelegateCompletion E p ai) (\<lambda>delegated.
       if delegated then returnM ()
       else
         bindM (callS (DeleteTimerJobsByInstance (ai_ProcessInstanceID ai))) (\<lambda>_.
         bindM (callS (DeleteSubscriptionsByInstance (ai_ProcessInstanceID ai))) (\<lambda>_.
         nav (ai_ProcessInstanceID ai) (ai_ActivityID ai)))))))"

definition completeTaskTx :: "Env \<Rightarrow> navF \<Rightarrow> ActivityInstance \<Rightarrow> vars \<Rightarrow> unit engM" where
  "completeTaskTx E nav ai0 vs =
     bindM (completeM E ai0) (\<lambda>ai.
     bindM (callS (UpdateActivityInstance ai)) (\<lambda>_.
     bindM (recordHistory ai) (\<lambda>_.
     bindM (mergeVariables E (ai_ProcessInstanceID ai) vs) (\<lambda>_.
     if ai_AdhocParentID ai \<noteq> '''' then
       bindM (callS (GetProcessInstance (ai_ProcessInstanceID ai))) (\<lambda>p.
       handleSignCompletion E nav p ai vs)
     else advanceTask E nav ai))))"

definition CompleteTask :: "Env \<Rightarrow> nat \<Rightarrow> string \<Rightarrow> vars \<Rightarrow> unit engM" where
  "CompleteTask E fuel activityInstanceID vs =
     bindM (callS (GetActivityInstance activityInstanceID)) (\<lambda>ai.
     bindM (requireM (ai_State ai \<noteq> ActivityUnclaimed) (IsUnclaimed activityInstanceID)) (\<lambda>_.
     bindM (requireM (ai_State ai = ActivityActive) (NotActive activityInstanceID)) (\<lambda>_.
     bindM (requireM (ai_ActivityType ai = ElementTypeUserTask) (NotUserTask activityInstanceID)) (\<lambda>_.
     runWithLock E (ai_ProcessInstanceID ai) (completeTaskTx E (navigateFrom E fuel) ai vs)))))"

section \<open>Adding and removing signs\<close>

definition addSignActivity :: "Env \<Rightarrow> ProcessInstance \<Rightarrow> ActivityInstance \<Rightarrow> string \<Rightarrow> unit engM" where
  "addSignActivity E p ai a =
     bindM (getVars (pi_ID p)) (\<lambda>v.
     bindM (newActivity E (pi_ID p) (ai_ActivityID ai) ElementTypeUserTask) (\<lambda>sai.
     bindM (callS (CreateActivityInstance
       (sai\<lparr>ai_Assignee := RenderTemplate E a v, ai_AdhocParentID := ai_ID ai\<rparr>))) (\<lambda>_.
     bindM (newToken E (pi_ID p) (ai_ActivityID ai)) (\<lambda>stok.
     callS (CreateToken stok)))))"

definition AddSign ::
  "Env \<Rightarrow> string \<Rightarrow> SignType \<Rightarrow> SignStrategy \<Rightarrow> string list \<Rightarrow> unit engM" where
  "AddSign E activityInstanceID signType strategy assignees =
     bindM (requireM (assignees \<noteq> []) AssigneeRequired) (\<lambda>_.
     bindM (callS (GetActivityInstance activityInstanceID)) (\<lambda>ai.
     bindM (requireM (ai_State ai = ActivityActive) (NotActive activityInstanceID)) (\<lambda>_.
     bindM (requireM (ai_ActivityType ai = ElementTypeUserTask) (NotUserTask activityInstanceID)) (\<lambda>_.
     bindM (requireM (ai_AdhocParentID ai = '''') SignOnSign) (\<lambda>_.
     bindM (callS (GetProcessInstance (ai_ProcessInstanceID ai))) (\<lambda>p.
     bindM (requireM (pi_State p = Running) (InstanceNotRunning (pi_ID p))) (\<lambda>_.
     bindM (newID E) (\<lambda>sid.
     bindM (setVar (pi_ID p) (sid @ ''_type'') (GString (signTypeString signType))) (\<lambda>_.
     bindM (setVar (pi_ID p) (sid @ ''_strategy'') (GString (strategyString strategy))) (\<lambda>_.
     bindM (setVar (pi_ID p) (sid @ ''_total'') (GFloat (of_nat (length assignees)))) (\<lambda>_.
     bindM (setVar (pi_ID p) (sid @ ''_completed'') (GFloat 0)) (\<lambda>_.
     bindM (setVar (pi_ID p) (sid @ ''_approved'') (GFloat 0)) (\<lambda>_.
     bindM (setVar (pi_ID p) (sid @ ''_parent'') (GString (ai_ID ai))) (\<lambda>_.
     bindM (forM (addSignActivity E p ai) assignees) (\<lambda>_.
     if signType = SignBackward then
       bindM (ignoreM () (completeActivity E ai)) (\<lambda>_.
       dropFirstAt E (pi_ID p) (ai_ActivityID ai))
     else returnM ())))))))))))))))"

definition RemoveSign :: "Env \<Rightarrow> string \<Rightarrow> string \<Rightarrow> unit engM" where
  "RemoveSign E activityInstanceID assignee =
     bindM (callS (GetActivityInstance activityInstanceID)) (\<lambda>parentAI.
     bindM (requireM (ai_State parentAI = ActivityActive) (NotActive activityInstanceID)) (\<lambda>_.
     bindM (tryM (callS (GetProcessInstance (ai_ProcessInstanceID parentAI)))) (\<lambda>r. case r of
       Inl _ \<Rightarrow> throwM Panic
     | Inr p \<Rightarrow>
         bindM (getVars (pi_ID p)) (\<lambda>vs.
         bindM (findSignIDM E vs (ai_ID parentAI)) (\<lambda>signID.
         bindM (ignoreM [] (rangeS E (\<lambda>ord. ListActivitiesByProcessInstance ord (pi_ID p)))) (\<lambda>allActs.
         case find (\<lambda>a. ai_AdhocParentID a = ai_ID parentAI \<and> ai_Assignee a = assignee
                        \<and> ai_State a = ActivityActive) allActs of
           None \<Rightarrow> throwM (NoActiveSign assignee)
         | Some found \<Rightarrow>
             bindM (ignoreM () (completeActivity E found)) (\<lambda>_.
             bindM (dropFirstAt E (pi_ID p) (ai_ActivityID parentAI)) (\<lambda>_.
             if signID \<noteq> '''' then
               setVar (pi_ID p) (signID @ ''_completed'')
                 (GFloat (assertFloat (map_of vs (signID @ ''_completed'')) + 1))
             else returnM ()))))))))"

section \<open>Assignment\<close>

definition TransferTask :: "string \<Rightarrow> string \<Rightarrow> unit engM" where
  "TransferTask activityInstanceID newAssignee =
     bindM (callS (GetActivityInstance activityInstanceID)) (\<lambda>ai.
     bindM (requireM (ai_State ai = ActivityActive) (NotActive activityInstanceID)) (\<lambda>_.
     bindM (requireM (ai_ActivityType ai = ElementTypeUserTask) (NotUserTask activityInstanceID)) (\<lambda>_.
     bindM (setVar (ai_ProcessInstanceID ai) (''__transfer_'' @ ai_ID ai)
       (GString (ai_Assignee ai @ ''->'' @ newAssignee))) (\<lambda>_.
     callS (UpdateActivityInstance (ai\<lparr>ai_Assignee := newAssignee\<rparr>))))))"

definition candidatesOf :: "gval \<Rightarrow> string list" where
  "candidatesOf raw = (case raw of
       GStrings v \<Rightarrow> v
     | GList v \<Rightarrow> concat (map (\<lambda>c. case c of GString s \<Rightarrow> [s] | _ \<Rightarrow> []) v)
     | _ \<Rightarrow> [])"

definition GetCandidates :: "string \<Rightarrow> string list engM" where
  "GetCandidates activityInstanceID =
     ignoreM [] (
     bindM (callS (GetActivityInstance activityInstanceID)) (\<lambda>ai.
     bindM (callS (GetVariable (ai_ProcessInstanceID ai) (''__candidates_'' @ ai_ID ai))) (\<lambda>raw.
     returnM (candidatesOf raw))))"

definition ClaimTask :: "Env \<Rightarrow> string \<Rightarrow> string \<Rightarrow> unit engM" where
  "ClaimTask E activityInstanceID userID =
     bindM (callS (GetActivityInstance activityInstanceID)) (\<lambda>ai.
     bindM (requireM (ai_State ai = ActivityUnclaimed) (NotUnclaimed activityInstanceID)) (\<lambda>_.
     bindM (requireM (ai_ActivityType ai = ElementTypeUserTask) (NotUserTask activityInstanceID)) (\<lambda>_.
     bindM (GetCandidates activityInstanceID) (\<lambda>candidates.
     bindM (requireM (candidates = [] \<or> userID \<in> set candidates)
       (NotCandidate userID activityInstanceID)) (\<lambda>_.
     bindM (nowM E) (\<lambda>now.
     callS (UpdateActivityInstance
       (ai\<lparr>ai_Assignee := userID, ai_ClaimTime := Some now, ai_State := ActivityActive\<rparr>))))))))"

definition UnclaimTask :: "string \<Rightarrow> unit engM" where
  "UnclaimTask activityInstanceID =
     bindM (callS (GetActivityInstance activityInstanceID)) (\<lambda>ai.
     bindM (requireM (ai_State ai = ActivityActive) (NotActive activityInstanceID)) (\<lambda>_.
     bindM (GetCandidates activityInstanceID) (\<lambda>candidates.
     bindM (requireM (candidates \<noteq> []) (NoCandidates activityInstanceID)) (\<lambda>_.
     callS (UpdateActivityInstance
       (ai\<lparr>ai_Assignee := '''', ai_ClaimTime := None, ai_State := ActivityUnclaimed\<rparr>))))))"

end
