(* ===== verification/Rework.thy ===== *)
theory Rework imports Tasks begin

text \<open>
  The operations that send a task elsewhere: rejection (engine/reject.go), reclaiming
  (engine/reclaim.go), jumps, urging and copying (engine/jump_urge.go).
\<close>

section \<open>Searches in the definition\<close>

text \<open>
  The depth-first searches share one \<open>visited\<close> map between all branches, so they return it.
  The fuel bounds the depth; \<open>None\<close> is running out, which \<open>prevDFS_total\<close> and
  \<open>fwdDFS_total\<close> exclude for the fuel given here.
\<close>

fun prevDFS :: "nat \<Rightarrow> ProcessDefinition \<Rightarrow> string \<Rightarrow> string list \<Rightarrow> (string \<times> string list) option"
  and prevLoop :: "nat \<Rightarrow> ProcessDefinition \<Rightarrow> SequenceFlow list \<Rightarrow> string list \<Rightarrow> (string \<times> string list) option" where
  "prevDFS 0 def currentID visited = None"
| "prevDFS (Suc n) def currentID visited =
     (if currentID \<in> set visited then Some ('''', visited)
      else prevLoop n def (FindIncomingFlows (pd_SequenceFlows def) currentID) (currentID # visited))"
| "prevLoop n def [] visited = Some ('''', visited)"
| "prevLoop n def (sf # sfs) visited = (case element def (sf_SourceRef sf) of
       None \<Rightarrow> prevLoop n def sfs visited
     | Some sourceEl \<Rightarrow>
         if GetType sourceEl = ElementTypeUserTask \<or> GetType sourceEl = ElementTypeStartEvent
         then Some (sf_SourceRef sf, visited)
         else (case prevDFS n def (sf_SourceRef sf) visited of
             None \<Rightarrow> None
           | Some (found, visited') \<Rightarrow>
               if found \<noteq> '''' then Some (found, visited') else prevLoop n def sfs visited'))"

definition searchFuel :: "ProcessDefinition \<Rightarrow> nat" where
  "searchFuel def = length (pd_SequenceFlows def) + 2"

definition findPreviousUserTask :: "ProcessDefinition \<Rightarrow> string \<Rightarrow> string" where
  "findPreviousUserTask def currentID =
     (case prevDFS (searchFuel def) def currentID [] of None \<Rightarrow> '''' | Some (found, _) \<Rightarrow> found)"

fun fwdDFS :: "nat \<Rightarrow> ProcessDefinition \<Rightarrow> string \<Rightarrow> string list \<Rightarrow> (string \<times> string list) option"
  and fwdLoop :: "nat \<Rightarrow> ProcessDefinition \<Rightarrow> SequenceFlow list \<Rightarrow> string list \<Rightarrow> (string \<times> string list) option" where
  "fwdDFS 0 def currentID visited = None"
| "fwdDFS (Suc n) def currentID visited =
     (if currentID \<in> set visited then Some ('''', visited)
      else (case element def currentID of
          None \<Rightarrow> Some ('''', currentID # visited)
        | Some el \<Rightarrow>
            if GetType el = ElementTypeUserTask then Some (currentID, currentID # visited)
            else fwdLoop n def (FindOutgoingFlows (pd_SequenceFlows def) currentID) (currentID # visited)))"
| "fwdLoop n def [] visited = Some ('''', visited)"
| "fwdLoop n def (sf # sfs) visited = (case fwdDFS n def (sf_TargetRef sf) visited of
       None \<Rightarrow> None
     | Some (found, visited') \<Rightarrow>
         if found \<noteq> '''' then Some (found, visited') else fwdLoop n def sfs visited')"

definition findFirstUserTaskForward :: "ProcessDefinition \<Rightarrow> string \<Rightarrow> string" where
  "findFirstUserTaskForward def currentID =
     (case fwdDFS (searchFuel def) def currentID [] of None \<Rightarrow> '''' | Some (found, _) \<Rightarrow> found)"

definition findInitiatorTask :: "ProcessDefinition \<Rightarrow> string" where
  "findInitiatorTask def =
     (if element def (pd_StartEventID def) = None then ''''
      else case FindOutgoingFlows (pd_SequenceFlows def) (pd_StartEventID def) of
        [] \<Rightarrow> '''' | sf # _ \<Rightarrow> findFirstUserTaskForward def (sf_TargetRef sf))"

section \<open>Clean-up shared by the operations\<close>

definition delegatePrefixes :: "string list" where
  "delegatePrefixes = [''__delegate_to_'', ''__delegate_orig_'', ''__delegate_return_'']"

definition cleanDelegateVars :: "string \<Rightarrow> string \<Rightarrow> unit engM" where
  "cleanDelegateVars piID aiID = forM (\<lambda>key. delVar piID (key @ aiID)) delegatePrefixes"

text \<open>Deletes the variables of the sign sessions whose parent is the activity.\<close>

definition cleanSignVars :: "Env \<Rightarrow> string \<Rightarrow> string \<Rightarrow> unit engM" where
  "cleanSignVars E piID aiID =
     bindM (getVars piID) (\<lambda>vs2. rangeM E vs2 (\<lambda>(k, v).
       if isParentKey k \<and> v = GString aiID then
         (let prefix = parentKeyPrefix k
          in rangeM E vs2 (\<lambda>(k2, _).
               if length prefix < length k2 \<and> hasPrefix k2 prefix \<and> k2 ! length prefix = CHR ''_''
               then delVar piID k2 else returnM ()))
       else returnM ()))"

text \<open>A token and an active user task at an element, the assignee rendered from the definition.\<close>

definition assigneeFor :: "Env \<Rightarrow> ProcessDefinition \<Rightarrow> string \<Rightarrow> string \<Rightarrow> string engM" where
  "assigneeFor E def piID elementID = (case element def elementID of
       Some (UserTaskEl ut) \<Rightarrow> bindM (getVars piID) (\<lambda>vs. returnM (RenderTemplate E (ut_Assignee ut) vs))
     | _ \<Rightarrow> returnM '''')"

section \<open>Rejection\<close>

datatype RejectType = RejectPrevious | RejectInitiator | RejectSpecific | RejectTerminate | RejectOther string

definition defaultMaxRejection :: int where "defaultMaxRejection = 5"

definition maxRejection :: "vars \<Rightarrow> int" where
  "maxRejection vs = (let v = toFloat64 (map_of vs ''__maxRejectionCount'')
     in if 0 < v then truncRat v else defaultMaxRejection)"

text \<open>The element a rejection sends the task to.\<close>

definition rejectTarget :: "ProcessDefinition \<Rightarrow> string \<Rightarrow> RejectType \<Rightarrow> string \<Rightarrow> err + string" where
  "rejectTarget def activityID rejectType targetNodeID = (case rejectType of
       RejectPrevious \<Rightarrow> (let t = findPreviousUserTask def activityID
         in if t = '''' then Inl (NoPreviousTask activityID) else Inr t)
     | RejectInitiator \<Rightarrow> (let t = findInitiatorTask def
         in if t = '''' then Inl NoInitiatorTask else Inr t)
     | RejectSpecific \<Rightarrow>
         (if targetNodeID = '''' then Inl TargetRequired
          else if element def targetNodeID = None then Inl (TargetNotInDefinition targetNodeID)
          else Inr targetNodeID)
     | RejectTerminate \<Rightarrow> Inl (UnknownRejectType [])
     | RejectOther s \<Rightarrow> Inl (UnknownRejectType s))"

definition rejectTerminate :: "Env \<Rightarrow> ProcessInstance \<Rightarrow> ActivityInstance \<Rightarrow> string \<Rightarrow> unit engM" where
  "rejectTerminate E p ai reason =
     bindM (ignoreM () (completeActivity E ai)) (\<lambda>_.
     bindM (ignoreM [] (listTokens E (pi_ID p))) (\<lambda>toks.
     bindM (forM (\<lambda>tok. ignoreM () (consumeToken tok)) toks) (\<lambda>_.
     bindM (nowM E) (\<lambda>now.
     bindM (ignoreM () (callS (UpdateProcessInstance (p\<lparr>pi_State := Rejected, pi_EndedAt := Some now\<rparr>)))) (\<lambda>_.
     setVar (pi_ID p) ''__rejectionReason'' (GString reason))))))"

definition rejectTo ::
  "Env \<Rightarrow> ProcessDefinition \<Rightarrow> ProcessInstance \<Rightarrow> ActivityInstance \<Rightarrow> RejectType \<Rightarrow> string \<Rightarrow> rat \<Rightarrow> string \<Rightarrow> unit engM" where
  "rejectTo E def p ai rejectType reason rejectionCount targetElementID =
     bindM (ignoreM () (completeActivity E ai)) (\<lambda>_.
     bindM (ignoreM [] (listTokens E (pi_ID p))) (\<lambda>toks.
     bindM (case find (\<lambda>tok. tok_CurrentElementID tok = ai_ActivityID ai \<and> tok_State tok = TokenActive) toks of
         None \<Rightarrow> returnM () | Some tok \<Rightarrow> consumeToken tok) (\<lambda>_.
     bindM (newToken E (pi_ID p) targetElementID) (\<lambda>newTok.
     bindM (callS (CreateToken newTok)) (\<lambda>_.
     bindM (newActivity E (pi_ID p) targetElementID ElementTypeUserTask) (\<lambda>newAI.
     bindM (assigneeFor E def (pi_ID p) targetElementID) (\<lambda>assignee.
     bindM (callS (CreateActivityInstance (newAI\<lparr>ai_Assignee := assignee\<rparr>))) (\<lambda>_.
     bindM (callS (SetVariable (pi_ID p) ''__rejectionCount'' (GFloat (rejectionCount + 1)))) (\<lambda>_.
     bindM (cleanDelegateVars (pi_ID p) (ai_ID ai)) (\<lambda>_.
     bindM (if reason \<noteq> '''' then setVar (pi_ID p) ''__rejectionReason'' (GString reason) else returnM ()) (\<lambda>_.
     if rejectType = RejectInitiator then setVar (pi_ID p) ''__rejectedToInitiator'' (GBool True)
     else returnM ())))))))))))"

definition RejectTask :: "Env \<Rightarrow> string \<Rightarrow> RejectType \<Rightarrow> string \<Rightarrow> string \<Rightarrow> unit engM" where
  "RejectTask E activityInstanceID rejectType reason targetNodeID =
     bindM (callS (GetActivityInstance activityInstanceID)) (\<lambda>ai.
     bindM (requireM (ai_State ai = ActivityActive) (NotActive activityInstanceID)) (\<lambda>_.
     bindM (requireM (ai_ActivityType ai = ElementTypeUserTask) (NotUserTask activityInstanceID)) (\<lambda>_.
     bindM (callS (GetProcessInstance (ai_ProcessInstanceID ai))) (\<lambda>p.
     bindM (requireM (pi_State p = Running) (InstanceNotRunning (pi_ID p))) (\<lambda>_.
     bindM (callS (GetProcessDefinition (pi_ProcessDefinitionID p))) (\<lambda>def.
     bindM (callS (GetAllVariables (pi_ID p))) (\<lambda>allVars.
     let rejectionCount = toFloat64 (map_of allVars ''__rejectionCount'')
     in bindM (requireM (truncRat rejectionCount < maxRejection allVars)
          (RejectionLimit (truncRat rejectionCount) (maxRejection allVars))) (\<lambda>_.
        if rejectType = RejectTerminate then rejectTerminate E p ai reason
        else bindM (liftE (rejectTarget def (ai_ActivityID ai) rejectType targetNodeID)) (\<lambda>targetElementID.
          rejectTo E def p ai rejectType reason rejectionCount targetElementID)))))))))"

section \<open>Reclaiming\<close>

text \<open>
  The loop over the activities: the element of the completed user task, at another element
  than the current one, with the latest completion time.
\<close>

definition latestStep :: "string \<Rightarrow> ActivityInstance \<Rightarrow> int \<times> string \<Rightarrow> int \<times> string" where
  "latestStep currentElementID a = (\<lambda>(latest, prev). case ai_CompletedTime a of
       None \<Rightarrow> (latest, prev)
     | Some t \<Rightarrow>
         if ai_State a = ActivityCompleted \<and> ai_ActivityType a = ElementTypeUserTask
            \<and> ai_ActivityID a \<noteq> currentElementID \<and> latest < t
         then (t, ai_ActivityID a) else (latest, prev))"

definition previousActivity :: "string \<Rightarrow> ActivityInstance list \<Rightarrow> string" where
  "previousActivity currentElementID acts =
     snd (fold (latestStep currentElementID) acts (zeroTime, ''''))"

definition ReclaimTask :: "Env \<Rightarrow> string \<Rightarrow> unit engM" where
  "ReclaimTask E currentActivityID =
     bindM (callS (GetActivityInstance currentActivityID)) (\<lambda>ai.
     bindM (requireM (ai_State ai = ActivityActive) (NotActive currentActivityID)) (\<lambda>_.
     bindM (requireM (ai_AdhocParentID ai = '''') ReclaimSign) (\<lambda>_.
     bindM (callS (GetProcessInstance (ai_ProcessInstanceID ai))) (\<lambda>p.
     bindM (callS (GetProcessDefinition (pi_ProcessDefinitionID p))) (\<lambda>def.
     bindM (ignoreM [] (rangeS E (\<lambda>ord. ListActivitiesByProcessInstance ord (pi_ID p)))) (\<lambda>allActs.
     let prevActivityID = previousActivity (ai_ActivityID ai) allActs
     in bindM (requireM (prevActivityID \<noteq> '''') NoPreviousActivity) (\<lambda>_.
        bindM (ignoreM () (completeActivity E ai)) (\<lambda>_.
        bindM (dropFirstAt E (pi_ID p) (ai_ActivityID ai)) (\<lambda>_.
        bindM (newToken E (pi_ID p) prevActivityID) (\<lambda>newTok.
        bindM (ignoreM () (callS (CreateToken newTok))) (\<lambda>_.
        bindM (newActivity E (pi_ID p) prevActivityID (ai_ActivityType ai)) (\<lambda>newAI.
        bindM (assigneeFor E def (pi_ID p) prevActivityID) (\<lambda>assignee.
        bindM (ignoreM () (callS (CreateActivityInstance (newAI\<lparr>ai_Assignee := assignee\<rparr>)))) (\<lambda>_.
        bindM (completeSigns E (pi_ID p) (ai_ID ai)) (\<lambda>_.
        bindM (cleanSignVars E (pi_ID p) (ai_ID ai)) (\<lambda>_.
        bindM (cleanDelegateVars (pi_ID p) (ai_ID ai)) (\<lambda>_.
        setVar (pi_ID p) (''__reclaimed_'' @ ai_ID ai) (GString prevActivityID))))))))))))))))))"

section \<open>Jumps\<close>

definition arriveAtJumpTarget ::
  "Env \<Rightarrow> navF \<Rightarrow> ProcessDefinition \<Rightarrow> ProcessInstance \<Rightarrow> ActivityInstance \<Rightarrow> string \<Rightarrow> FlowElement \<Rightarrow> unit engM" where
  "arriveAtJumpTarget E nav def p ai targetNodeID targetEl =
     (if GetType targetEl = ElementTypeEndEvent then nav (pi_ID p) targetNodeID
      else
        bindM (if GetType targetEl = ElementTypeUserTask then
            bindM (newActivity E (pi_ID p) targetNodeID ElementTypeUserTask) (\<lambda>newAI.
            bindM (assigneeFor E def (pi_ID p) targetNodeID) (\<lambda>assignee.
            callS (CreateActivityInstance (newAI\<lparr>ai_Assignee := assignee\<rparr>))))
          else returnM ()) (\<lambda>_.
        setVar (pi_ID p) (''__jump_from_'' @ ai_ID ai) (GString targetNodeID)))"

definition JumpTask :: "Env \<Rightarrow> nat \<Rightarrow> string \<Rightarrow> string \<Rightarrow> unit engM" where
  "JumpTask E fuel activityInstanceID targetNodeID =
     bindM (callS (GetActivityInstance activityInstanceID)) (\<lambda>ai.
     bindM (requireM (ai_State ai = ActivityActive) (NotActive activityInstanceID)) (\<lambda>_.
     bindM (requireM (ai_ActivityType ai = ElementTypeUserTask) (NotUserTask activityInstanceID)) (\<lambda>_.
     bindM (requireM (ai_AdhocParentID ai = '''') JumpSign) (\<lambda>_.
     bindM (callS (GetProcessInstance (ai_ProcessInstanceID ai))) (\<lambda>p.
     bindM (callS (GetProcessDefinition (pi_ProcessDefinitionID p))) (\<lambda>def.
     case element def targetNodeID of
       None \<Rightarrow> throwM (TargetNotInDefinition targetNodeID)
     | Some targetEl \<Rightarrow>
         bindM (completeActivity E ai) (\<lambda>_.
         bindM (listTokens E (pi_ID p)) (\<lambda>toks.
         bindM (case find (\<lambda>tok. tok_CurrentElementID tok = ai_ActivityID ai \<and> tok_State tok = TokenActive) toks of
             None \<Rightarrow> returnM () | Some tok \<Rightarrow> consumeToken tok) (\<lambda>_.
         bindM (completeSigns E (pi_ID p) (ai_ID ai)) (\<lambda>_.
         bindM (cleanSignVars E (pi_ID p) (ai_ID ai)) (\<lambda>_.
         bindM (cleanDelegateVars (pi_ID p) (ai_ID ai)) (\<lambda>_.
         bindM (newToken E (pi_ID p) targetNodeID) (\<lambda>newTok.
         bindM (callS (CreateToken newTok)) (\<lambda>_.
         arriveAtJumpTarget E (navigateFrom E fuel) def p ai targetNodeID targetEl))))))))))))))"

section \<open>Urging and copying\<close>

definition UrgeTask :: "string \<Rightarrow> string engM" where
  "UrgeTask activityInstanceID =
     bindM (callS (GetActivityInstance activityInstanceID)) (\<lambda>ai.
     bindM (requireM (ai_State ai = ActivityActive) (NotActive activityInstanceID)) (\<lambda>_.
     bindM (tryM (callS (GetProcessInstance (ai_ProcessInstanceID ai)))) (\<lambda>r. case r of
       Inl _ \<Rightarrow> throwM Panic
     | Inr p \<Rightarrow>
         bindM (getVars (pi_ID p)) (\<lambda>vs.
         let urgeKey = ''__urge_count_'' @ ai_ProcessInstanceID ai
         in bindM (setVar (pi_ID p) urgeKey (GFloat (assertFloat (map_of vs urgeKey) + 1))) (\<lambda>_.
            returnM (ai_Assignee ai))))))"

definition CcTask :: "Env \<Rightarrow> string \<Rightarrow> string \<Rightarrow> unit engM" where
  "CcTask E processInstanceID ccUser =
     bindM (callS (GetProcessInstance processInstanceID)) (\<lambda>p.
     bindM (newID E) (\<lambda>i.
     ignoreM () (callS (CreateHistoricActivityInstance
       \<lparr>hai_ID = i, hai_ProcessInstanceID = pi_ID p, hai_TenantID = '''', hai_ActivityID = ''cc_'' @ ccUser,
        hai_ActivityType = ElementTypeUserTask,
        hai_Variables = [(''cc'', GBool True), (''ccUser'', GString ccUser)],
        hai_StartedAt = zeroTime, hai_CompletedAt = zeroTime\<rparr>))))"

end
