(* ===== verification/Lifecycle.thy ===== *)
theory Lifecycle imports Rework begin

text \<open>
  Process instances from start to end (engine/engine.go), signals, timeouts
  (engine/timeout.go) and deployment (engine/deployment.go).
\<close>

section \<open>Starting\<close>

text \<open>
  The object returned is the one the memory store holds, so it is read back at the end: it
  shows what navigation has done to the instance.
\<close>

definition StartProcessInstanceWithBusinessKey ::
  "Env \<Rightarrow> nat \<Rightarrow> string \<Rightarrow> string \<Rightarrow> string \<Rightarrow> vars \<Rightarrow> ProcessInstance engM" where
  "StartProcessInstanceWithBusinessKey E fuel defID businessKey tenantID vs =
     bindM (callS (GetProcessDefinition defID)) (\<lambda>def.
     bindM tickM (\<lambda>n.
     bindM (case Validate (iter E n) def of None \<Rightarrow> returnM () | Some e \<Rightarrow> throwM (InvalidDefinition e)) (\<lambda>_.
     bindM (newID E) (\<lambda>i.
     bindM (nowM E) (\<lambda>now.
     let p = (NewProcessInstance now i defID vs)\<lparr>pi_BusinessKey := businessKey, pi_TenantID := tenantID\<rparr>
     in bindM (callS (CreateProcessInstance p)) (\<lambda>_.
        bindM (rangeM E vs (\<lambda>(k, v). callS (SetVariable (pi_ID p) k v))) (\<lambda>_.
        bindM (startFrom E (navigateFrom E fuel) def p) (\<lambda>_.
        callS (GetProcessInstance i)))))))))"

definition StartProcessInstance :: "Env \<Rightarrow> nat \<Rightarrow> string \<Rightarrow> vars \<Rightarrow> ProcessInstance engM" where
  "StartProcessInstance E fuel defID vs = StartProcessInstanceWithBusinessKey E fuel defID '''' '''' vs"

definition StartProcessInstanceByKey ::
  "Env \<Rightarrow> nat \<Rightarrow> string \<Rightarrow> string \<Rightarrow> string \<Rightarrow> vars \<Rightarrow> ProcessInstance engM" where
  "StartProcessInstanceByKey E fuel key businessKey tenantID vs =
     bindM (rangeS E (\<lambda>ord. GetLatestProcessDefinitionByKey ord key)) (\<lambda>def.
     StartProcessInstanceWithBusinessKey E fuel (pd_ID def) businessKey tenantID vs)"

section \<open>Suspending, resuming, terminating\<close>

definition SuspendProcessInstance :: "string \<Rightarrow> unit engM" where
  "SuspendProcessInstance processInstanceID =
     bindM (callS (GetProcessInstance processInstanceID)) (\<lambda>p.
     bindM (requireM (pi_State p = Running) (InstanceNotRunning processInstanceID)) (\<lambda>_.
     callS (UpdateProcessInstance (p\<lparr>pi_State := Suspended\<rparr>))))"

definition ResumeProcessInstance :: "string \<Rightarrow> unit engM" where
  "ResumeProcessInstance processInstanceID =
     bindM (callS (GetProcessInstance processInstanceID)) (\<lambda>p.
     bindM (requireM (pi_State p = Suspended) (InstanceNotSuspended processInstanceID)) (\<lambda>_.
     callS (UpdateProcessInstance (p\<lparr>pi_State := Running\<rparr>))))"

definition TerminateProcessInstance :: "Env \<Rightarrow> string \<Rightarrow> unit engM" where
  "TerminateProcessInstance E processInstanceID =
     bindM (callS (GetProcessInstance processInstanceID)) (\<lambda>p.
     bindM (requireM (pi_State p \<noteq> Completed \<and> pi_State p \<noteq> Terminated)
       (InstanceEnded processInstanceID)) (\<lambda>_.
     bindM (listTokens E processInstanceID) (\<lambda>toks.
     bindM (forM consumeToken toks) (\<lambda>_.
     bindM (rangeS E (\<lambda>ord. ListActiveActivities ord processInstanceID)) (\<lambda>acts.
     bindM (forM (completeActivity E) acts) (\<lambda>_.
     bindM (nowM E) (\<lambda>now.
     callS (UpdateProcessInstance (p\<lparr>pi_State := Terminated, pi_EndedAt := Some now\<rparr>)))))))))"

section \<open>Signals and messages\<close>

definition ReceiveSignal :: "Env \<Rightarrow> nat \<Rightarrow> string \<Rightarrow> unit engM" where
  "ReceiveSignal E fuel signalRef = fireSignal E (navigateFrom E fuel) signalRef"

definition ReceiveMessage :: "Env \<Rightarrow> nat \<Rightarrow> string \<Rightarrow> unit engM" where
  "ReceiveMessage E fuel messageRef = ReceiveSignal E fuel messageRef"

section \<open>Timeouts\<close>

definition SetTimeout :: "Env \<Rightarrow> string \<Rightarrow> int \<Rightarrow> int \<Rightarrow> unit engM" where
  "SetTimeout E activityInstanceID duration termMode =
     bindM (callS (GetActivityInstance activityInstanceID)) (\<lambda>ai.
     bindM (requireM (ai_State ai = ActivityActive) (NotActive activityInstanceID)) (\<lambda>_.
     bindM (nowM E) (\<lambda>now.
     callS (UpdateActivityInstance (ai\<lparr>ai_ExpireTime := Some (now + duration), ai_TermMode := termMode\<rparr>)))))"

definition autoVars :: "bool \<Rightarrow> vars" where
  "autoVars approved = [(''approved'', GBool approved), (''__auto'', GBool True)]"

definition autoCompleteTask :: "Env \<Rightarrow> nat \<Rightarrow> ActivityInstance \<Rightarrow> unit engM" where
  "autoCompleteTask E fuel ai = CompleteTask E fuel (ai_ID ai) (autoVars True)"

definition autoRejectTask :: "Env \<Rightarrow> nat \<Rightarrow> ActivityInstance \<Rightarrow> unit engM" where
  "autoRejectTask E fuel ai = CompleteTask E fuel (ai_ID ai) (autoVars False)"

text \<open>
  \<open>CheckTimeouts\<close> returns its count even together with an error: the result is the count and
  the error that stopped it, if any.
\<close>

type_synonym tally = "int \<times> err option"

primrec checkActivities :: "Env \<Rightarrow> nat \<Rightarrow> int \<Rightarrow> ActivityInstance list \<Rightarrow> tally engM" where
  "checkActivities E fuel count [] = returnM (count, None)"
| "checkActivities E fuel count (ai # ais) = (case ai_ExpireTime ai of
       None \<Rightarrow> checkActivities E fuel count ais
     | Some expire \<Rightarrow>
         if ai_TermMode ai = 0 then checkActivities E fuel count ais
         else bindM (nowM E) (\<lambda>now.
           if \<not> expire < now then checkActivities E fuel count ais
           else if ai_TermMode ai = 1 then
             bindM (tryM (autoCompleteTask E fuel ai)) (\<lambda>r. case r of
               Inl e \<Rightarrow> returnM (count, Some e) | Inr _ \<Rightarrow> checkActivities E fuel (count + 1) ais)
           else if ai_TermMode ai = 2 then
             bindM (tryM (autoRejectTask E fuel ai)) (\<lambda>r. case r of
               Inl e \<Rightarrow> returnM (count, Some e) | Inr _ \<Rightarrow> checkActivities E fuel (count + 1) ais)
           else checkActivities E fuel count ais))"

text \<open>The listed instances are pointers: their state is looked at when their turn comes.\<close>

primrec checkInstances :: "Env \<Rightarrow> nat \<Rightarrow> int \<Rightarrow> ProcessInstance list \<Rightarrow> tally engM" where
  "checkInstances E fuel count [] = returnM (count, None)"
| "checkInstances E fuel count (p # ps) =
     bindM (callS (GetProcessInstance (pi_ID p))) (\<lambda>p'.
     if pi_State p' \<noteq> Running then checkInstances E fuel count ps
     else bindM (tryM (rangeS E (\<lambda>ord. ListActiveActivities ord (pi_ID p)))) (\<lambda>r. case r of
         Inl _ \<Rightarrow> checkInstances E fuel count ps
       | Inr acts \<Rightarrow>
           bindM (checkActivities E fuel count acts) (\<lambda>(count', failed). case failed of
             Some e \<Rightarrow> returnM (count', Some e) | None \<Rightarrow> checkInstances E fuel count' ps)))"

primrec checkDefinitions :: "Env \<Rightarrow> nat \<Rightarrow> int \<Rightarrow> ProcessDefinition list \<Rightarrow> tally engM" where
  "checkDefinitions E fuel count [] = returnM (count, None)"
| "checkDefinitions E fuel count (def # defs) =
     bindM (tryM (rangeS E (\<lambda>ord. ListProcessInstances ord (pd_ID def)))) (\<lambda>r. case r of
         Inl _ \<Rightarrow> checkDefinitions E fuel count defs
       | Inr ps \<Rightarrow>
           bindM (checkInstances E fuel count ps) (\<lambda>(count', failed). case failed of
             Some e \<Rightarrow> returnM (count', Some e) | None \<Rightarrow> checkDefinitions E fuel count' defs))"

definition CheckTimeouts :: "Env \<Rightarrow> nat \<Rightarrow> tally engM" where
  "CheckTimeouts E fuel =
     bindM (rangeS E ListProcessDefinitions) (checkDefinitions E fuel 0)"

section \<open>Deployment\<close>

text \<open>The identifier given to version \<open>v\<close> of a key: \<open>fmt.Sprintf("%s:v%d", key, v)\<close>.\<close>

definition deployedID :: "string \<Rightarrow> int \<Rightarrow> string" where
  "deployedID key v = key @ '':v'' @ fmtDec v"

definition DeployProcessDefinition :: "Env \<Rightarrow> ProcessDefinition \<Rightarrow> ProcessDefinition engM" where
  "DeployProcessDefinition E def =
     bindM (requireM (pd_Key def \<noteq> '''') KeyRequired) (\<lambda>_.
     bindM (tryM (rangeS E (\<lambda>ord. GetLatestProcessDefinitionByKey ord (pd_Key def)))) (\<lambda>r.
     bindM (case r of
         Inr existing \<Rightarrow> returnM (wrap64 (pd_Version existing + 1))
       | Inl (NotFound _) \<Rightarrow> returnM 1
       | Inl e \<Rightarrow> throwM e) (\<lambda>version.
     let def' = def\<lparr>pd_Version := version, pd_ID := deployedID (pd_Key def) version\<rparr>
     in bindM (callS (CreateProcessDefinition def')) (\<lambda>_. returnM def'))))"

definition GetDeployedDefinition :: "Env \<Rightarrow> string \<Rightarrow> ProcessDefinition engM" where
  "GetDeployedDefinition E key = rangeS E (\<lambda>ord. GetLatestProcessDefinitionByKey ord key)"

definition ListDeployedDefinitions :: "Env \<Rightarrow> ProcessDefinition list engM" where
  "ListDeployedDefinitions E = rangeS E ListProcessDefinitions"

end
