(* ===== verification/Api.thy ===== *)
theory Api imports Lifecycle begin

text \<open>
  The package api: pages (api/workflow_interface.go), the definition and query services
  (api/definition_impl.go, api/query_impl.go), and the commands of the workflow engine
  (api/workflow_impl.go) as one datatype with its interpretation.
\<close>

section \<open>Pages\<close>

record PageRequest =
  pr_Page :: int
  pr_PageSize :: int
  pr_SortBy :: string
  pr_SortDesc :: bool

record 'a Page =
  pg_Items :: "'a list"
  pg_Total :: int
  pg_Page :: int
  pg_PageSize :: int
  pg_TotalPages :: int

definition goMod :: "int \<Rightarrow> int \<Rightarrow> int" where
  "goMod a b = a - goDiv a b * b"

definition NewPage :: "'a list \<Rightarrow> int \<Rightarrow> int \<Rightarrow> int \<Rightarrow> 'a Page" where
  "NewPage items total' page pageSize =
     (let totalPages = goDiv total' pageSize
      in \<lparr>pg_Items = items, pg_Total = total', pg_Page = page, pg_PageSize = pageSize,
          pg_TotalPages = (if 0 < goMod total' pageSize then totalPages + 1 else totalPages)\<rparr>)"

definition DefaultPageRequest :: PageRequest where
  "DefaultPageRequest = \<lparr>pr_Page = 1, pr_PageSize = 20, pr_SortBy = '''', pr_SortDesc = False\<rparr>"

definition emptyPage :: "'a Page" where
  "emptyPage = \<lparr>pg_Items = [], pg_Total = 0, pg_Page = 0, pg_PageSize = 0, pg_TotalPages = 0\<rparr>"

definition Offset :: "PageRequest \<Rightarrow> int" where
  "Offset p = (if pr_Page p < 1 then 0 else wrap64 (wrap64 (pr_Page p - 1) * pr_PageSize p))"

definition Limit :: "PageRequest \<Rightarrow> int" where
  "Limit p = (if pr_PageSize p < 1 then 20 else pr_PageSize p)"

section \<open>Filters\<close>

record ProcessInstanceFilter =
  pf_DefKey :: string
  pf_DefID :: string
  pf_BusinessKey :: string
  pf_TenantID :: string
  pf_State :: string
  pf_Assignee :: string
  pf_Initiator :: string
  pf_StartAfter :: "int option"
  pf_StartBefore :: "int option"
  pf_Keyword :: string

record ActivityFilter =
  af_ProcessInstanceID :: string
  af_Assignee :: string
  af_ActivityID :: string
  af_ActivityType :: string
  af_State :: string
  af_IsSign :: "bool option"
  af_TenantID :: string

record HistoryFilter =
  hf_ProcessInstanceID :: string
  hf_ActivityID :: string
  hf_ActivityType :: string
  hf_CompletedAfter :: "int option"
  hf_CompletedBefore :: "int option"
  hf_Assignee :: string
  hf_TenantID :: string

record DefinitionFilter =
  df_Key :: string
  df_Name :: string
  df_Version :: int
  df_TenantID :: string

section \<open>The query service\<close>

text \<open>A query of the store; \<open>None\<close> is a slice out of range, which panics.\<close>

definition queryS :: "Env \<Rightarrow> (order \<Rightarrow> Store \<Rightarrow> 'a option) \<Rightarrow> 'a engM" where
  "queryS E q = bindM tickM (\<lambda>n. bindM (getsM (\<lambda>w. q (iter E n) (st w))) (\<lambda>r.
     case r of None \<Rightarrow> throwM Panic | Some x \<Rightarrow> returnM x))"

definition pageOf :: "PageRequest \<Rightarrow> ('a list \<times> int) engM \<Rightarrow> 'a Page engM" where
  "pageOf page m = bindM m (\<lambda>(results, n). returnM (NewPage results n (pr_Page page) (Limit page)))"

definition GetInstance :: "string \<Rightarrow> ProcessInstance engM" where
  "GetInstance processInstanceID = callS (GetProcessInstance processInstanceID)"

definition ListInstances :: "Env \<Rightarrow> ProcessInstanceFilter \<Rightarrow> PageRequest \<Rightarrow> ProcessInstance Page engM" where
  "ListInstances E f page = pageOf page (queryS E (\<lambda>ord. QueryProcessInstances ord
     \<lparr>iq_DefID = pf_DefID f, iq_State = pf_State f, iq_DefKey = pf_DefKey f, iq_Assignee = '''',
      iq_Initiator = pf_Initiator f, iq_BusinessKey = pf_BusinessKey f, iq_TenantID = pf_TenantID f,
      iq_StartAfter = pf_StartAfter f, iq_StartBefore = pf_StartBefore f,
      iq_Offset = Offset page, iq_Limit = Limit page\<rparr>))"

definition ListCompletedInstances ::
  "Env \<Rightarrow> ProcessInstanceFilter \<Rightarrow> PageRequest \<Rightarrow> ProcessInstance Page engM" where
  "ListCompletedInstances E f page = pageOf page (queryS E (\<lambda>ord. QueryProcessInstances ord
     \<lparr>iq_DefID = '''', iq_State = piStateString Completed, iq_DefKey = pf_DefKey f, iq_Assignee = '''',
      iq_Initiator = '''', iq_BusinessKey = '''', iq_TenantID = '''',
      iq_StartAfter = pf_StartAfter f, iq_StartBefore = pf_StartBefore f,
      iq_Offset = Offset page, iq_Limit = Limit page\<rparr>))"

definition ListPendingActivities :: "Env \<Rightarrow> ActivityFilter \<Rightarrow> PageRequest \<Rightarrow> ActivityInstance Page engM" where
  "ListPendingActivities E f page =
     (if af_ProcessInstanceID f = '''' then returnM emptyPage
      else pageOf page (queryS E (\<lambda>ord. QueryActivities ord
        \<lparr>aq_ProcessInstanceID = af_ProcessInstanceID f, aq_Assignee = af_Assignee f,
         aq_ActivityID = af_ActivityID f, aq_ActivityType = af_ActivityType f,
         aq_State = actStateString ActivityActive, aq_IsSign = af_IsSign f, aq_TenantID = af_TenantID f,
         aq_Offset = Offset page, aq_Limit = Limit page\<rparr>)))"

definition ListActivitiesByProcess ::
  "Env \<Rightarrow> string \<Rightarrow> ActivityFilter \<Rightarrow> PageRequest \<Rightarrow> ActivityInstance Page engM" where
  "ListActivitiesByProcess E piID f page = pageOf page (queryS E (\<lambda>ord. QueryActivities ord
     \<lparr>aq_ProcessInstanceID = piID, aq_Assignee = af_Assignee f,
      aq_ActivityID = af_ActivityID f, aq_ActivityType = af_ActivityType f,
      aq_State = af_State f, aq_IsSign = af_IsSign f, aq_TenantID = af_TenantID f,
      aq_Offset = Offset page, aq_Limit = Limit page\<rparr>))"

definition getActivityCandidates :: "ActivityInstance \<Rightarrow> string list engM" where
  "getActivityCandidates a =
     bindM (tryM (callS (GetVariable (ai_ProcessInstanceID a) (''__candidates_'' @ ai_ID a)))) (\<lambda>r.
     returnM (case r of
         Inr (GList v) \<Rightarrow> concat (map (\<lambda>c. case c of GString s \<Rightarrow> [s] | _ \<Rightarrow> []) v)
       | _ \<Rightarrow> []))"

text \<open>The loop over the unclaimed activities, with the results and the total found so far.\<close>

primrec addUnclaimed ::
  "string \<Rightarrow> ActivityInstance list \<Rightarrow> ActivityInstance list \<times> int \<Rightarrow> (ActivityInstance list \<times> int) engM" where
  "addUnclaimed assignee [] acc = returnM acc"
| "addUnclaimed assignee (a # as) acc =
     bindM (getActivityCandidates a) (\<lambda>candidates.
     addUnclaimed assignee as
       (if assignee \<in> set candidates then (fst acc @ [a], snd acc + 1) else acc))"

text \<open>The page is cut a second time from the merged results; a slice out of range panics.\<close>

definition repaginate :: "PageRequest \<Rightarrow> 'a list \<Rightarrow> 'a list option" where
  "repaginate page results =
     (if Limit page < int (length results) then
        (let end1 = wrap64 (Offset page + Limit page);
             end2 = (if int (length results) < end1 then int (length results) else end1)
         in if Offset page < int (length results) then
              (if Offset page < 0 \<or> end2 < Offset page then None
               else Some (take (nat (end2 - Offset page)) (drop (nat (Offset page)) results)))
            else Some results)
      else Some results)"

definition ListMyPendingActivities :: "Env \<Rightarrow> string \<Rightarrow> PageRequest \<Rightarrow> ActivityInstance Page engM" where
  "ListMyPendingActivities E assignee page =
     bindM (queryS E (\<lambda>ord. QueryActivities ord
       \<lparr>aq_ProcessInstanceID = '''', aq_Assignee = assignee, aq_ActivityID = '''', aq_ActivityType = '''',
        aq_State = actStateString ActivityActive, aq_IsSign = None, aq_TenantID = '''',
        aq_Offset = Offset page, aq_Limit = Limit page\<rparr>)) (\<lambda>mine.
     bindM (queryS E (\<lambda>ord. QueryActivities ord
       \<lparr>aq_ProcessInstanceID = '''', aq_Assignee = '''', aq_ActivityID = '''', aq_ActivityType = '''',
        aq_State = actStateString ActivityUnclaimed, aq_IsSign = None, aq_TenantID = '''',
        aq_Offset = 0, aq_Limit = 9999\<rparr>)) (\<lambda>(unclaimed, _).
     bindM (addUnclaimed assignee unclaimed mine) (\<lambda>(results, n).
     case repaginate page results of
       None \<Rightarrow> throwM Panic
     | Some shown \<Rightarrow> returnM (NewPage shown n (pr_Page page) (Limit page)))))"

definition ListHistoryByProcess ::
  "Env \<Rightarrow> HistoryFilter \<Rightarrow> PageRequest \<Rightarrow> HistoricActivityInstance Page engM" where
  "ListHistoryByProcess E f page =
     (if hf_ProcessInstanceID f = '''' then returnM emptyPage
      else pageOf page (queryS E (\<lambda>ord. QueryHistoricActivities ord
        \<lparr>hq_ProcessInstanceID = hf_ProcessInstanceID f, hq_ActivityID = hf_ActivityID f,
         hq_Assignee = hf_Assignee f, hq_TenantID = hf_TenantID f,
         hq_CompletedAfter = hf_CompletedAfter f, hq_CompletedBefore = hf_CompletedBefore f,
         hq_Offset = Offset page, hq_Limit = Limit page\<rparr>)))"

definition GetVariables :: "string \<Rightarrow> vars engM" where
  "GetVariables processInstanceID = callS (GetAllVariables processInstanceID)"

text \<open>The counting loops of \<open>CountByState\<close>.\<close>

definition countInstances :: "ProcessInstance list \<Rightarrow> (ProcessInstanceState \<Rightarrow> int) \<Rightarrow> ProcessInstanceState \<Rightarrow> int" where
  "countInstances ps result = fold (\<lambda>p r. r(pi_State p := r (pi_State p) + 1)) ps result"

primrec countDefinitions ::
  "Env \<Rightarrow> ProcessDefinition list \<Rightarrow> (ProcessInstanceState \<Rightarrow> int) \<Rightarrow> (ProcessInstanceState \<Rightarrow> int) engM" where
  "countDefinitions E [] result = returnM result"
| "countDefinitions E (def # defs) result =
     bindM (tryM (rangeS E (\<lambda>ord. ListProcessInstances ord (pd_ID def)))) (\<lambda>r. case r of
         Inl _ \<Rightarrow> countDefinitions E defs result
       | Inr ps \<Rightarrow> countDefinitions E defs (countInstances ps result))"

definition CountByState :: "Env \<Rightarrow> (ProcessInstanceState \<Rightarrow> int) engM" where
  "CountByState E = bindM (rangeS E ListProcessDefinitions) (\<lambda>defs. countDefinitions E defs (\<lambda>_. 0))"

section \<open>The definition service\<close>

definition Deploy :: "Env \<Rightarrow> ProcessDefinition \<Rightarrow> ProcessDefinition engM" where
  "Deploy E def = DeployProcessDefinition E def"

definition GetByID :: "string \<Rightarrow> ProcessDefinition engM" where
  "GetByID i = callS (GetProcessDefinition i)"

definition GetByKey :: "Env \<Rightarrow> string \<Rightarrow> ProcessDefinition engM" where
  "GetByKey E key = rangeS E (\<lambda>ord. GetLatestProcessDefinitionByKey ord key)"

definition GetByKeyVersion :: "Env \<Rightarrow> string \<Rightarrow> int \<Rightarrow> ProcessDefinition engM" where
  "GetByKeyVersion E key version = rangeS E (\<lambda>ord. GetProcessDefinitionByKeyVersion ord key version)"

definition ListDefinitions :: "Env \<Rightarrow> DefinitionFilter \<Rightarrow> PageRequest \<Rightarrow> ProcessDefinition Page engM" where
  "ListDefinitions E f page = pageOf page (queryS E (\<lambda>ord. QueryDefinitions ord
     \<lparr>dq_Key = df_Key f, dq_Name = df_Name f, dq_Version = df_Version f, dq_TenantID = '''',
      dq_Offset = Offset page, dq_Limit = Limit page\<rparr>))"

definition DeleteDefinition :: "string \<Rightarrow> unit engM" where
  "DeleteDefinition i = callS (DeleteProcessDefinition i)"

section \<open>The commands of the workflow engine\<close>

datatype command =
    CStart string vars
  | CStartByKey string string vars
  | CSuspend string
  | CResume string
  | CTerminate string
  | CComplete string vars
  | CClaim string string
  | CUnclaim string
  | CTransfer string string
  | CDelegate string string
  | CReclaim string
  | CReject string RejectType string string
  | CJump string string
  | CUrge string
  | CCc string string
  | CAddSign string SignType SignStrategy "string list"
  | CRemoveSign string string
  | CSetTimeout string int int
  | CCheckTimeouts
  | CSignal string
  | CMessage string

definition voidM :: "'a engM \<Rightarrow> unit engM" where
  "voidM m = bindM m (\<lambda>_. returnM ())"

fun exec :: "Env \<Rightarrow> nat \<Rightarrow> command \<Rightarrow> unit engM" where
  "exec E fuel (CStart defID vs) = voidM (StartProcessInstance E fuel defID vs)"
| "exec E fuel (CStartByKey key businessKey vs) = voidM (StartProcessInstanceByKey E fuel key businessKey '''' vs)"
| "exec E fuel (CSuspend i) = SuspendProcessInstance i"
| "exec E fuel (CResume i) = ResumeProcessInstance i"
| "exec E fuel (CTerminate i) = TerminateProcessInstance E i"
| "exec E fuel (CComplete i vs) = CompleteTask E fuel i vs"
| "exec E fuel (CClaim i userID) = ClaimTask E i userID"
| "exec E fuel (CUnclaim i) = UnclaimTask i"
| "exec E fuel (CTransfer i newAssignee) = TransferTask i newAssignee"
| "exec E fuel (CDelegate i delegateAssignee) = DelegateTask i delegateAssignee"
| "exec E fuel (CReclaim i) = ReclaimTask E i"
| "exec E fuel (CReject i rejectType reason targetNodeID) = RejectTask E i rejectType reason targetNodeID"
| "exec E fuel (CJump i targetNodeID) = JumpTask E fuel i targetNodeID"
| "exec E fuel (CUrge i) = voidM (UrgeTask i)"
| "exec E fuel (CCc i ccUser) = CcTask E i ccUser"
| "exec E fuel (CAddSign i signType strategy assignees) = AddSign E i signType strategy assignees"
| "exec E fuel (CRemoveSign i assignee) = RemoveSign E i assignee"
| "exec E fuel (CSetTimeout i duration termMode) = SetTimeout E i duration termMode"
| "exec E fuel CCheckTimeouts = voidM (CheckTimeouts E fuel)"
| "exec E fuel (CSignal signalRef) = ReceiveSignal E fuel signalRef"
| "exec E fuel (CMessage messageRef) = ReceiveMessage E fuel messageRef"

section \<open>The number of pages\<close>

text \<open>The number of pages reported is the least that holds the total.\<close>

lemma page_count:
  assumes "0 \<le> n" and "0 < k"
  shows "n \<le> pg_TotalPages (NewPage items n page k) * k
    \<and> pg_TotalPages (NewPage items n page k) * k < n + k"
proof -
  define q r where "q = n div k" and "r = n mod k"
  have n: "n = q * k + r" by (simp add: q_def r_def)
  have r: "0 \<le> r" "r < k" using assms by (simp_all add: r_def)
  have "pg_TotalPages (NewPage items n page k) = (if 0 < r then q + 1 else q)"
    using assms by (simp add: NewPage_def Let_def goDiv_def goMod_def minus_div_mult_eq_mod q_def r_def)
  then show ?thesis using r by (auto simp: n algebra_simps)
qed

end
