(* ===== verification/Effects.thy ===== *)
theory Effects imports Api begin

text \<open>
  What an operation of the engine may do to the store, as one relation \<open>keep\<close> between the
  state before and the state after, whether the operation succeeds or fails: definitions
  stay, instances keep their identity and change state only along given transitions,
  completed activities and consumed tokens are frozen, nothing is removed (tokens possibly
  excepted), and the well-formedness of the store is kept. The rules that establish it for
  the writes of the store and for the primitives of the engine are collected here; the
  handlers follow in the theory EngineEffects.
\<close>

section \<open>Well-formed stores\<close>

text \<open>A table whose keys are the ids of its values.\<close>

definition keyed :: "('v \<Rightarrow> string) \<Rightarrow> 'v gomap \<Rightarrow> bool" where
  "keyed idOf m \<longleftrightarrow> distinct (map fst m) \<and> (\<forall>k v. map_of m k = Some v \<longrightarrow> idOf v = k)"

lemma keyed_Nil [simp]: "keyed idOf []"
  by (simp add: keyed_def)

lemma keyed_update: "keyed idOf m \<Longrightarrow> idOf v = k \<Longrightarrow> keyed idOf (AList.update k v m)"
  by (auto simp: keyed_def distinct_update)

lemma keyed_delete: "keyed idOf m \<Longrightarrow> keyed idOf (AList.delete k m)"
  by (auto simp: keyed_def distinct_delete split: if_splits)

lemma keyedD: "keyed idOf m \<Longrightarrow> map_of m k = Some v \<Longrightarrow> idOf v = k"
  by (simp add: keyed_def)

definition ended :: "ProcessInstanceState \<Rightarrow> bool" where
  "ended s \<longleftrightarrow> s = Completed \<or> s = Terminated \<or> s = Rejected"

text \<open>An ended instance has an end time, and a completed activity a completion time.\<close>

definition instOK :: "ProcessInstance \<Rightarrow> bool" where
  "instOK p \<longleftrightarrow> (ended (pi_State p) \<longleftrightarrow> pi_EndedAt p \<noteq> None)"

definition actOK :: "ActivityInstance \<Rightarrow> bool" where
  "actOK a \<longleftrightarrow> (ai_State a = ActivityCompleted \<longleftrightarrow> ai_CompletedTime a \<noteq> None)"

definition wfStore :: "Store \<Rightarrow> bool" where
  "wfStore s \<longleftrightarrow>
     keyed pd_ID (definitions s) \<and> keyed pi_ID (instances s)
   \<and> keyed ai_ID (activities s) \<and> keyed tok_ID (tokens s)
   \<and> (\<forall>i p. map_of (instances s) i = Some p \<longrightarrow>
        instOK p \<and> map_of (definitions s) (pi_ProcessDefinitionID p) \<noteq> None)
   \<and> (\<forall>i a. map_of (activities s) i = Some a \<longrightarrow>
        actOK a \<and> map_of (instances s) (ai_ProcessInstanceID a) \<noteq> None)
   \<and> (\<forall>i t. map_of (tokens s) i = Some t \<longrightarrow>
        map_of (instances s) (tok_ProcessInstanceID t) \<noteq> None)"

definition wf :: "world \<Rightarrow> bool" where
  "wf w \<longleftrightarrow> wfStore (st w)"

lemma wfStore_new: "wfStore NewStore"
  by (simp add: wfStore_def NewStore_def)

section \<open>The relation\<close>

text \<open>The fields of an instance that no operation changes.\<close>

definition sameInst :: "ProcessInstance \<Rightarrow> ProcessInstance \<Rightarrow> bool" where
  "sameInst p p' \<longleftrightarrow> pi_ID p' = pi_ID p \<and> pi_ProcessDefinitionID p' = pi_ProcessDefinitionID p
     \<and> pi_TenantID p' = pi_TenantID p \<and> pi_BusinessKey p' = pi_BusinessKey p
     \<and> pi_StartedAt p' = pi_StartedAt p
     \<and> pi_ParentProcessInstanceID p' = pi_ParentProcessInstanceID p
     \<and> pi_ParentActivityID p' = pi_ParentActivityID p"

type_synonym transitions = "(ProcessInstanceState \<times> ProcessInstanceState) set"

definition instStep :: "transitions \<Rightarrow> ProcessInstance \<Rightarrow> ProcessInstance \<Rightarrow> bool" where
  "instStep T p p' \<longleftrightarrow> sameInst p p' \<and> (pi_State p, pi_State p') \<in> T\<^sup>*"

text \<open>An activity is either untouched, or was not completed and has a higher lock version.\<close>

definition activityStep :: "ActivityInstance \<Rightarrow> ActivityInstance \<Rightarrow> bool" where
  "activityStep a a' \<longleftrightarrow> a' = a \<or>
     ai_State a \<noteq> ActivityCompleted \<and> ai_LockVersion a < ai_LockVersion a'
   \<and> ai_ID a' = ai_ID a \<and> ai_ProcessInstanceID a' = ai_ProcessInstanceID a
   \<and> ai_TenantID a' = ai_TenantID a \<and> ai_ActivityID a' = ai_ActivityID a
   \<and> ai_ActivityType a' = ai_ActivityType a
   \<and> ai_MultiInstanceLoopID a' = ai_MultiInstanceLoopID a \<and> ai_LoopCounter a' = ai_LoopCounter a
   \<and> ai_AdhocParentID a' = ai_AdhocParentID a"

text \<open>A token is either untouched or has been consumed.\<close>

definition tokenStep :: "Token \<Rightarrow> Token \<Rightarrow> bool" where
  "tokenStep t t' \<longleftrightarrow> t' = t \<or>
     tok_State t = TokenActive \<and> tok_LockVersion t < tok_LockVersion t'
   \<and> t' = t\<lparr>tok_State := TokenConsumed, tok_LockVersion := tok_LockVersion t'\<rparr>"

text \<open>Every entry of a table is still there, and has made a step.\<close>

definition grows :: "('v \<Rightarrow> 'v \<Rightarrow> bool) \<Rightarrow> 'v gomap \<Rightarrow> 'v gomap \<Rightarrow> bool" where
  "grows step m m' \<longleftrightarrow>
     (\<forall>k v. map_of m k = Some v \<longrightarrow> (\<exists>v'. map_of m' k = Some v' \<and> step v v'))"

definition keep :: "bool \<Rightarrow> transitions \<Rightarrow> world \<Rightarrow> world \<Rightarrow> bool" where
  "keep del T w w' \<longleftrightarrow> (wf w \<longrightarrow> wf w')
   \<and> definitions (st w') = definitions (st w)
   \<and> grows (instStep T) (instances (st w)) (instances (st w'))
   \<and> grows activityStep (activities (st w)) (activities (st w'))
   \<and> (del \<or> grows tokenStep (tokens (st w)) (tokens (st w')))"

lemma growsD: "grows step m m' \<Longrightarrow> map_of m k = Some v \<Longrightarrow> \<exists>v'. map_of m' k = Some v' \<and> step v v'"
  by (simp add: grows_def)

lemma grows_refl: "(\<And>v. step v v) \<Longrightarrow> grows step m m"
  by (simp add: grows_def)

lemma grows_trans:
  assumes "\<And>x y z. step x y \<Longrightarrow> step y z \<Longrightarrow> step x z"
    and "grows step m m'" and "grows step m' m''"
  shows "grows step m m''"
  using assms unfolding grows_def by meson

lemma grows_mono: "grows step m m' \<Longrightarrow> (\<And>x y. step x y \<Longrightarrow> step' x y) \<Longrightarrow> grows step' m m'"
  unfolding grows_def by meson

lemma grows_update:
  assumes "\<And>v. step v v" and "\<And>u. map_of m k = Some u \<Longrightarrow> step u v"
  shows "grows step m (AList.update k v m)"
  using assms by (auto simp: grows_def)

lemma sameInst_refl [simp]: "sameInst p p"
  by (simp add: sameInst_def)

lemma sameInst_trans: "sameInst p q \<Longrightarrow> sameInst q r \<Longrightarrow> sameInst p r"
  by (simp add: sameInst_def)

lemma instStep_refl [simp]: "instStep T p p"
  by (simp add: instStep_def)

lemma instStep_trans: "instStep T p q \<Longrightarrow> instStep T q r \<Longrightarrow> instStep T p r"
  by (auto simp: instStep_def intro: sameInst_trans)

lemma activityStep_refl [simp]: "activityStep a a"
  by (simp add: activityStep_def)

lemma activityStep_trans: "activityStep a b \<Longrightarrow> activityStep b c \<Longrightarrow> activityStep a c"
  by (auto simp: activityStep_def)

lemma tokenStep_refl [simp]: "tokenStep t t"
  by (simp add: tokenStep_def)

lemma tokenStep_consumed: "tokenStep t t' \<Longrightarrow> t' \<noteq> t \<Longrightarrow> tok_State t' = TokenConsumed"
  unfolding tokenStep_def by (metis Token.select_convs(5) Token.surjective Token.update_convs(5) Token.update_convs(6))

lemma tokenStep_trans: "tokenStep a b \<Longrightarrow> tokenStep b c \<Longrightarrow> tokenStep a c"
  by (metis TokenState.distinct(1) tokenStep_consumed tokenStep_def)

lemma keep_refl [simp]: "keep del T w w"
  by (simp add: keep_def grows_refl)

lemma keep_trans: "keep del T u v \<Longrightarrow> keep del T v w \<Longrightarrow> keep del T u w"
  unfolding keep_def
  by (auto intro: grows_trans [where step = "instStep T", OF instStep_trans]
      grows_trans [OF activityStep_trans] grows_trans [OF tokenStep_trans])

text \<open>
  With \<open>tot\<close>, the effect also promises that the run does not run out of fuel.
\<close>

definition okErr :: "bool \<Rightarrow> err \<Rightarrow> bool" where
  "okErr tot e \<longleftrightarrow> (tot \<longrightarrow> e \<noteq> OutOfFuel)"

lemma okErr_simps [simp]: "e \<noteq> OutOfFuel \<Longrightarrow> okErr tot e"
  by (simp add: okErr_def)

lemma okErr_False [eff_rule]: "okErr False e"
  by (simp add: okErr_def)

interpretation eng: effect_order wf "keep del T" "okErr tot" for del T tot
proof
  show "keep del T s s" for s by simp
  show "keep del T s t \<Longrightarrow> keep del T t u \<Longrightarrow> keep del T s u" for s t u by (rule keep_trans)
  show "wf s \<Longrightarrow> keep del T s t \<Longrightarrow> wf t" for s t by (simp add: keep_def)
qed

lemma instStep_mono:
  assumes "T \<subseteq> T'\<^sup>*" and "instStep T p q"
  shows "instStep T' p q"
  using assms rtrancl_subset_rtrancl [OF assms(1)] by (auto simp: instStep_def)

lemma keep_weaken: "keep del T w w' \<Longrightarrow> T \<subseteq> T'\<^sup>* \<Longrightarrow> (del \<longrightarrow> del') \<Longrightarrow> keep del' T' w w'"
  unfolding keep_def by (auto elim!: grows_mono intro: instStep_mono)

abbreviation Eff ::
  "bool \<Rightarrow> bool \<Rightarrow> transitions \<Rightarrow> (world \<Rightarrow> bool) \<Rightarrow> 'a engM \<Rightarrow> bool" where
  "Eff tot del T P m \<equiv> eff wf (keep del T) (okErr tot) P m"

abbreviation Stable :: "bool \<Rightarrow> transitions \<Rightarrow> (world \<Rightarrow> bool) \<Rightarrow> bool" where
  "Stable del T P \<equiv> stable wf (keep del T) P"

section \<open>What stays known about objects the engine holds\<close>

definition hasDef :: "string \<Rightarrow> world \<Rightarrow> bool" where
  "hasDef i w \<longleftrightarrow> map_of (definitions (st w)) i \<noteq> None"

definition hasInst :: "string \<Rightarrow> world \<Rightarrow> bool" where
  "hasInst i w \<longleftrightarrow> map_of (instances (st w)) i \<noteq> None"

text \<open>An instance object that was read from the store.\<close>

definition seen :: "transitions \<Rightarrow> ProcessInstance \<Rightarrow> world \<Rightarrow> bool" where
  "seen T p w \<longleftrightarrow> (\<exists>p'. map_of (instances (st w)) (pi_ID p) = Some p' \<and> instStep T p p')"

definition knownAct :: "ActivityInstance \<Rightarrow> world \<Rightarrow> bool" where
  "knownAct a w \<longleftrightarrow> hasInst (ai_ProcessInstanceID a) w
     \<and> (\<exists>a'. map_of (activities (st w)) (ai_ID a) = Some a' \<and> activityStep a a')"

definition knownTok :: "bool \<Rightarrow> Token \<Rightarrow> world \<Rightarrow> bool" where
  "knownTok del t w \<longleftrightarrow> hasInst (tok_ProcessInstanceID t) w
     \<and> (del \<or> (\<exists>t'. map_of (tokens (st w)) (tok_ID t) = Some t' \<and> tokenStep t t'))"

lemma hasInst_stable [stable_rule]: "Stable del T (hasInst i)"
  by (auto simp: stable_def hasInst_def keep_def dest: growsD)

lemma hasDef_stable [stable_rule]: "Stable del T (hasDef i)"
  by (auto simp: stable_def hasDef_def keep_def)

lemma seen_stable [stable_rule]: "Stable del T (seen T p)"
  by (auto simp: stable_def seen_def keep_def dest!: growsD intro: instStep_trans)

lemma knownAct_stable [stable_rule]: "Stable del T (knownAct a)"
  unfolding stable_def knownAct_def keep_def hasInst_def
  by (auto dest!: growsD intro: activityStep_trans)

lemma knownTok_stable [stable_rule]: "Stable del T (knownTok del t)"
  unfolding stable_def knownTok_def keep_def hasInst_def
  by (auto dest!: growsD intro: tokenStep_trans)

lemma wf_inst:
  "wf w \<Longrightarrow> map_of (instances (st w)) i = Some p \<Longrightarrow>
     pi_ID p = i \<and> instOK p \<and> hasDef (pi_ProcessDefinitionID p) w"
  unfolding wf_def wfStore_def hasDef_def by (meson keyedD)

lemma wf_act:
  "wf w \<Longrightarrow> map_of (activities (st w)) i = Some a \<Longrightarrow>
     ai_ID a = i \<and> actOK a \<and> hasInst (ai_ProcessInstanceID a) w"
  unfolding wf_def wfStore_def hasInst_def by (meson keyedD)

lemma wf_tok:
  "wf w \<Longrightarrow> map_of (tokens (st w)) i = Some t \<Longrightarrow>
     tok_ID t = i \<and> hasInst (tok_ProcessInstanceID t) w"
  unfolding wf_def wfStore_def hasInst_def by (meson keyedD)

lemma wf_def_key: "wf w \<Longrightarrow> map_of (definitions (st w)) i = Some d \<Longrightarrow> pd_ID d = i"
  unfolding wf_def wfStore_def by (meson keyedD)

lemma seen_hasInst: "seen T p w \<Longrightarrow> hasInst (pi_ID p) w"
  by (auto simp: seen_def hasInst_def)

lemma seen_hasDef: "wf w \<Longrightarrow> seen T p w \<Longrightarrow> hasDef (pi_ProcessDefinitionID p) w"
  by (auto simp: seen_def instStep_def sameInst_def dest: wf_inst)

section \<open>Reads\<close>

text \<open>The operations of the store never report running out of fuel.\<close>

definition storeErr :: "'a storeM \<Rightarrow> bool" where
  "storeErr m \<longleftrightarrow> (\<forall>s. fst (m s) \<noteq> Inl OutOfFuel)"

lemma storeErr_reads [simp]:
  "storeErr (GetProcessDefinition i)" "storeErr (GetLatestProcessDefinitionByKey ord key)"
  "storeErr (ListProcessDefinitions ord)" "storeErr (GetProcessInstance i)"
  "storeErr (ListProcessInstances ord i)" "storeErr (GetActivityInstance i)"
  "storeErr (ListActiveActivities ord i)" "storeErr (ListActivitiesByProcessInstance ord i)"
  "storeErr (ListActiveTokens ord i)" "storeErr (GetVariable i k)" "storeErr (GetAllVariables i)"
  "storeErr (ListSignalSubscriptions ord i)"
  by (auto simp: storeErr_def GetProcessDefinition_def GetLatestProcessDefinitionByKey_def
      ListProcessDefinitions_def GetProcessInstance_def ListProcessInstances_def GetActivityInstance_def
      ListActiveActivities_def ListActivitiesByProcessInstance_def ListActiveTokens_def GetVariable_def
      GetAllVariables_def ListSignalSubscriptions_def split: option.splits)

lemma storeErr_writes [simp]:
  "storeErr (CreateProcessInstance p)" "storeErr (UpdateProcessInstance p)"
  "storeErr (CreateActivityInstance a)" "storeErr (UpdateActivityInstance a)"
  "storeErr (CreateToken t)" "storeErr (UpdateToken t)" "storeErr (DeleteToken i)"
  "storeErr (SetVariable i k v)" "storeErr (DeleteVariable i k)" "storeErr (CreateTimerJob job)"
  "storeErr (DeleteTimerJobsByInstance i)" "storeErr (CreateSignalSubscription sub)"
  "storeErr (DeleteSignalSubscription i)" "storeErr (DeleteSubscriptionsByInstance i)"
  "storeErr (CreateHistoricActivityInstance hai)"
  by (auto simp: storeErr_def CreateProcessInstance_def UpdateProcessInstance_def
      CreateActivityInstance_def UpdateActivityInstance_def CreateToken_def UpdateToken_def DeleteToken_def
      SetVariable_def DeleteVariable_def CreateTimerJob_def DeleteTimerJobsByInstance_def
      CreateSignalSubscription_def DeleteSignalSubscription_def DeleteSubscriptionsByInstance_def
      CreateHistoricActivityInstance_def split: option.splits)

lemma Eff_callS:
  assumes "\<And>w. wf w \<Longrightarrow> P w \<Longrightarrow> keep del T w (snd (callS m w))" and "storeErr m"
  shows "Eff tot del T P (callS m)"
proof (rule effI)
  show "okErr tot e" if "fst (callS m w) = Inl e" for w e
    using that assms(2) by (auto simp: okErr_def storeErr_def callS_def split: prod.splits)
      (metis fst_conv)
qed (rule assms(1))

lemma Eff_read:
  assumes "\<And>s. snd (m s) = s" and "storeErr m"
  shows "Eff tot del T P (callS m)"
proof (rule Eff_callS [OF _ assms(2)])
  fix w
  have "snd (callS m w) = w"
    using assms(1) [of "st w"] by (cases "m (st w)") (simp add: callS_def)
  then show "keep del T w (snd (callS m w))" by simp
qed

text \<open>Ticks and the id counter are outside the store.\<close>

lemma keep_same_store: "st w' = st w \<Longrightarrow> keep del T w w'"
  by (simp add: keep_def wf_def grows_refl)

lemma Eff_same_store:
  "(\<And>w. st (snd (m w)) = st w) \<Longrightarrow> (\<And>w. fst (m w) \<noteq> Inl OutOfFuel) \<Longrightarrow> Eff tot del T P m"
  by (auto simp: eff_def keep_same_store okErr_def)

lemma Eff_tick: "Eff tot del T P tickM"
  by (rule Eff_same_store) (simp_all add: tickM_def)

lemma Eff_counter: "Eff tot del T P nextCounter"
  by (rule Eff_same_store) (simp_all add: nextCounter_def Let_def)

text \<open>A read followed by what it has established.\<close>

lemma Eff_getter:
  assumes m: "Eff tot del T P m" and P: "Stable del T P"
    and Q: "\<And>w x w'. wf w \<Longrightarrow> P w \<Longrightarrow> m w = (Inr x, w') \<Longrightarrow> Q x w'"
    and f: "\<And>x. Eff tot del T (\<lambda>w. P w \<and> Q x w) (f x)"
  shows "Eff tot del T P (bindM m f)"
proof (rule eng.bind_post [OF m f])
  fix w x w' assume w: "wf w" "P w" "m w = (Inr x, w')"
  have "keep del T w w'" using effD [OF m w(1,2)] w(3) by simp
  then have "P w'" using P w by (auto simp: stable_def)
  then show "P w' \<and> Q x w'" using Q w by simp
qed

lemma eff_any: "Eff tot del T (\<lambda>_. True) m \<Longrightarrow> Eff tot del T P m"
  by (rule eff_weaken) auto

lemma tickM_bind [eff_getter]:
  "Stable del T P \<Longrightarrow> (\<And>n. Eff tot del T P (f n)) \<Longrightarrow> Eff tot del T P (bindM tickM f)"
  by (rule eng.bind [OF Eff_tick])

lemma nowM_bind [eff_getter]:
  "Stable del T P \<Longrightarrow> (\<And>now. Eff tot del T P (f now)) \<Longrightarrow> Eff tot del T P (bindM (nowM E) f)"
  by (simp add: nowM_def bindM_assoc tickM_bind)

lemma newID_bind [eff_getter]:
  "Stable del T P \<Longrightarrow> (\<And>i. Eff tot del T P (f i)) \<Longrightarrow> Eff tot del T P (bindM (newID E) f)"
  by (simp add: newID_def bindM_assoc eng.bind [OF Eff_counter] nowM_bind)

lemma newToken_bind [eff_getter]:
  "Stable del T P \<Longrightarrow> (\<And>i now. Eff tot del T P (f (NewToken now i piID elementID))) \<Longrightarrow>
     Eff tot del T P (bindM (newToken E piID elementID) f)"
  by (simp add: newToken_def bindM_assoc newID_bind nowM_bind)

lemma newActivity_bind [eff_getter]:
  "Stable del T P \<Longrightarrow> (\<And>i. Eff tot del T P (f (NewActivityInstance i piID elementID ty))) \<Longrightarrow>
     Eff tot del T P (bindM (newActivity E piID elementID ty) f)"
  by (simp add: newActivity_def bindM_assoc newID_bind)

lemma completeM_bind [eff_getter]:
  "Stable del T P \<Longrightarrow> (\<And>now. Eff tot del T P (f (Complete now a))) \<Longrightarrow>
     Eff tot del T P (bindM (completeM E a) f)"
  by (simp add: completeM_def bindM_assoc nowM_bind)

lemma liftE_bind [eff_getter]:
  "(\<And>e. r = Inl e \<Longrightarrow> e \<noteq> OutOfFuel) \<Longrightarrow> (\<And>x. r = Inr x \<Longrightarrow> Eff tot del T P (f x)) \<Longrightarrow> Eff tot del T P (bindM (liftE r) f)"
  by (cases r) (simp_all add: liftE_def eng.throw)

lemma Eff_rangeS_read:
  assumes "\<And>ord s. snd (m ord s) = s" and "\<And>ord. storeErr (m ord)"
  shows "Eff tot del T P (rangeS E m)"
  unfolding rangeS_def by (intro eng.bind_post [OF Eff_tick, where Q = "\<lambda>_ _. True"] Eff_read assms) simp

section \<open>Reads of the store\<close>

lemma getVars_bind [eff_getter]:
  "Stable del T P \<Longrightarrow> (\<And>x. Eff tot del T P (f x)) \<Longrightarrow> Eff tot del T P (bindM (callS (GetAllVariables i)) f)"
  by (rule eng.bind [OF Eff_read [OF _ storeErr_reads(11)]]) (simp_all add: GetAllVariables_def)

lemma GetProcessInstance_bind [eff_getter]:
  "Stable del T P \<Longrightarrow>
     (\<And>p. pi_ID p = i \<Longrightarrow> instOK p \<Longrightarrow> Eff tot del T (\<lambda>w. P w \<and> seen T p w) (f p)) \<Longrightarrow>
     Eff tot del T P (bindM (callS (GetProcessInstance i)) f)"
  apply (rule Eff_getter [OF Eff_read, where Q = "\<lambda>p w. pi_ID p = i \<and> instOK p \<and> seen T p w"])
      apply (simp add: GetProcessInstance_def split: option.splits)
      apply (rule storeErr_reads)
     apply (auto simp: GetProcessInstance_def callS_def seen_def dest: wf_inst split: option.splits)[2]
  by (auto simp: eff_def)

lemma GetProcessDefinition_bind [eff_getter]:
  "Stable del T P \<Longrightarrow>
     (\<And>d. pd_ID d = i \<Longrightarrow> Eff tot del T (\<lambda>w. P w \<and> hasDef (pd_ID d) w) (f d)) \<Longrightarrow>
     Eff tot del T P (bindM (callS (GetProcessDefinition i)) f)"
  apply (rule Eff_getter [OF Eff_read, where Q = "\<lambda>d w. pd_ID d = i \<and> hasDef (pd_ID d) w"])
      apply (simp add: GetProcessDefinition_def split: option.splits)
      apply (rule storeErr_reads)
     apply (auto simp: GetProcessDefinition_def callS_def hasDef_def dest: wf_def_key split: option.splits)[2]
  by (auto simp: eff_def)

lemma GetActivityInstance_bind [eff_getter]:
  "Stable del T P \<Longrightarrow>
     (\<And>a. ai_ID a = i \<Longrightarrow> actOK a \<Longrightarrow> Eff tot del T (\<lambda>w. P w \<and> knownAct a w) (f a)) \<Longrightarrow>
     Eff tot del T P (bindM (callS (GetActivityInstance i)) f)"
  apply (rule Eff_getter [OF Eff_read, where Q = "\<lambda>a w. ai_ID a = i \<and> actOK a \<and> knownAct a w"])
      apply (simp add: GetActivityInstance_def split: option.splits)
      apply (rule storeErr_reads)
     apply (auto simp: GetActivityInstance_def callS_def knownAct_def dest: wf_act split: option.splits)[2]
  by (auto simp: eff_def)

lemma bindM_ignore_value:
  "bindM (ignoreM z m) f = bindM (bindM (tryM m) (\<lambda>r. returnM (case r of Inl _ \<Rightarrow> z | Inr x \<Rightarrow> x))) f"
  by (rule ext) (simp add: sem_simp split: prod.splits sum.splits)

text \<open>Reads on their own, for calls whose error is looked at or dropped.\<close>

lemmas store_reads = GetProcessDefinition_def GetProcessInstance_def GetActivityInstance_def
  GetVariable_def GetAllVariables_def ListActiveActivities_def ListActivitiesByProcessInstance_def
  ListProcessInstances_def ListProcessDefinitions_def

lemma Eff_reads [eff_rule]:
  "Eff tot del T P (callS (GetAllVariables i))"
  "Eff tot del T P (callS (GetVariable i k))"
  "Eff tot del T P (callS (GetProcessInstance i))"
  "Eff tot del T P (callS (GetProcessDefinition i))"
  "Eff tot del T P (callS (GetActivityInstance i))"
  "Eff tot del T P (rangeS E (\<lambda>ord. ListActiveActivities ord i))"
  "Eff tot del T P (rangeS E (\<lambda>ord. ListActivitiesByProcessInstance ord i))"
  "Eff tot del T P (rangeS E (\<lambda>ord. ListProcessInstances ord i))"
  "Eff tot del T P (rangeS E ListProcessDefinitions)"
  by (rule Eff_read Eff_rangeS_read; (rule storeErr_reads | simp add: store_reads split: option.split))+

text \<open>Lists of the store: every listed object is known, and belongs to the instance.\<close>

lemma rangeS_bind:
  assumes P: "Stable del T P"
    and read: "\<And>ord s. m ord s = (Inr (g ord s), s)"
    and Q: "\<And>w ord. wf w \<Longrightarrow> Q (g ord (st w)) w"
    and Qst: "\<And>x w n. Q x w \<Longrightarrow> Q x (w\<lparr>ticks := n\<rparr>)"
    and f: "\<And>x. Eff tot del T (\<lambda>w. P w \<and> Q x w) (f x)"
  shows "Eff tot del T P (bindM (rangeS E m) f)"
proof (rule Eff_getter [OF Eff_rangeS_read P _ f])
  show "snd (m ord s) = s" and "storeErr (m ord)" for ord s by (simp_all add: read storeErr_def)
next
  fix w x w' assume w: "wf w" and m: "rangeS E m w = (Inr x, w')"
  have "rangeS E m w = (Inr (g (iter E (ticks w)) (st w)), w\<lparr>ticks := Suc (ticks w)\<rparr>)"
    by (simp add: rangeS_def tickM_def callS_def read sem_simp)
  with m show "Q x w'" using Q [OF w] Qst by auto
qed

lemma rangeS_ignore_bind:
  assumes "Stable del T P" and read: "\<And>ord s. m ord s = (Inr (g ord s), s)"
    and "\<And>w ord. wf w \<Longrightarrow> Q (g ord (st w)) w"
    and "\<And>x w n. Q x w \<Longrightarrow> Q x (w\<lparr>ticks := n\<rparr>)"
    and "\<And>x. Eff tot del T (\<lambda>w. P w \<and> Q x w) (f x)"
  shows "Eff tot del T P (bindM (ignoreM z (rangeS E m)) f)"
proof -
  have "ignoreM z (rangeS E m) = rangeS E m"
    by (rule ext) (simp add: rangeS_def tickM_def callS_def read sem_simp)
  then show ?thesis using rangeS_bind [OF assms] by simp
qed

definition knownToks :: "bool \<Rightarrow> string \<Rightarrow> Token list \<Rightarrow> world \<Rightarrow> bool" where
  "knownToks del i ts w \<longleftrightarrow> (\<forall>t\<in>set ts. tok_State t = TokenActive \<and> tok_ProcessInstanceID t = i \<and> knownTok del t w)"

definition knownActs :: "string \<Rightarrow> ActivityInstance list \<Rightarrow> world \<Rightarrow> bool" where
  "knownActs i as w \<longleftrightarrow> (\<forall>a\<in>set as. actOK a \<and> ai_ProcessInstanceID a = i \<and> knownAct a w)"

lemma knownToks_stable [stable_rule]: "Stable del T (knownToks del i ts)"
  unfolding knownToks_def by (intro stable_rule)

lemma knownActs_stable [stable_rule]: "Stable del T (knownActs i as)"
  unfolding knownActs_def by (intro stable_rule)

lemma listTokens_known:
  "wf w \<Longrightarrow> knownToks del i
     (mvalues ord (\<lambda>t. tok_ProcessInstanceID t = i \<and> tok_State t = TokenActive) (tokens (st w))) w"
  unfolding knownToks_def knownTok_def
  by (auto dest!: mvalues_lookup dest: wf_tok)

lemma known_ticks [simp]:
  "knownToks del i ts (w\<lparr>ticks := n\<rparr>) = knownToks del i ts w"
  "knownActs i as (w\<lparr>ticks := n\<rparr>) = knownActs i as w"
  by (simp_all add: knownToks_def knownActs_def knownTok_def knownAct_def hasInst_def)

lemma listTokens_bind [eff_getter]:
  "Stable del T P \<Longrightarrow> (\<And>ts. Eff tot del T (\<lambda>w. P w \<and> knownToks del i ts w) (f ts)) \<Longrightarrow>
     Eff tot del T P (bindM (listTokens E i) f)"
  unfolding listTokens_def
  by (rule rangeS_bind [where Q = "knownToks del i"])
     (auto simp: ListActiveTokens_def intro: listTokens_known)

lemma listTokens_ignore_bind [eff_getter]:
  "Stable del T P \<Longrightarrow> (\<And>ts. Eff tot del T (\<lambda>w. P w \<and> knownToks del i ts w) (f ts)) \<Longrightarrow>
     Eff tot del T P (bindM (ignoreM z (listTokens E i)) f)"
  unfolding listTokens_def
  by (rule rangeS_ignore_bind [where Q = "knownToks del i"])
     (auto simp: ListActiveTokens_def intro: listTokens_known)

lemma listActs_known:
  assumes "wf w" and "\<And>a. F a \<Longrightarrow> ai_ProcessInstanceID a = i"
  shows "knownActs i (mvalues ord F (activities (st w))) w"
  unfolding knownActs_def knownAct_def
  using assms by (auto dest!: mvalues_lookup dest: wf_act)

lemmas listed_acts = ListActivitiesByProcessInstance_def ListActiveActivities_def

lemma listActivities_bind [eff_getter]:
  assumes "Stable del T P" and "\<And>as. Eff tot del T (\<lambda>w. P w \<and> knownActs i as w) (f as)"
  shows "Eff tot del T P (bindM (rangeS E (\<lambda>ord. ListActivitiesByProcessInstance ord i)) f)"
    and "Eff tot del T P (bindM (ignoreM z (rangeS E (\<lambda>ord. ListActivitiesByProcessInstance ord i))) f)"
  using assms
  by (auto intro!: rangeS_bind [where Q = "knownActs i"] rangeS_ignore_bind [where Q = "knownActs i"]
      simp: listed_acts intro: listActs_known)

lemma listActive_bind [eff_getter]:
  assumes "Stable del T P"
    and "\<And>as. Eff tot del T (\<lambda>w. P w \<and> knownActs i as w \<and> (\<forall>a\<in>set as. ai_State a = ActivityActive)) (f as)"
  shows "Eff tot del T P (bindM (rangeS E (\<lambda>ord. ListActiveActivities ord i)) f)"
  using assms
  by (intro rangeS_bind [where Q = "\<lambda>as w. knownActs i as w \<and> (\<forall>a\<in>set as. ai_State a = ActivityActive)"])
     (auto simp: listed_acts dest: mvalues_lookup intro: listActs_known)

lemma latestLoop_mem:
  "latestLoop key l ds = Some d \<Longrightarrow> d \<in> set ds \<or> l = Some d"
  by (induction ds arbitrary: l) (auto split: if_splits option.splits)

lemma GetLatest_bind [eff_getter]:
  assumes "Stable del T P" and f: "\<And>d. Eff tot del T (\<lambda>w. P w \<and> hasDef (pd_ID d) w) (f d)"
  shows "Eff tot del T P (bindM (rangeS E (\<lambda>ord. GetLatestProcessDefinitionByKey ord key)) f)"
proof (rule Eff_getter [OF Eff_rangeS_read assms(1) _ f])
  show "snd (GetLatestProcessDefinitionByKey ord key s) = s" for ord s
    by (simp add: GetLatestProcessDefinitionByKey_def split: option.splits)
  show "storeErr (GetLatestProcessDefinitionByKey ord key)" for ord by simp
next
  fix w x w' assume "wf w" "rangeS E (\<lambda>ord. GetLatestProcessDefinitionByKey ord key) w = (Inr x, w')"
  then show "hasDef (pd_ID x) w'"
    by (auto simp: rangeS_def tickM_def callS_def sem_simp GetLatestProcessDefinitionByKey_def hasDef_def
        split: option.splits dest!: latestLoop_mem mvalues_lookup dest: wf_def_key)
qed

lemma listOthers_bind [eff_getter]:
  assumes "Stable del T P" and "\<And>x. Eff tot del T P (f x)"
  shows "Eff tot del T P (bindM (rangeS E (\<lambda>ord. ListSignalSubscriptions ord i)) f)"
  by (rule eng.bind [OF Eff_rangeS_read _ assms(2)])
     (rule storeErr_reads | simp add: ListSignalSubscriptions_def assms(1))+

section \<open>Writes of the store\<close>

text \<open>Writes outside the four tables of the relation.\<close>

lemma Eff_other_tables:
  assumes "\<And>s. definitions (snd (m s)) = definitions s \<and> instances (snd (m s)) = instances s
      \<and> activities (snd (m s)) = activities s \<and> tokens (snd (m s)) = tokens s"
    and "storeErr m"
  shows "Eff tot del T P (callS m)"
proof (rule Eff_callS [OF _ assms(2)])
  fix w
  show "keep del T w (snd (callS m w))"
    using assms(1) [of "st w"] by (cases "m (st w)") (simp add: callS_def keep_def wf_def wfStore_def grows_refl)
qed

lemma Eff_variables [eff_rule]:
  "Eff tot del T P (callS (SetVariable i k v))"
  "Eff tot del T P (callS (DeleteVariable i k))"
  by (rule Eff_other_tables; (rule storeErr_writes | simp add: SetVariable_def DeleteVariable_def split: option.splits))+

lemma Eff_events [eff_rule]:
  "Eff tot del T P (callS (CreateTimerJob job))"
  "Eff tot del T P (callS (DeleteTimerJobsByInstance i))"
  "Eff tot del T P (callS (CreateSignalSubscription sub))"
  "Eff tot del T P (callS (DeleteSignalSubscription i))"
  "Eff tot del T P (callS (DeleteSubscriptionsByInstance i))"
  "Eff tot del T P (callS (CreateHistoricActivityInstance hai))"
  by (rule Eff_other_tables; (rule storeErr_writes | simp add: CreateTimerJob_def
      DeleteTimerJobsByInstance_def CreateSignalSubscription_def DeleteSignalSubscription_def
      DeleteSubscriptionsByInstance_def CreateHistoricActivityInstance_def))+

lemma callS_cases:
  assumes "m (st w) = (r, s')" and "keep del T w (w\<lparr>st := s'\<rparr>)"
  shows "keep del T w (snd (callS m w))"
  using assms by (simp add: callS_def)

lemma keep_tokens:
  assumes "wf w \<Longrightarrow> wf (w\<lparr>st := st w\<lparr>tokens := m\<rparr>\<rparr>)" and "del \<or> grows tokenStep (tokens (st w)) m"
  shows "keep del T w (w\<lparr>st := st w\<lparr>tokens := m\<rparr>\<rparr>)"
  using assms by (simp add: keep_def grows_refl)

lemma keep_activities:
  assumes "wf w \<Longrightarrow> wf (w\<lparr>st := st w\<lparr>activities := m\<rparr>\<rparr>)" and "grows activityStep (activities (st w)) m"
  shows "keep del T w (w\<lparr>st := st w\<lparr>activities := m\<rparr>\<rparr>)"
  using assms by (simp add: keep_def grows_refl)

lemma keep_instances:
  assumes "wf w \<Longrightarrow> wf (w\<lparr>st := st w\<lparr>instances := m\<rparr>\<rparr>)" and "grows (instStep T) (instances (st w)) m"
  shows "keep del T w (w\<lparr>st := st w\<lparr>instances := m\<rparr>\<rparr>)"
  using assms by (simp add: keep_def grows_refl)

lemma wf_put_token:
  "wf w \<Longrightarrow> hasInst (tok_ProcessInstanceID t) w \<Longrightarrow>
     wf (w\<lparr>st := st w\<lparr>tokens := AList.update (tok_ID t) t (tokens (st w))\<rparr>\<rparr>)"
  by (auto simp: wf_def wfStore_def hasInst_def intro: keyed_update)

lemma wf_put_activity:
  "wf w \<Longrightarrow> hasInst (ai_ProcessInstanceID a) w \<Longrightarrow> actOK a \<Longrightarrow>
     wf (w\<lparr>st := st w\<lparr>activities := AList.update (ai_ID a) a (activities (st w))\<rparr>\<rparr>)"
  by (auto simp: wf_def wfStore_def hasInst_def intro: keyed_update)

lemma wf_put_instance:
  "wf w \<Longrightarrow> hasDef (pi_ProcessDefinitionID p) w \<Longrightarrow> instOK p \<Longrightarrow>
     wf (w\<lparr>st := st w\<lparr>instances := AList.update (pi_ID p) p (instances (st w))\<rparr>\<rparr>)"
  by (auto simp: wf_def wfStore_def hasDef_def intro: keyed_update)

lemma Eff_CreateToken [eff_rule]:
  assumes "\<And>w. wf w \<Longrightarrow> P w \<Longrightarrow> hasInst (tok_ProcessInstanceID t) w"
  shows "Eff tot del T P (callS (CreateToken t))"
proof (rule Eff_callS)
  fix w assume w: "wf w" "P w"
  show "keep del T w (snd (callS (CreateToken t) w))"
    using wf_put_token [OF w(1) assms [OF w]]
    by (auto simp: callS_def CreateToken_def keep_same_store intro!: keep_tokens grows_update)
qed simp

lemma Eff_CreateActivity [eff_rule]:
  assumes "actOK a" and "\<And>w. wf w \<Longrightarrow> P w \<Longrightarrow> hasInst (ai_ProcessInstanceID a) w"
  shows "Eff tot del T P (callS (CreateActivityInstance a))"
proof (rule Eff_callS)
  fix w assume w: "wf w" "P w"
  show "keep del T w (snd (callS (CreateActivityInstance a) w))"
    using wf_put_activity [OF w(1) assms(2) [OF w] assms(1)]
    by (auto simp: callS_def CreateActivityInstance_def keep_same_store intro!: keep_activities grows_update)
qed simp

lemma Eff_CreateInstance [eff_rule]:
  assumes "instOK p" and "\<And>w. wf w \<Longrightarrow> P w \<Longrightarrow> hasDef (pi_ProcessDefinitionID p) w"
  shows "Eff tot del T P (callS (CreateProcessInstance p))"
proof (rule Eff_callS)
  fix w assume w: "wf w" "P w"
  show "keep del T w (snd (callS (CreateProcessInstance p) w))"
    using wf_put_instance [OF w(1) assms(2) [OF w] assms(1)]
    by (auto simp: callS_def CreateProcessInstance_def keep_same_store intro!: keep_instances grows_update)
qed simp

text \<open>An update of an instance that was seen before.\<close>

lemma Eff_UpdateInstance:
  assumes p: "instOK p'" "sameInst p p'"
    and trans: "\<And>s. (pi_State p, s) \<in> T\<^sup>* \<Longrightarrow> (s, pi_State p') \<in> T\<^sup>*"
    and seen: "\<And>w. wf w \<Longrightarrow> P w \<Longrightarrow> seen T p w"
  shows "Eff tot del T P (callS (UpdateProcessInstance p'))"
proof (rule Eff_callS)
  fix w assume w: "wf w" "P w"
  have "hasDef (pi_ProcessDefinitionID p') w"
    using seen_hasDef [OF w(1) seen [OF w]] p(2) by (simp add: sameInst_def)
  then have wf': "wf (w\<lparr>st := st w\<lparr>instances := AList.update (pi_ID p') p' (instances (st w))\<rparr>\<rparr>)"
    using w(1) p(1) by (intro wf_put_instance)
  have "instStep T u p'" if "map_of (instances (st w)) (pi_ID p') = Some u" for u
    using seen [OF w] p that trans
    by (auto simp: seen_def instStep_def sameInst_def)
  with wf' show "keep del T w (snd (callS (UpdateProcessInstance p') w))"
    by (auto simp: callS_def UpdateProcessInstance_def keep_same_store intro!: keep_instances grows_update)
qed simp

text \<open>
  An update with the lock version of a known activity: if it goes through, the stored
  activity is the known one.
\<close>

lemma Eff_UpdateActivity:
  assumes a: "ai_State a \<noteq> ActivityCompleted" "actOK a'"
    and same: "activityStep a (a'\<lparr>ai_LockVersion := ai_LockVersion a' + 1\<rparr>)" "ai_LockVersion a' = ai_LockVersion a"
      "ai_ID a' = ai_ID a" "ai_ProcessInstanceID a' = ai_ProcessInstanceID a"
    and known: "\<And>w. wf w \<Longrightarrow> P w \<Longrightarrow> knownAct a w"
  shows "Eff tot del T P (callS (UpdateActivityInstance a'))"
proof (rule Eff_callS)
  fix w assume w: "wf w" "P w"
  let ?a = "a'\<lparr>ai_LockVersion := ai_LockVersion a' + 1\<rparr>"
  obtain u where u: "map_of (activities (st w)) (ai_ID a) = Some u" "activityStep a u"
    and i: "hasInst (ai_ProcessInstanceID a') w"
    using known [OF w] same(4) by (auto simp: knownAct_def)
  have "wf (w\<lparr>st := st w\<lparr>activities := AList.update (ai_ID ?a) ?a (activities (st w))\<rparr>\<rparr>)"
    using w(1) i a(2) by (intro wf_put_activity) (simp_all add: actOK_def)
  moreover have "activityStep u ?a" if "ai_LockVersion a' = ai_LockVersion u"
    using u(2) that same(1,2) by (auto simp: activityStep_def)
  ultimately show "keep del T w (snd (callS (UpdateActivityInstance a') w))"
    using u(1) same(3)
    by (auto simp: callS_def UpdateActivityInstance_def keep_same_store intro!: keep_activities grows_update)
qed simp

lemma Eff_consumeToken [eff_rule]:
  assumes known: "\<And>w. wf w \<Longrightarrow> P w \<Longrightarrow> tok_State t = TokenActive \<and> knownTok del t w"
  shows "Eff tot del T P (consumeToken t)"
  unfolding consumeToken_def
proof (rule Eff_callS)
  fix w assume w: "wf w" "P w"
  let ?t = "t\<lparr>tok_State := TokenConsumed, tok_LockVersion := tok_LockVersion t + 1\<rparr>"
  have "wf (w\<lparr>st := st w\<lparr>tokens := AList.update (tok_ID ?t) ?t (tokens (st w))\<rparr>\<rparr>)"
    using w(1) known [OF w] by (intro wf_put_token) (simp_all add: knownTok_def hasInst_def)
  moreover have "tokenStep u ?t" if "\<not> del" "map_of (tokens (st w)) (tok_ID t) = Some u"
      "tok_LockVersion t = tok_LockVersion u" for u
    using known [OF w] that by (auto simp: knownTok_def tokenStep_def)
  ultimately show "keep del T w (snd (callS (UpdateToken (t\<lparr>tok_State := TokenConsumed\<rparr>)) w))"
    by (cases del)
       (auto simp: callS_def UpdateToken_def keep_same_store intro!: keep_tokens grows_update split: option.splits)
qed simp

section \<open>Primitives of the engine\<close>

lemma Eff_UpdateComplete [eff_rule]:
  assumes known: "\<And>w. wf w \<Longrightarrow> P w \<Longrightarrow> ai_State a \<noteq> ActivityCompleted \<and> knownAct a w"
  shows "Eff tot del T P (callS (UpdateActivityInstance (Complete now a)))"
proof (rule eff_weaken [OF _ known])
  show "Eff tot del T (\<lambda>w. ai_State a \<noteq> ActivityCompleted \<and> knownAct a w)
      (callS (UpdateActivityInstance (Complete now a)))"
  proof (cases "ai_State a = ActivityCompleted")
    case False
    then show ?thesis
      by (intro Eff_UpdateActivity [where a = a]) (auto simp: Complete_def actOK_def activityStep_def)
  qed (simp add: eff_def)
qed

lemma Eff_completeActivity [eff_rule]:
  assumes known: "\<And>w. wf w \<Longrightarrow> P w \<Longrightarrow> ai_State a \<noteq> ActivityCompleted \<and> knownAct a w"
  shows "Eff tot del T P (completeActivity E a)"
proof (rule eff_weaken [OF _ known])
  show "Eff tot del T (\<lambda>w. ai_State a \<noteq> ActivityCompleted \<and> knownAct a w) (completeActivity E a)"
    unfolding completeActivity_def
    by (intro eff_getter stable_rule Eff_UpdateComplete) auto
qed

lemma eff_find [eff_rule]:
  "Eff tot del T P m \<Longrightarrow> (\<And>x. x \<in> set xs \<Longrightarrow> Q x \<Longrightarrow> Eff tot del T P (f x)) \<Longrightarrow>
     Eff tot del T P (case find Q xs of None \<Rightarrow> m | Some x \<Rightarrow> f x)"
  by (cases "find Q xs") (auto dest: find_in_set)

lemma Eff_consumeFirst [eff_rule]:
  "(\<And>w. wf w \<Longrightarrow> P w \<Longrightarrow> \<exists>i. knownToks del i ts w) \<Longrightarrow> Eff tot del T P (consumeFirst e ts)"
  unfolding consumeFirst_def
  by (intro eff_find eng.return Eff_consumeToken) (fastforce simp: knownToks_def)

lemma Eff_consumeAll [eff_rule]:
  assumes "\<And>w. wf w \<Longrightarrow> P w \<Longrightarrow> knownToks del i ts w"
  shows "Eff tot del T P (consumeAll e ts)"
proof (rule eff_weaken [OF _ assms])
  show "Eff tot del T (knownToks del i ts) (consumeAll e ts)"
    unfolding consumeAll_def
    by (intro eng.control Eff_consumeToken stable_rule) (auto simp: knownToks_def)
qed

lemma Eff_consumeAt [eff_rule]:
  assumes "Stable del T P"
  shows "Eff tot del T P (consumeFirstAt E i e)" and "Eff tot del T P (consumeAllAt E i e)"
  unfolding consumeFirstAt_def consumeAllAt_def
  using assms by (intro eff_getter Eff_consumeFirst Eff_consumeAll [where i = i]; auto)+

lemma Eff_dropFirstAt [eff_rule]: "Stable del T P \<Longrightarrow> Eff tot del T P (dropFirstAt E i e)"
  unfolding dropFirstAt_def
  by (intro eff_getter eff_find eng.return eng.ignore Eff_consumeToken) (auto simp: knownToks_def)

lemma Eff_dropAllAt [eff_rule]: "Stable del T P \<Longrightarrow> Eff tot del T P (dropAllAt E i e)"
  unfolding dropAllAt_def
  by (intro eff_getter eng.for_loop eng.if_then_else eng.return eng.ignore Eff_consumeToken stable_rule)
     (auto simp: knownToks_def)

lemma Eff_setVar [eff_rule]: "Eff tot del T P (setVar i k v)" "Eff tot del T P (delVar i k)"
  unfolding setVar_def delVar_def by (intro eng.ignore eff_rule)+

lemma getVars_drop_bind [eff_getter]:
  "Stable del T P \<Longrightarrow> (\<And>x. Eff tot del T P (f x)) \<Longrightarrow> Eff tot del T P (bindM (getVars i) f)"
  unfolding getVars_def by (rule eng.bind [OF eng.ignore [OF Eff_reads(1)]])

lemma Eff_rangeM [eff_rule]:
  assumes "Stable del T P" and "\<And>k v. Eff tot del T P (f (k, v))"
  shows "Eff tot del T P (rangeM E m f)"
  unfolding rangeM_def using assms by (intro eff_getter eng.for_loop) auto

lemma Eff_optionM [eff_rule]:
  "(\<And>y. x = Some y \<Longrightarrow> Eff tot del T P (f y)) \<Longrightarrow> Eff tot del T P (optionM x f)"
  unfolding optionM_def by (intro eng.opt_case eng.return) auto

end
