(* ===== verification/EngineEffects.thy ===== *)
theory EngineEffects imports Effects begin

text \<open>
  The effect of every handler of the navigator and of every command of the engine on the
  store, by the rules of the theory Effects.
\<close>

section \<open>The navigator\<close>

text \<open>The only change of state navigation makes to an instance.\<close>

definition navT :: transitions where
  "navT = {(Running, Completed)}"

lemma navT_complete: "(Running, s) \<in> navT\<^sup>* \<Longrightarrow> (s, Completed) \<in> navT\<^sup>*"
  by (erule rtranclE) (auto simp: navT_def)

text \<open>
  For termination: the instance is stored, has no parent to go on in, and is an instance of
  the definition \<open>d\<close>.
\<close>

definition noParent :: "ProcessInstance \<Rightarrow> bool" where
  "noParent p \<longleftrightarrow> pi_ParentProcessInstanceID p = '''' \<or> pi_ParentActivityID p = ''''"

definition ready :: "ProcessDefinition \<Rightarrow> string \<Rightarrow> world \<Rightarrow> bool" where
  "ready d i w \<longleftrightarrow> (\<exists>p. map_of (instances (st w)) i = Some p \<and> noParent p
     \<and> map_of (definitions (st w)) (pi_ProcessDefinitionID p) = Some d)"

lemma ready_stable [stable_rule]: "Stable del T (ready d i)"
  unfolding stable_def ready_def keep_def
  by (auto dest!: growsD simp: instStep_def sameInst_def noParent_def)

definition live :: "bool \<Rightarrow> ProcessDefinition \<Rightarrow> ProcessInstance \<Rightarrow> world \<Rightarrow> bool" where
  "live tot d p w \<longleftrightarrow> seen navT p w \<and> (tot \<longrightarrow> ready d (pi_ID p) w)"

lemma live_stable [stable_rule]: "Stable del navT (live tot d p)"
  unfolding live_def by (intro stable_rule)

lemma live_hasInst: "live tot d p w \<Longrightarrow> hasInst (pi_ID p) w"
  by (auto simp: live_def dest: seen_hasInst)

text \<open>
  What the handlers rely on in \<open>navigateFrom\<close> and \<open>takeSequenceFlow\<close>: their effect on the
  store and, with \<open>tot\<close>, that they do not run out of fuel at the elements \<open>G\<close> and the flows
  \<open>F\<close> of the definition \<open>d0\<close>.
\<close>

locale navigation =
  fixes tot del :: bool
    and nav :: navF
    and flow :: flowF
    and G :: "string \<Rightarrow> bool"
    and F :: "SequenceFlow \<Rightarrow> bool"
    and d0 :: ProcessDefinition
  assumes nav_ok: "(tot \<longrightarrow> G e) \<Longrightarrow> Eff tot del navT (\<lambda>w. tot \<longrightarrow> ready d0 i w) (nav i e)"
    and flow_ok: "pi_State p = Running \<Longrightarrow> (tot \<longrightarrow> d = d0 \<and> noParent p \<and> F sf) \<Longrightarrow>
        Eff tot del navT (live tot d0 p) (flow d p sf)"
begin

lemma nav_any:
  "(tot \<longrightarrow> G e) \<Longrightarrow> (\<And>w. wf w \<Longrightarrow> P w \<Longrightarrow> tot \<longrightarrow> ready d0 i w) \<Longrightarrow> Eff tot del navT P (nav i e)"
  by (rule eff_weaken [OF nav_ok])

lemma flow_any:
  "pi_State p = Running \<Longrightarrow> (tot \<longrightarrow> d = d0 \<and> noParent p \<and> F sf) \<Longrightarrow>
     (\<And>w. wf w \<Longrightarrow> P w \<Longrightarrow> live tot d0 p w) \<Longrightarrow> Eff tot del navT P (flow d p sf)"
  by (rule eff_weaken [OF flow_ok])

lemmas rules = eff_getter eff_rule nav_any flow_any eng.control stable_rule

lemma checkParentCompletion:
  "(tot \<longrightarrow> noParent p) \<Longrightarrow> Stable del navT P \<Longrightarrow> Eff tot del navT P (checkParentCompletion E nav p)"
  unfolding checkParentCompletion_def noParent_def
  by (intro rules) (auto simp: knownToks_def knownActs_def)

lemma checkComplete:
  assumes "pi_State p = Running" and "tot \<longrightarrow> noParent p" and "Stable del navT P"
    and "\<And>w. wf w \<Longrightarrow> P w \<Longrightarrow> live tot d0 p w"
  shows "Eff tot del navT P (checkComplete E nav p)"
  unfolding checkComplete_def Let_def
  using assms
  by (intro rules checkParentCompletion Eff_UpdateInstance [where p = p])
     (auto simp: instOK_def ended_def sameInst_def live_def noParent_def intro: navT_complete)

lemma forM_flow:
  "pi_State p = Running \<Longrightarrow> (tot \<longrightarrow> d = d0 \<and> noParent p \<and> (\<forall>sf\<in>set flows. F sf)) \<Longrightarrow>
     Stable del navT P \<Longrightarrow> (\<And>w. wf w \<Longrightarrow> P w \<Longrightarrow> live tot d0 p w) \<Longrightarrow>
     Eff tot del navT P (forM (flow d p) flows)"
  by (intro eng.for_loop flow_any) auto

lemma handleEndEvent:
  "pi_State p = Running \<Longrightarrow> (tot \<longrightarrow> noParent p) \<Longrightarrow>
     Eff tot del navT (live tot d0 p) (handleEndEvent E nav p e)"
  unfolding handleEndEvent_def by (intro rules checkComplete)

lemma handleOutgoingFlows:
  assumes "pi_State p = Running" and "tot \<longrightarrow> d = d0 \<and> noParent p \<and> (\<forall>sf\<in>set flows. F sf)"
    and "Stable del navT P" and "\<And>w. wf w \<Longrightarrow> P w \<Longrightarrow> live tot d0 p w"
  shows "Eff tot del navT P (handleOutgoingFlows E nav flow d p flows)"
  unfolding handleOutgoingFlows_def
  using assms by (cases flows) (auto intro!: checkComplete eng.bind eff_rule forM_flow simp del: forM.simps)

lemma handleExclusiveGateway:
  "pi_State p = Running \<Longrightarrow> (tot \<longrightarrow> d = d0 \<and> noParent p \<and> (\<forall>sf\<in>set out. F sf)) \<Longrightarrow>
     Eff tot del navT (live tot d0 p) (handleExclusiveGateway E flow d p out gw)"
  unfolding handleExclusiveGateway_def
  by (intro rules) (auto dest: exclusiveTarget_mem exclusiveTarget_error)

lemma handleParallelGateway:
  "pi_State p = Running \<Longrightarrow> (tot \<longrightarrow> d = d0 \<and> noParent p \<and> (\<forall>sf\<in>set out. F sf)) \<Longrightarrow>
     Eff tot del navT (live tot d0 p) (handleParallelGateway E nav flow d p out g)"
  unfolding handleParallelGateway_def Let_def
  by (intro checkComplete forM_flow rules) auto

lemma handleInclusiveGateway:
  "pi_State p = Running \<Longrightarrow> (tot \<longrightarrow> d = d0 \<and> noParent p \<and> (\<forall>sf\<in>set out. F sf)) \<Longrightarrow>
     Eff tot del navT (live tot d0 p) (handleInclusiveGateway E flow d p out gw)"
  unfolding handleInclusiveGateway_def
  by (intro forM_flow rules) (auto dest: inclusiveTargets_mem inclusiveTargets_error)

lemma interruptAttached: "Stable del navT P \<Longrightarrow> Eff tot del navT P (interruptAttached E i be)"
  unfolding interruptAttached_def by (intro rules) (auto simp: knownActs_def)

lemma boundary_case:
  "(\<And>be. el = BoundaryEventEl be \<Longrightarrow> Eff tot del navT P (f be)) \<Longrightarrow> Eff tot del navT P m \<Longrightarrow>
     Eff tot del navT P (case el of BoundaryEventEl be \<Rightarrow> f be | _ \<Rightarrow> m)"
  by (cases el) auto

lemma user_task_case:
  "(\<And>ut. x = Some (UserTaskEl ut) \<Longrightarrow> Eff tot del navT P (f ut)) \<Longrightarrow> Eff tot del navT P m \<Longrightarrow>
     Eff tot del navT P (case x of Some (UserTaskEl ut) \<Rightarrow> f ut | _ \<Rightarrow> m)"
  by (auto split: option.split FlowElement.split)

lemma triggerEventElement:
  "\<not> tot \<Longrightarrow> Stable del navT P \<Longrightarrow> Eff tot del navT P (triggerEventElement E nav i e)"
  unfolding triggerEventElement_def
  by (intro boundary_case interruptAttached rules)
     (auto simp: Complete_def NewActivityInstance_def actOK_def dest: seen_hasInst)

lemma fireSignal: "\<not> tot \<Longrightarrow> Stable del navT P \<Longrightarrow> Eff tot del navT P (fireSignal E nav ref)"
  unfolding fireSignal_def by (intro triggerEventElement rules)

lemma createEvents:
  "Stable del navT P \<Longrightarrow> Eff tot del navT P (createTimerJob E p e td)"
  "Stable del navT P \<Longrightarrow> Eff tot del navT P (createSubscription E p e sd)"
  unfolding createTimerJob_def createSubscription_def by (intro rules; assumption)+

lemma attachBoundaryEvents:
  "Stable del navT P \<Longrightarrow> Eff tot del navT P (attachBoundaryEvents E d p i)"
  unfolding attachBoundaryEvents_def
  by (intro Eff_rangeM) (auto intro!: boundary_case createEvents rules)

lemma handleIntermediateCatchEvent:
  "Eff tot del navT (live tot d0 p) (handleIntermediateCatchEvent E d p ice)"
  unfolding handleIntermediateCatchEvent_def
  by (intro createEvents rules) (auto simp: NewToken_def dest: live_hasInst)

lemma handleIntermediateThrowEvent:
  "pi_State p = Running \<Longrightarrow> (tot \<longrightarrow> d = d0 \<and> noParent p \<and> ite_SignalDefinition ite = None
       \<and> (\<forall>sf\<in>set (FindOutgoingFlows (pd_SequenceFlows d) (ite_ID ite)). F sf)) \<Longrightarrow>
     Eff tot del navT (live tot d0 p) (handleIntermediateThrowEvent E nav flow d p ite)"
  unfolding handleIntermediateThrowEvent_def Let_def
  by (intro fireSignal checkComplete forM_flow rules)
     (auto simp: Complete_def NewActivityInstance_def actOK_def dest: live_hasInst)

lemma startFrom:
  "(tot \<longrightarrow> G (pd_StartEventID d)) \<Longrightarrow>
     (\<And>w. wf w \<Longrightarrow> P w \<Longrightarrow> hasInst (pi_ID p) w \<and> (tot \<longrightarrow> ready d0 (pi_ID p) w)) \<Longrightarrow>
     Stable del navT P \<Longrightarrow> Eff tot del navT P (startFrom E nav d p)"
  unfolding startFrom_def
  by (intro rules) (auto simp: Complete_def NewActivityInstance_def actOK_def)

lemma handleCallActivity:
  assumes "\<not> tot"
  shows "Eff tot del navT (live tot d0 p) (handleCallActivity E nav d p ca)"
proof -
  have created: "Eff tot del navT (\<lambda>w. live tot d0 p w \<and> hasDef di w)
      (bindM (callS (CreateProcessInstance q)) (\<lambda>_. m))"
    if q: "instOK q" "pi_ProcessDefinitionID q = di"
      and m: "Eff tot del navT (\<lambda>w. (live tot d0 p w \<and> hasDef di w) \<and> hasInst (pi_ID q) w) m" for q di m
  proof (rule Eff_getter [OF _ _ _ m])
    show "Eff tot del navT (\<lambda>w. live tot d0 p w \<and> hasDef di w) (callS (CreateProcessInstance q))"
      using q by (intro rules) auto
    show "hasInst (pi_ID q) w'" if "callS (CreateProcessInstance q) w = (Inr x, w')" for w x w'
      using that by (auto simp: callS_def CreateProcessInstance_def hasInst_def split: if_splits)
  qed (intro stable_rule)
  have children: "Eff tot del navT P (bindM (if ca_InheritVariables ca then callS (GetAllVariables i) else returnM []) f)"
    if "Stable del navT P" "\<And>x. Eff tot del navT P (f x)" for P i f
    using that by (cases "ca_InheritVariables ca") (auto intro: getVars_bind)
  show ?thesis
    unfolding handleCallActivity_def Let_def
    using assms
    by (intro created children startFrom rules)
       (auto simp: NewProcessInstance_def NewActivityInstance_def NewToken_def instOK_def ended_def actOK_def
         dest: live_hasInst)
qed

lemma startOneInstance:
  "Stable del navT P \<Longrightarrow> (\<And>w. wf w \<Longrightarrow> P w \<Longrightarrow> hasInst (pi_ID p) w) \<Longrightarrow>
     Eff tot del navT P (startOneInstance E p ut lc l items i)"
  unfolding startOneInstance_def Let_def
  by (intro rules) (auto simp: NewActivityInstance_def NewToken_def actOK_def)

lemma startInstances:
  assumes "Stable del navT P" and "\<And>w. wf w \<Longrightarrow> P w \<Longrightarrow> hasInst (pi_ID p) w"
  shows "Eff tot del navT P (startParallelInstances E p ut lc l items n)"
    and "Eff tot del navT P (startSequentialInstance E p ut lc l items i n)"
  unfolding startParallelInstances_def startSequentialInstance_def
  using assms by (intro startOneInstance rules; auto)+

lemma handleMultiInstanceTask:
  "pi_State p = Running \<Longrightarrow> (tot \<longrightarrow> d = d0 \<and> noParent p
       \<and> (\<forall>sf\<in>set (FindOutgoingFlows (pd_SequenceFlows d) (ut_ID ut)). F sf)) \<Longrightarrow>
     Eff tot del navT (live tot d0 p) (handleMultiInstanceTask E nav flow d p ut)"
  unfolding handleMultiInstanceTask_def Let_def
  by (intro handleOutgoingFlows startInstances rules) (auto dest: live_hasInst resolveLoopCount_error)

lemma advanceMultiInstance:
  assumes "Stable del navT P" and "\<And>w. wf w \<Longrightarrow> P w \<Longrightarrow> hasInst (pi_ID p) w"
  shows "Eff tot del navT P (advanceMultiInstance E p a)"
  unfolding advanceMultiInstance_def conditionMet_def nextInstance_def allCompleted_def Let_def
  using assms
  by (intro startInstances rules) (auto split: option.split gval.split intro!: rules)

lemma leaveMultiInstance:
  "pi_State p = Running \<Longrightarrow> (tot \<longrightarrow> d = d0 \<and> noParent p \<and> (\<forall>sf\<in>set out. F sf)) \<Longrightarrow>
     Eff tot del navT (live tot d0 p) (leaveMultiInstance E nav flow d p out e)"
  unfolding leaveMultiInstance_def
  by (intro handleOutgoingFlows rules advanceMultiInstance) (auto dest: live_hasInst)

lemma leaveElement:
  "pi_State p = Running \<Longrightarrow> (tot \<longrightarrow> d = d0 \<and> noParent p
       \<and> (\<forall>sf\<in>set (FindOutgoingFlows (pd_SequenceFlows d0) e). F sf)) \<Longrightarrow>
     Eff tot del navT (live tot d0 p) (leaveElement E nav flow d p e el)"
  unfolding leaveElement_def Let_def
  by (cases el) (auto intro!: handleEndEvent leaveMultiInstance handleOutgoingFlows handleExclusiveGateway
      handleParallelGateway handleInclusiveGateway stable_rule)

text \<open>Reading the instance and its definition, when the instance is known to be ready.\<close>

lemma ready_instance_bind:
  assumes P: "Stable del navT P" "\<And>w. wf w \<Longrightarrow> P w \<Longrightarrow> tot \<longrightarrow> ready d0 i w"
    and f: "\<And>p. (tot \<longrightarrow> noParent p) \<Longrightarrow> Eff tot del navT (\<lambda>w. P w \<and> live tot d0 p w) (f p)"
  shows "Eff tot del navT P (bindM (callS (GetProcessInstance i)) f)"
proof (rule Eff_getter [OF Eff_reads(3) P(1),
      where Q = "\<lambda>p w. (tot \<longrightarrow> noParent p) \<and> live tot d0 p w"])
  fix w p w' assume w: "wf w" "P w" and "callS (GetProcessInstance i) w = (Inr p, w')"
  then have "w' = w" "map_of (instances (st w)) i = Some p"
    by (auto simp: callS_def GetProcessInstance_def split: option.splits)
  then show "(tot \<longrightarrow> noParent p) \<and> live tot d0 p w'"
    using P(2) [OF w] wf_inst [OF w(1)] by (fastforce simp: live_def seen_def ready_def)
next
  show "Eff tot del navT (\<lambda>w. P w \<and> (tot \<longrightarrow> noParent p) \<and> live tot d0 p w) (f p)" for p
    using f [of p] by (cases "tot \<longrightarrow> noParent p") (auto simp: eff_def)
qed

lemma ready_definition_bind:
  assumes f: "\<And>d. (tot \<longrightarrow> d = d0) \<Longrightarrow> Eff tot del navT (live tot d0 p) (f d)"
  shows "Eff tot del navT (live tot d0 p)
      (bindM (callS (GetProcessDefinition (pi_ProcessDefinitionID p))) f)"
proof (rule eng.bind_post [OF Eff_reads(4),
      where Q = "\<lambda>d w. (tot \<longrightarrow> d = d0) \<and> live tot d0 p w"])
  fix w d w' assume "live tot d0 p w" "callS (GetProcessDefinition (pi_ProcessDefinitionID p)) w = (Inr d, w')"
  then show "(tot \<longrightarrow> d = d0) \<and> live tot d0 p w'"
    by (auto simp: callS_def GetProcessDefinition_def live_def ready_def seen_def instStep_def sameInst_def
        split: option.splits)
next
  show "Eff tot del navT (\<lambda>w. (tot \<longrightarrow> d = d0) \<and> live tot d0 p w) (f d)" for d
    using f [of d] by (cases "tot \<longrightarrow> d = d0") (auto simp: eff_def)
qed

lemma navStep:
  "(tot \<longrightarrow> (\<forall>sf\<in>set (FindOutgoingFlows (pd_SequenceFlows d0) e). F sf)) \<Longrightarrow>
     Eff tot del navT (\<lambda>w. tot \<longrightarrow> ready d0 i w) (navStep E nav flow i e)"
  unfolding navStep_def
proof (intro ready_instance_bind eng.if_then_else eng.return stable_rule)
  fix p assume p: "tot \<longrightarrow> noParent p" "\<not> pi_State p \<noteq> Running"
    and out: "tot \<longrightarrow> (\<forall>sf\<in>set (FindOutgoingFlows (pd_SequenceFlows d0) e). F sf)"
  have "Eff tot del navT (live tot d0 p)
      (bindM (callS (GetProcessDefinition (pi_ProcessDefinitionID p))) (\<lambda>d. case element d e of
         None \<Rightarrow> throwM (ElementNotFound e) | Some el \<Rightarrow> leaveElement E nav flow d p e el))"
    using p out by (intro ready_definition_bind eng.opt_case eng.throw leaveElement) auto
  then show "Eff tot del navT (\<lambda>w. (tot \<longrightarrow> ready d0 i w) \<and> live tot d0 p w)
      (bindM (callS (GetProcessDefinition (pi_ProcessDefinitionID p))) (\<lambda>d. case element d e of
         None \<Rightarrow> throwM (ElementNotFound e) | Some el \<Rightarrow> leaveElement E nav flow d p e el))"
    by (rule eff_weaken) auto
qed

lemma enterUserTask: "Eff tot del navT (live tot d0 p) (enterUserTask E d p ut)"
proof -
  have assign: "Eff tot del navT P (bindM (assignTask E p ut a) f)"
    if "Stable del navT P" "\<And>x s. s \<noteq> ActivityCompleted \<Longrightarrow>
      Eff tot del navT P (f (a\<lparr>ai_Assignee := x, ai_State := s\<rparr>))" "ai_State a \<noteq> ActivityCompleted" for P a f
  proof -
    have "Eff tot del navT P (f a)" using that(2) [of "ai_State a" "ai_Assignee a"] that(3) by simp
    moreover have "Eff tot del navT P (f (a\<lparr>ai_Assignee := x\<rparr>))" for x
      using that(2) [of "ai_State a" x] that(3) by simp
    moreover have "Eff tot del navT P (f (a\<lparr>ai_State := ActivityUnclaimed\<rparr>))"
      using that(2) [of ActivityUnclaimed "ai_Assignee a"] by simp
    ultimately show ?thesis
      unfolding assignTask_def getVars_def [symmetric] setVar_def [symmetric] bindM_assoc Let_def
      using that(1)
      by (intro getVars_drop_bind) (auto simp: bindM_assoc intro!: eng.bind [OF Eff_setVar(1)])
  qed
  show ?thesis
    unfolding enterUserTask_def
    by (intro assign attachBoundaryEvents rules)
       (auto simp: NewActivityInstance_def NewToken_def actOK_def dest: live_hasInst)
qed

lemma recordPassage:
  "(\<And>w. wf w \<Longrightarrow> P w \<Longrightarrow> hasInst (pi_ID p) w) \<Longrightarrow> Stable del navT P \<Longrightarrow>
     Eff tot del navT P (recordPassage E p e ty)"
  unfolding recordPassage_def
  by (intro rules) (auto simp: Complete_def NewActivityInstance_def actOK_def)

lemma enterGateway:
  "(tot \<longrightarrow> G e) \<Longrightarrow> Eff tot del navT (live tot d0 p) (enterGateway E nav p e)"
  unfolding enterGateway_def by (intro rules) (auto simp: NewToken_def live_def dest: seen_hasInst)

text \<open>A token that has just been created is known.\<close>

lemma CreateToken_known:
  assumes P: "Stable del navT P" "\<And>w. wf w \<Longrightarrow> P w \<Longrightarrow> hasInst (tok_ProcessInstanceID t) w"
    and m: "Eff tot del navT (\<lambda>w. P w \<and> knownTok del t w) m"
  shows "Eff tot del navT P (bindM (callS (CreateToken t)) (\<lambda>_. m))"
proof (rule Eff_getter [OF Eff_CreateToken P(1) _ m])
  show "hasInst (tok_ProcessInstanceID t) w" if "wf w" "P w" for w using P(2) that .
  show "knownTok del t w'" if "wf w" "P w" "callS (CreateToken t) w = (Inr x, w')" for w x w'
    using that P(2) [OF that(1,2)]
    by (auto simp: callS_def CreateToken_def knownTok_def hasInst_def split: if_splits)
qed

lemma enterServiceTask:
  "(tot \<longrightarrow> G e) \<Longrightarrow> Eff tot del navT (live tot d0 p) (enterServiceTask E nav p e)"
  unfolding enterServiceTask_def Let_def
  by (intro recordPassage CreateToken_known rules) (auto simp: NewToken_def live_def dest: seen_hasInst)

end

section \<open>Definitions whose navigation ends\<close>

text \<open>No call activity and no signal is thrown: navigation stays in the instance.\<close>

fun localTarget :: "FlowElement \<Rightarrow> bool" where
  "localTarget (CallActivityEl c) = False"
| "localTarget (IntermediateThrowEventEl e) = (ite_SignalDefinition e = None)"
| "localTarget _ = True"

text \<open>Every path of flows from the element ends within \<open>n\<close> elements.\<close>

fun endsIn :: "nat \<Rightarrow> ProcessDefinition \<Rightarrow> string \<Rightarrow> bool" where
  "endsIn 0 d e = False"
| "endsIn (Suc n) d e = (\<forall>sf\<in>set (FindOutgoingFlows (pd_SequenceFlows d) e).
     case element d (sf_TargetRef sf) of None \<Rightarrow> True
     | Some el \<Rightarrow> localTarget el \<and> endsIn n d (GetID el))"

text \<open>The elements and flows that fuel \<open>m\<close> is enough for.\<close>

definition fuelElem :: "ProcessDefinition \<Rightarrow> nat \<Rightarrow> string \<Rightarrow> bool" where
  "fuelElem d m e \<longleftrightarrow> (\<exists>n. 2 * n \<le> m \<and> endsIn n d e)"

definition fuelFlow :: "ProcessDefinition \<Rightarrow> nat \<Rightarrow> SequenceFlow \<Rightarrow> bool" where
  "fuelFlow d m sf \<longleftrightarrow> 0 < m \<and> (case element d (sf_TargetRef sf) of None \<Rightarrow> True
     | Some el \<Rightarrow> localTarget el \<and> (\<exists>n. 2 * n + 1 \<le> m \<and> endsIn n d (GetID el)))"

lemma fuelElem_flows:
  assumes "fuelElem d (Suc m) e" and "sf \<in> set (FindOutgoingFlows (pd_SequenceFlows d) e)"
  shows "fuelFlow d m sf"
proof -
  obtain n where n: "2 * n \<le> Suc m" "endsIn n d e"
    using assms(1) by (auto simp: fuelElem_def)
  then obtain k where "n = Suc k" by (cases n) auto
  with n assms(2) show ?thesis
    by (auto simp: fuelFlow_def split: option.splits intro!: exI [of _ k])
qed

lemma fuelFlow_target:
  assumes "fuelFlow d (Suc m) sf" and "element d (sf_TargetRef sf) = Some el"
  shows "localTarget el" and "fuelElem d m (GetID el)"
    and "sf' \<in> set (FindOutgoingFlows (pd_SequenceFlows d) (GetID el)) \<Longrightarrow> fuelFlow d m sf'"
proof -
  obtain n where n: "2 * n \<le> m" "endsIn n d (GetID el)" and "localTarget el"
    using assms by (auto simp: fuelFlow_def)
  then show "localTarget el" and "fuelElem d m (GetID el)" by (auto simp: fuelElem_def)
  have "fuelElem d (Suc m) (GetID el)" using n by (auto simp: fuelElem_def intro!: exI [of _ n])
  then show "sf' \<in> set (FindOutgoingFlows (pd_SequenceFlows d) (GetID el)) \<Longrightarrow> fuelFlow d m sf'"
    by (rule fuelElem_flows)
qed

section \<open>The recursion\<close>

lemma takeStep:
  assumes nv: "navigation tot del nav flow (fuelElem d0 m) (fuelFlow d0 m) d0"
    and p: "pi_State p = Running" and t: "tot \<longrightarrow> d = d0 \<and> noParent p \<and> fuelFlow d0 (Suc m) sf"
  shows "Eff tot del navT (live tot d0 p) (takeStep E nav flow d p sf)"
proof (cases "element d (sf_TargetRef sf)")
  case None
  then show ?thesis by (simp add: takeStep_def eng.throw)
next
  case (Some el)
  have target: "tot \<longrightarrow> d = d0 \<and> noParent p \<and> localTarget el \<and> fuelElem d0 m (GetID el)
      \<and> (\<forall>sf\<in>set (FindOutgoingFlows (pd_SequenceFlows d0) (GetID el)). fuelFlow d0 m sf)"
    using t Some fuelFlow_target by blast
  note nv_rules = navigation.handleMultiInstanceTask [OF nv] navigation.enterUserTask [OF nv]
    navigation.enterServiceTask [OF nv] navigation.enterGateway [OF nv]
    navigation.handleIntermediateCatchEvent [OF nv] navigation.handleIntermediateThrowEvent [OF nv]
    navigation.handleCallActivity [OF nv] navigation.recordPassage [OF nv] navigation.nav_any [OF nv]
  show ?thesis
  proof (cases el)
    case (CallActivityEl c)
    with target show ?thesis
      using navigation.handleCallActivity [OF nv] by (simp add: takeStep_def Some)
  qed (use p target in \<open>auto simp: takeStep_def Some live_def dest: seen_hasInst
      intro!: nv_rules eng.bind eng.throw stable_rule\<close>)
qed

lemma navigation_fuel:
  "navigation tot del (navigateFrom E m) (takeSequenceFlow E m) (fuelElem d0 m) (fuelFlow d0 m) d0"
proof (induction m)
  case 0
  show ?case by unfold_locales (auto simp: fuelElem_def fuelFlow_def okErr_def intro: eng.throw)
next
  case (Suc m)
  show ?case
  proof
    show "Eff tot del navT (\<lambda>w. tot \<longrightarrow> ready d0 i w) (navigateFrom E (Suc m) i e)"
      if "tot \<longrightarrow> fuelElem d0 (Suc m) e" for i e
      using that fuelElem_flows by (auto intro: navigation.navStep [OF Suc])
    show "Eff tot del navT (live tot d0 p) (takeSequenceFlow E (Suc m) d p sf)"
      if "pi_State p = Running" "tot \<longrightarrow> d = d0 \<and> noParent p \<and> fuelFlow d0 (Suc m) sf" for p d sf
      using takeStep [OF Suc that] by simp
  qed
qed

text \<open>Without the promise of termination, and with it for a definition \<open>d\<close>.\<close>

interpretation nv: navigation False del "navigateFrom E m" "takeSequenceFlow E m"
    "fuelElem d m" "fuelFlow d m" d for del E m d
  by (rule navigation_fuel)

interpretation nt: navigation True False "navigateFrom E m" "takeSequenceFlow E m"
    "fuelElem d m" "fuelFlow d m" d for E m d
  by (rule navigation_fuel)

section \<open>Completing a task\<close>

lemma nav_mono: "navT \<subseteq> T\<^sup>* \<Longrightarrow> Eff False del navT P m \<Longrightarrow> Eff False del T P m"
  by (erule eff_mono) (erule keep_weaken, auto)

lemma Eff_recordHistory [eff_rule]: "Stable del T P \<Longrightarrow> Eff False del T P (recordHistory a)"
  unfolding recordHistory_def by (intro eff_getter eff_rule eng.control)

lemma hasPendingSigns_bind [eff_getter]:
  "Stable del T P \<Longrightarrow> (\<And>b. Eff False del T P (f b)) \<Longrightarrow> Eff False del T P (bindM (hasPendingSigns E p a) f)"
  unfolding hasPendingSigns_def by (rule eng.bind) (intro eff_rule eng.control, auto)

lemma Eff_DeleteToken: "Eff tot True T P (callS (DeleteToken i))"
proof (rule Eff_callS)
  fix w assume w: "wf w"
  have "wf (w\<lparr>st := st w\<lparr>tokens := AList.delete i (tokens (st w))\<rparr>\<rparr>)"
    using w by (auto simp: wf_def wfStore_def intro: keyed_delete)
  then show "keep True T w (snd (callS (DeleteToken i) w))"
    by (auto simp: callS_def DeleteToken_def keep_same_store intro!: keep_tokens)
qed simp

text \<open>Setting variables does nothing else.\<close>

lemma forM_SetVariable:
  "\<exists>m. forM (\<lambda>(k, v). callS (SetVariable i k v)) xs w = (Inr (), w\<lparr>st := st w\<lparr>variables := m\<rparr>\<rparr>)"
proof (induction xs arbitrary: w)
  case Nil
  have "w = w\<lparr>st := st w\<lparr>variables := variables (st w)\<rparr>\<rparr>" by simp
  then show ?case unfolding forM.simps returnM_def by blast
next
  case (Cons kv xs)
  obtain k v where kv: "kv = (k, v)" by (cases kv)
  let ?w = "snd (callS (SetVariable i k v) w)"
  obtain m where "forM (\<lambda>(k, v). callS (SetVariable i k v)) xs ?w
      = (Inr (), ?w\<lparr>st := st ?w\<lparr>variables := m\<rparr>\<rparr>)"
    using Cons.IH by blast
  then show ?case by (auto simp: kv bindM_def callS_def SetVariable_def)
qed

lemma rangeM_SetVariable:
  "\<exists>m. rangeM E vs (\<lambda>(k, v). callS (SetVariable i k v)) w
       = (Inr (), w\<lparr>ticks := Suc (ticks w), st := st w\<lparr>variables := m\<rparr>\<rparr>)"
  using forM_SetVariable [of i "mrange (iter E (ticks w)) vs" "w\<lparr>ticks := Suc (ticks w)\<rparr>"]
  by (simp add: rangeM_def tickM_def bindM_def)

lemma Eff_mergeVariables [eff_rule]: "Eff False del T P (mergeVariables E i vs)"
proof (rule effI)
  fix w assume w: "wf w"
  show "keep del T w (snd (mergeVariables E i vs w))"
  proof (cases "vs = [] \<or> map_of (instances (st w)) i = None")
    case True
    then show ?thesis
      by (auto simp: mergeVariables_def returnM_def bindM_def callS_def GetProcessInstance_def keep_same_store)
  next
    case False
    then obtain p where p: "map_of (instances (st w)) i = Some p" and vs: "vs \<noteq> []" by auto
    have i: "pi_ID p = i" and ok: "instOK p" "hasDef (pi_ProcessDefinitionID p) w"
      using wf_inst [OF w p] by auto
    let ?p = "p\<lparr>pi_Variables := fold (\<lambda>(k, v). AList.update k v) vs (pi_Variables p)\<rparr>"
    obtain m where m: "rangeM E vs (\<lambda>(k, v). callS (SetVariable (pi_ID p) k v)) w
        = (Inr (), w\<lparr>ticks := Suc (ticks w), st := st w\<lparr>variables := m\<rparr>\<rparr>)"
      using rangeM_SetVariable by blast
    have "st (snd (mergeVariables E i vs w)) = st w\<lparr>variables := m,
        instances := AList.update i ?p (instances (st w))\<rparr>"
      using vs m i by (simp add: mergeVariables_def bindM_def callS_def GetProcessInstance_def p UpdateProcessInstance_def)
    moreover have "wf (w\<lparr>st := st w\<lparr>instances := AList.update (pi_ID ?p) ?p (instances (st w))\<rparr>\<rparr>)"
      using w ok by (intro wf_put_instance) (simp_all add: instOK_def)
    moreover have "grows (instStep T) (instances (st w)) (AList.update i ?p (instances (st w)))"
      using p by (intro grows_update) (simp_all add: instStep_def sameInst_def)
    ultimately show ?thesis using i
      by (simp add: keep_def wf_def wfStore_def grows_refl)
  qed
qed (simp add: okErr_def)

lemma findSignIDM_bind [eff_getter]:
  "Stable del T P \<Longrightarrow> (\<And>i. Eff False del T P (f i)) \<Longrightarrow> Eff False del T P (bindM (findSignIDM E vs a) f)"
  unfolding findSignIDM_def bindM_assoc by (rule tickM_bind) simp_all

lemma Eff_completeSigns [eff_rule]: "Stable del T P \<Longrightarrow> Eff False del T P (completeSigns E i a)"
  unfolding completeSigns_def
  by (intro eff_getter eff_rule eng.control stable_rule) (auto simp: knownActs_def)

lemmas nv_rules = eff_getter eff_rule nv.nav_any Eff_DeleteToken eng.control stable_rule

lemma finishSigns:
  "(\<And>w. wf w \<Longrightarrow> P w \<Longrightarrow> hasInst (pi_ID p) w) \<Longrightarrow> Stable True navT P \<Longrightarrow>
     Eff False True navT P (finishSigns E (navigateFrom E n) p a vs s)"
  unfolding finishSigns_def Let_def by (intro nv_rules) (auto simp: NewToken_def intro!: nv_rules)

lemma handleSignCompletion:
  "(\<And>w. wf w \<Longrightarrow> P w \<Longrightarrow> hasInst (pi_ID p) w) \<Longrightarrow> Stable True navT P \<Longrightarrow>
     Eff False True navT P (handleSignCompletion E (navigateFrom E n) p a vs)"
  unfolding handleSignCompletion_def Let_def by (intro finishSigns nv_rules) auto

lemma handleDelegateCompletion:
  "(\<And>w. wf w \<Longrightarrow> P w \<Longrightarrow> hasInst (pi_ID p) w) \<Longrightarrow> Stable del navT P \<Longrightarrow>
     Eff False del navT P (handleDelegateCompletion E p a)"
  unfolding handleDelegateCompletion_def
  by (intro nv.user_task_case nv_rules) (auto simp: NewActivityInstance_def NewToken_def actOK_def)

lemma advanceTask: "Stable del navT P \<Longrightarrow> Eff False del navT P (advanceTask E (navigateFrom E n) a)"
  unfolding advanceTask_def
  by (intro handleDelegateCompletion nv_rules) (auto dest: seen_hasInst)

lemma completeTaskTx:
  assumes "Stable True navT P" and "\<And>w. wf w \<Longrightarrow> P w \<Longrightarrow> ai_State a \<noteq> ActivityCompleted \<and> knownAct a w"
  shows "Eff False True navT P (completeTaskTx E (navigateFrom E n) a vs)"
  unfolding completeTaskTx_def
  using assms by (intro handleSignCompletion advanceTask nv_rules) (auto dest: seen_hasInst)

lemma Eff_runWithLock [eff_rule]: "Eff False del T P m \<Longrightarrow> Eff False del T P (runWithLock E i m)"
  unfolding runWithLock_def by (intro eff_rule eng.control)

lemma Eff_CompleteTask: "Eff False True navT (\<lambda>_. True) (CompleteTask E n i vs)"
  unfolding CompleteTask_def by (intro completeTaskTx Eff_runWithLock nv_rules) auto

section \<open>The other task operations\<close>

text \<open>An update of fields other than the identity, under the lock version that was read.\<close>

lemma Eff_assign [eff_rule]:
  assumes known: "\<And>w. wf w \<Longrightarrow> P w \<Longrightarrow> ai_State a \<noteq> ActivityCompleted \<and> actOK a \<and> knownAct a w"
  shows "Eff False del T P (callS (UpdateActivityInstance (a\<lparr>ai_Assignee := b\<rparr>)))"
    and "s = ActivityActive \<or> s = ActivityUnclaimed \<Longrightarrow> Eff False del T P (callS (UpdateActivityInstance
          (a\<lparr>ai_Assignee := b, ai_ClaimTime := c, ai_State := s\<rparr>)))"
    and "Eff False del T P (callS (UpdateActivityInstance (a\<lparr>ai_ExpireTime := e, ai_TermMode := m\<rparr>)))"
proof -
  have *: "Eff False del T P (callS (UpdateActivityInstance a'))"
    if a': "ai_State a \<noteq> ActivityCompleted \<Longrightarrow> actOK a \<Longrightarrow>
        actOK a' \<and> activityStep a (a'\<lparr>ai_LockVersion := ai_LockVersion a' + 1\<rparr>)"
      "ai_LockVersion a' = ai_LockVersion a" "ai_ID a' = ai_ID a"
      "ai_ProcessInstanceID a' = ai_ProcessInstanceID a" for a'
  proof (cases "ai_State a \<noteq> ActivityCompleted \<and> actOK a")
    case True
    then show ?thesis using a' known by (intro Eff_UpdateActivity [where a = a]) auto
  next
    case False
    then show ?thesis using known by (auto simp: eff_def)
  qed
  show "Eff False del T P (callS (UpdateActivityInstance (a\<lparr>ai_Assignee := b\<rparr>)))"
    "Eff False del T P (callS (UpdateActivityInstance (a\<lparr>ai_ExpireTime := e, ai_TermMode := m\<rparr>)))"
    by (intro *; simp add: actOK_def activityStep_def)+
  show "Eff False del T P (callS (UpdateActivityInstance
       (a\<lparr>ai_Assignee := b, ai_ClaimTime := c, ai_State := s\<rparr>)))"
    if "s = ActivityActive \<or> s = ActivityUnclaimed"
    using that by (intro *) (auto simp: actOK_def activityStep_def)
qed

lemma Eff_GetCandidates [eff_rule]: "Stable del T P \<Longrightarrow> Eff False del T P (GetCandidates i)"
  unfolding GetCandidates_def by (intro eff_getter eff_rule eng.control stable_rule)

lemmas op_rules = eff_getter eff_rule eng.control stable_rule

lemma Eff_DelegateTask: "Eff False del T (\<lambda>_. True) (DelegateTask i b)"
  unfolding DelegateTask_def by (intro op_rules) auto

lemma Eff_TransferTask: "Eff False del T (\<lambda>_. True) (TransferTask i b)"
  unfolding TransferTask_def by (intro op_rules) auto

lemma Eff_ClaimTask: "Eff False del T (\<lambda>_. True) (ClaimTask E i u)"
  unfolding ClaimTask_def by (intro op_rules) auto

lemma Eff_UnclaimTask: "Eff False del T (\<lambda>_. True) (UnclaimTask i)"
  unfolding UnclaimTask_def by (intro op_rules) auto

lemma Eff_SetTimeout: "Eff False del T (\<lambda>_. True) (SetTimeout E i d m)"
  unfolding SetTimeout_def by (intro op_rules) auto

lemma Eff_AddSign: "Eff False del T (\<lambda>_. True) (AddSign E i ty s as)"
  unfolding AddSign_def addSignActivity_def
  by (intro op_rules) (auto simp: NewActivityInstance_def NewToken_def actOK_def dest: seen_hasInst)

lemma Eff_RemoveSign: "Eff False del T (\<lambda>_. True) (RemoveSign E i u)"
  unfolding RemoveSign_def by (intro op_rules) (auto simp: knownActs_def)

lemma Eff_UrgeTask: "Eff False del T (\<lambda>_. True) (UrgeTask i)"
  unfolding UrgeTask_def Let_def by (intro op_rules)

lemma Eff_CcTask: "Eff False del T (\<lambda>_. True) (CcTask E i u)"
  unfolding CcTask_def by (intro op_rules)

section \<open>Rejecting, reclaiming, jumping\<close>

lemma rejectTarget_error: "rejectTarget d a ty t = Inl e \<Longrightarrow> e \<noteq> OutOfFuel"
  by (auto simp: rejectTarget_def Let_def split: RejectType.splits if_splits)

lemma Eff_cleanUp [eff_rule]:
  "Stable del T P \<Longrightarrow> Eff False del T P (cleanDelegateVars i a)"
  "Stable del T P \<Longrightarrow> Eff False del T P (cleanSignVars E i a)"
  unfolding cleanDelegateVars_def cleanSignVars_def
  by (intro op_rules; assumption | auto simp: Let_def intro!: op_rules)+

lemma assigneeFor_bind [eff_getter]:
  "Stable del T P \<Longrightarrow> (\<And>x. Eff False del T P (f x)) \<Longrightarrow> Eff False del T P (bindM (assigneeFor E d i e) f)"
  unfolding assigneeFor_def
  by (auto simp: bindM_assoc split: option.split FlowElement.split intro: getVars_drop_bind)

definition rejectT :: transitions where
  "rejectT = {(Running, Rejected)}"

lemma rejectT_step: "(Running, s) \<in> rejectT\<^sup>* \<Longrightarrow> (s, Rejected) \<in> rejectT\<^sup>*"
  by (erule rtranclE) (auto simp: rejectT_def)

lemma rejectTerminate:
  assumes "pi_State p = Running" "ai_State a \<noteq> ActivityCompleted" "Stable del rejectT P"
    and "\<And>w. wf w \<Longrightarrow> P w \<Longrightarrow> seen rejectT p w \<and> knownAct a w"
  shows "Eff False del rejectT P (rejectTerminate E p a reason)"
  unfolding rejectTerminate_def
  using assms
  by (intro eff_getter eff_rule eng.control stable_rule Eff_UpdateInstance [where p = p])
     (auto simp: knownToks_def instOK_def ended_def sameInst_def intro: rejectT_step)

lemma rejectTo:
  assumes "ai_State a \<noteq> ActivityCompleted" "Stable del T P"
    and "\<And>w. wf w \<Longrightarrow> P w \<Longrightarrow> hasInst (pi_ID p) w \<and> knownAct a w"
  shows "Eff False del T P (rejectTo E d p a ty reason n e)"
  unfolding rejectTo_def
  using assms
  by (intro eff_getter eff_rule eng.control stable_rule)
     (auto simp: knownToks_def NewToken_def NewActivityInstance_def actOK_def)

lemma Eff_RejectTask: "Eff False del rejectT (\<lambda>_. True) (RejectTask E i ty reason target)"
  unfolding RejectTask_def Let_def
  by (intro rejectTerminate rejectTo eff_getter eff_rule eng.control stable_rule)
     (auto dest: seen_hasInst rejectTarget_error)

lemma Eff_ReclaimTask: "Eff False del T (\<lambda>_. True) (ReclaimTask E i)"
  unfolding ReclaimTask_def Let_def
  by (intro eff_getter eff_rule eng.control stable_rule)
     (auto simp: NewToken_def NewActivityInstance_def actOK_def dest: seen_hasInst)

lemma Eff_JumpTask: "Eff False del navT (\<lambda>_. True) (JumpTask E n i target)"
  unfolding JumpTask_def arriveAtJumpTarget_def
  by (intro eff_getter eff_rule nv.nav_any eng.control stable_rule)
     (auto simp: knownToks_def NewToken_def NewActivityInstance_def actOK_def dest: seen_hasInst)

section \<open>The life cycle\<close>

definition suspendT :: transitions where "suspendT = {(Running, Suspended)}"
definition resumeT :: transitions where "resumeT = {(Suspended, Running)}"
definition terminateT :: transitions where
  "terminateT = {(Running, Terminated), (Suspended, Terminated), (Rejected, Terminated)}"

lemma lifecycle_steps:
  "(Running, s) \<in> suspendT\<^sup>* \<Longrightarrow> (s, Suspended) \<in> suspendT\<^sup>*"
  "(Suspended, s) \<in> resumeT\<^sup>* \<Longrightarrow> (s, Running) \<in> resumeT\<^sup>*"
  by (erule rtranclE; auto simp: suspendT_def resumeT_def)+

lemma terminate_step:
  assumes "(u, s) \<in> terminateT\<^sup>*" and "u \<noteq> Completed" and "u \<noteq> Terminated"
  shows "(s, Terminated) \<in> terminateT\<^sup>*"
  using assms by (cases s; cases u) (auto elim!: converse_rtranclE simp: terminateT_def)

lemma Eff_SuspendProcessInstance: "Eff False del suspendT (\<lambda>_. True) (SuspendProcessInstance i)"
  unfolding SuspendProcessInstance_def
proof (intro GetProcessInstance_bind eng.require_bind stable_rule)
  fix p assume "instOK p" "pi_State p = Running"
  then show "Eff False del suspendT (\<lambda>w. True \<and> seen suspendT p w)
      (callS (UpdateProcessInstance (p\<lparr>pi_State := Suspended\<rparr>)))"
    by (intro Eff_UpdateInstance [where p = p])
       (auto simp: instOK_def ended_def sameInst_def intro: lifecycle_steps)
qed simp

lemma Eff_ResumeProcessInstance: "Eff False del resumeT (\<lambda>_. True) (ResumeProcessInstance i)"
  unfolding ResumeProcessInstance_def
proof (intro GetProcessInstance_bind eng.require_bind stable_rule)
  fix p assume "instOK p" "pi_State p = Suspended"
  then show "Eff False del resumeT (\<lambda>w. True \<and> seen resumeT p w)
      (callS (UpdateProcessInstance (p\<lparr>pi_State := Running\<rparr>)))"
    by (intro Eff_UpdateInstance [where p = p])
       (auto simp: instOK_def ended_def sameInst_def intro: lifecycle_steps)
qed simp

lemma Eff_writeTerminated:
  assumes "pi_State p \<noteq> Completed \<and> pi_State p \<noteq> Terminated"
    and "\<And>w. wf w \<Longrightarrow> P w \<Longrightarrow> seen terminateT p w"
  shows "Eff False del terminateT P (callS (UpdateProcessInstance (p\<lparr>pi_State := Terminated, pi_EndedAt := Some now\<rparr>)))"
  using assms by (intro Eff_UpdateInstance [where p = p])
    (auto simp: instOK_def ended_def sameInst_def intro: terminate_step)

lemma Eff_TerminateProcessInstance:
  "Eff False del terminateT (\<lambda>_. True) (TerminateProcessInstance E i)"
  unfolding TerminateProcessInstance_def
  by (intro Eff_writeTerminated eff_getter eff_rule eng.control stable_rule)
     (auto simp: knownToks_def knownActs_def)

section \<open>Starting, signals, timeouts\<close>

lemma CreateInstance_known:
  assumes "instOK q" and "\<And>w. wf w \<Longrightarrow> P w \<Longrightarrow> hasDef (pi_ProcessDefinitionID q) w"
    and "Stable del T P" and m: "Eff False del T (\<lambda>w. P w \<and> hasInst (pi_ID q) w) m"
  shows "Eff False del T P (bindM (callS (CreateProcessInstance q)) (\<lambda>_. m))"
proof (rule Eff_getter [OF Eff_CreateInstance assms(3) _ m])
  show "hasInst (pi_ID q) w'" if "callS (CreateProcessInstance q) w = (Inr x, w')" for w x w'
    using that by (auto simp: callS_def CreateProcessInstance_def hasInst_def split: if_splits)
qed (use assms in auto)

lemma Eff_Start: "Eff False del navT (\<lambda>_. True) (StartProcessInstanceWithBusinessKey E n d k t vs)"
  unfolding StartProcessInstanceWithBusinessKey_def Let_def
  by (intro CreateInstance_known nv.startFrom eff_getter eff_rule eng.control stable_rule)
     (auto simp: NewProcessInstance_def instOK_def ended_def)

lemma Eff_StartProcessInstance: "Eff False del navT (\<lambda>_. True) (StartProcessInstance E n d vs)"
  unfolding StartProcessInstance_def by (rule Eff_Start)

lemma Eff_StartProcessInstanceByKey:
  "Eff False del navT (\<lambda>_. True) (StartProcessInstanceByKey E n key k t vs)"
  unfolding StartProcessInstanceByKey_def by (intro eff_any [OF Eff_Start] eff_getter stable_rule)

lemma Eff_signals:
  "Eff False del navT (\<lambda>_. True) (ReceiveSignal E n ref)"
  "Eff False del navT (\<lambda>_. True) (ReceiveMessage E n ref)"
  unfolding ReceiveSignal_def ReceiveMessage_def by (intro nv.fireSignal stable_rule; simp)+

lemma Eff_checkActivities: "Eff False True navT (\<lambda>_. True) (checkActivities E n c as)"
proof (induction as arbitrary: c)
  case (Cons a as)
  then show ?case
    by (auto simp: autoCompleteTask_def autoRejectTask_def split: option.split
        intro!: nowM_bind stable_rule eng.bind eng.try_call Eff_CompleteTask eng.sum_case eng.return)
qed (simp add: eng.return)

lemma tally_bind:
  "Eff False del T (\<lambda>_. True) m \<Longrightarrow> (\<And>c. Eff False del T (\<lambda>_. True) (f c)) \<Longrightarrow>
     Eff False del T (\<lambda>_. True) (bindM m (\<lambda>(c, failed). case failed of Some e \<Rightarrow> returnM (c, Some e) | None \<Rightarrow> f c))"
  by (intro eng.bind stable_rule) (auto intro: eng.return split: option.split)

lemma Eff_checkInstances: "Eff False True navT (\<lambda>_. True) (checkInstances E n c ps)"
proof (induction ps arbitrary: c)
  case (Cons p ps)
  then show ?case
    by (auto intro!: eng.bind eff_rule stable_rule eng.try_call eng.sum_case tally_bind Eff_checkActivities)
qed (simp add: eng.return)

lemma Eff_checkDefinitions: "Eff False True navT (\<lambda>_. True) (checkDefinitions E n c ds)"
proof (induction ds arbitrary: c)
  case (Cons d ds)
  then show ?case
    by (auto intro!: eng.bind eff_rule stable_rule eng.try_call eng.sum_case tally_bind Eff_checkInstances)
qed (simp add: eng.return)

lemma Eff_CheckTimeouts: "Eff False True navT (\<lambda>_. True) (CheckTimeouts E n)"
  unfolding CheckTimeouts_def by (intro eng.bind eff_rule stable_rule Eff_checkDefinitions)

section \<open>All commands\<close>

fun cmdT :: "command \<Rightarrow> transitions" where
  "cmdT (CStart defID vs) = navT"
| "cmdT (CStartByKey key businessKey vs) = navT"
| "cmdT (CComplete i vs) = navT"
| "cmdT (CJump i t) = navT"
| "cmdT CCheckTimeouts = navT"
| "cmdT (CSignal r) = navT"
| "cmdT (CMessage r) = navT"
| "cmdT (CSuspend i) = suspendT"
| "cmdT (CResume i) = resumeT"
| "cmdT (CTerminate i) = terminateT"
| "cmdT (CReject i rejectType reason t) = rejectT"
| "cmdT _ = {}"

text \<open>Only the end of a sign session deletes tokens; it is reached by completing a task.\<close>

fun mayDelete :: "command \<Rightarrow> bool" where
  "mayDelete (CComplete i vs) = True"
| "mayDelete CCheckTimeouts = True"
| "mayDelete _ = False"

lemma Eff_voidM: "Eff False del T (\<lambda>_. True) m \<Longrightarrow> Eff False del T (\<lambda>_. True) (voidM m)"
  unfolding voidM_def by (intro eng.bind eng.return stable_rule)

lemma Eff_exec: "Eff False (mayDelete c) (cmdT c) (\<lambda>_. True) (exec E n c)"
  by (cases c)
     (auto intro: Eff_voidM Eff_StartProcessInstance Eff_StartProcessInstanceByKey Eff_CompleteTask
       Eff_JumpTask Eff_CheckTimeouts Eff_signals Eff_SuspendProcessInstance Eff_ResumeProcessInstance
       Eff_TerminateProcessInstance Eff_RejectTask Eff_ClaimTask Eff_UnclaimTask Eff_TransferTask
       Eff_DelegateTask Eff_ReclaimTask Eff_UrgeTask Eff_CcTask Eff_AddSign Eff_RemoveSign Eff_SetTimeout)

end
