(* ===== verification/Fuel.thy ===== *)
theory Fuel imports Navigator begin

text \<open>
  The fuel of the navigator. More fuel never changes a result that did not run out
  (\<open>approx\<close>), and there is enough fuel for every definition whose flows do not loop.
\<close>

section \<open>More fuel changes nothing\<close>

locale more_fuel =
  fixes nav nav' :: navF and flow flow' :: flowF
  assumes nav_approx: "approx OutOfFuel (nav i e) (nav' i e)"
    and flow_approx: "approx OutOfFuel (flow d p sf) (flow' d p sf)"
begin

lemmas mono = nav_approx flow_approx approx_refl approx_bind approx_for approx_if approx_let approx_option

lemma sum_approx:
  "(\<And>y. approx OutOfFuel (f y) (f' y)) \<Longrightarrow> approx OutOfFuel (optionM x f) (optionM x f')"
  unfolding optionM_def by (intro mono)

lemma completion_approx:
  "approx OutOfFuel (checkParentCompletion E nav p) (checkParentCompletion E nav' p)"
  "approx OutOfFuel (checkComplete E nav p) (checkComplete E nav' p)"
  "approx OutOfFuel (handleEndEvent E nav p e) (handleEndEvent E nav' p e)"
  unfolding checkComplete_def handleEndEvent_def checkParentCompletion_def by (intro mono)+

lemma outgoing_approx:
  "approx OutOfFuel (handleOutgoingFlows E nav flow d p fs) (handleOutgoingFlows E nav' flow' d p fs)"
  unfolding handleOutgoingFlows_def
  by (cases fs) (simp_all only: list.case, (intro mono completion_approx)+)

lemma gateway_approx:
  "approx OutOfFuel (handleExclusiveGateway E flow d p fs gw) (handleExclusiveGateway E flow' d p fs gw)"
  "approx OutOfFuel (handleParallelGateway E nav flow d p fs g) (handleParallelGateway E nav' flow' d p fs g)"
  "approx OutOfFuel (handleInclusiveGateway E flow d p fs gw) (handleInclusiveGateway E flow' d p fs gw)"
  unfolding handleExclusiveGateway_def handleParallelGateway_def handleInclusiveGateway_def Let_def
  by (intro mono completion_approx)+

lemma event_approx:
  "approx OutOfFuel (triggerEventElement E nav i e) (triggerEventElement E nav' i e)"
  "approx OutOfFuel (fireSignal E nav ref) (fireSignal E nav' ref)"
  "approx OutOfFuel (handleIntermediateThrowEvent E nav flow d p ite) (handleIntermediateThrowEvent E nav' flow' d p ite)"
  "approx OutOfFuel (startFrom E nav d p) (startFrom E nav' d p)"
  "approx OutOfFuel (handleCallActivity E nav d p ca) (handleCallActivity E nav' d p ca)"
  unfolding triggerEventElement_def fireSignal_def handleIntermediateThrowEvent_def startFrom_def
    handleCallActivity_def
  by (intro mono completion_approx sum_approx)+

lemma multi_approx:
  "approx OutOfFuel (handleMultiInstanceTask E nav flow d p ut) (handleMultiInstanceTask E nav' flow' d p ut)"
  "approx OutOfFuel (leaveMultiInstance E nav flow d p fs e) (leaveMultiInstance E nav' flow' d p fs e)"
  unfolding handleMultiInstanceTask_def leaveMultiInstance_def Let_def
  by (intro mono outgoing_approx)+

lemma step_approx:
  "approx OutOfFuel (navStep E nav flow i e) (navStep E nav' flow' i e)"
  "approx OutOfFuel (takeStep E nav flow d p sf) (takeStep E nav' flow' d p sf)"
proof -
  have "approx OutOfFuel (leaveElement E nav flow d p e el) (leaveElement E nav' flow' d p e el)" for d p e el
    unfolding leaveElement_def Let_def
    by (cases el; simp only: FlowElement.case; intro mono completion_approx outgoing_approx gateway_approx multi_approx)
  then show "approx OutOfFuel (navStep E nav flow i e) (navStep E nav' flow' i e)"
    unfolding navStep_def by (intro mono)
  have enter: "approx OutOfFuel (enterServiceTask E nav p i) (enterServiceTask E nav' p i)"
    "approx OutOfFuel (enterGateway E nav p i) (enterGateway E nav' p i)" for i
    unfolding enterServiceTask_def enterGateway_def Let_def by (intro mono)+
  show "approx OutOfFuel (takeStep E nav flow d p sf) (takeStep E nav' flow' d p sf)"
    unfolding takeStep_def
    apply (intro approx_option approx_refl)
    subgoal for el
      by (cases el; simp only: FlowElement.case; intro mono enter event_approx multi_approx)
    done
qed

end

lemma more_fuel_Suc:
  "more_fuel (navigateFrom E n) (navigateFrom E (Suc n)) (takeSequenceFlow E n) (takeSequenceFlow E (Suc n))"
proof (induction n)
  case 0
  show ?case by unfold_locales (simp_all add: approx_oof)
next
  case (Suc n)
  have nav: "navigateFrom E (Suc m) i e = navStep E (navigateFrom E m) (takeSequenceFlow E m) i e"
    and flow: "takeSequenceFlow E (Suc m) d p sf = takeStep E (navigateFrom E m) (takeSequenceFlow E m) d p sf"
    for m i e d p sf by simp_all
  show ?case
    by unfold_locales
       (subst nav flow, subst nav flow, rule more_fuel.step_approx [OF Suc])+
qed

lemma more_fuel_le:
  assumes "m \<le> n"
  shows "more_fuel (navigateFrom E m) (navigateFrom E n) (takeSequenceFlow E m) (takeSequenceFlow E n)"
  using assms
proof (induction n rule: dec_induct)
  case base
  show ?case by unfold_locales (rule approx_refl)+
next
  case (step n)
  then show ?case
    using more_fuel_Suc [of E n] unfolding more_fuel_def by (blast intro: approx_trans)
qed

interpretation fuel: more_fuel "navigateFrom E m" "navigateFrom E (m + k)"
    "takeSequenceFlow E m" "takeSequenceFlow E (m + k)" for E m k
  by (rule more_fuel_le) simp

end
