(* ===== verification/StoreLaws.thy ===== *)
theory StoreLaws imports MemStore begin

text \<open>
  The contract of the tables of the store, as locales: what the engine may rely on when it
  creates, reads and updates an entity, and the optimistic locking of the versioned tables.
  The interpretations discharge the contracts for the operations of the memory store. The
  second part is about the queries and their pages.
\<close>

section \<open>Tables of entities\<close>

locale entity_table =
  fixes table :: "Store \<Rightarrow> 'v gomap"
    and idOf :: "'v \<Rightarrow> string"
    and create :: "'v \<Rightarrow> unit storeM"
    and get :: "string \<Rightarrow> 'v storeM"
  assumes create_fresh: "map_of (table s) (idOf v) = None \<Longrightarrow>
        fst (create v s) = Inr () \<and> map_of (table (snd (create v s))) = (map_of (table s))(idOf v \<mapsto> v)"
    and create_taken: "map_of (table s) (idOf v) = Some u \<Longrightarrow> create v s = (Inl (AlreadyExists (idOf v)), s)"
    and get_stored: "map_of (table s) i = Some v \<Longrightarrow> get i s = (Inr v, s)"
    and get_missing: "map_of (table s) i = None \<Longrightarrow> get i s = (Inl (NotFound i), s)"
begin

lemma get_after_create:
  assumes "fst (create v s) = Inr ()"
  shows "get i (snd (create v s)) = (if i = idOf v then (Inr v, snd (create v s))
           else (fst (get i s), snd (create v s)))"
proof -
  have "map_of (table s) (idOf v) = None"
    using assms create_taken by (cases "map_of (table s) (idOf v)") auto
  then have m: "map_of (table (snd (create v s))) = (map_of (table s))(idOf v \<mapsto> v)"
    using create_fresh by blast
  show ?thesis
  proof (cases "i = idOf v")
    case True
    with m show ?thesis by (simp add: get_stored)
  next
    case False
    with m show ?thesis
      by (cases "map_of (table s) i") (simp_all add: get_stored get_missing)
  qed
qed

lemma create_twice:
  assumes "fst (create v s) = Inr ()" and "idOf u = idOf v"
  shows "create u (snd (create v s)) = (Inl (AlreadyExists (idOf v)), snd (create v s))"
proof -
  have "map_of (table s) (idOf v) = None"
    using assms create_taken by (cases "map_of (table s) (idOf v)") auto
  then have "map_of (table (snd (create v s))) (idOf u) = Some v"
    using create_fresh assms(2) by simp
  then show ?thesis using create_taken assms(2) by metis
qed

lemma create_iff: "fst (create v s) = Inr () \<longleftrightarrow> map_of (table s) (idOf v) = None"
  using create_fresh create_taken by (cases "map_of (table s) (idOf v)") auto

end

text \<open>Tables whose entities carry a lock version.\<close>

locale versioned_table = entity_table table idOf create get
  for table :: "Store \<Rightarrow> 'v gomap" and idOf :: "'v \<Rightarrow> string"
    and create :: "'v \<Rightarrow> unit storeM" and get :: "string \<Rightarrow> 'v storeM" +
  fixes version :: "'v \<Rightarrow> int"
    and bump :: "'v \<Rightarrow> 'v"
    and update :: "'v \<Rightarrow> unit storeM"
  assumes update_current: "map_of (table s) (idOf v) = Some u \<Longrightarrow> version v = version u \<Longrightarrow>
        fst (update v s) = Inr () \<and> map_of (table (snd (update v s))) = (map_of (table s))(idOf v \<mapsto> bump v)"
    and update_stale: "map_of (table s) (idOf v) = Some u \<Longrightarrow> version v \<noteq> version u \<Longrightarrow>
        update v s = (Inl (OptimisticLocking (idOf v)), s)"
    and update_missing: "map_of (table s) (idOf v) = None \<Longrightarrow> update v s = (Inl (NotFound (idOf v)), s)"
    and bump: "idOf (bump v) = idOf v" "version (bump v) = version v + 1"
begin

text \<open>Of two writers that read the same version, the second fails.\<close>

lemma no_lost_update:
  assumes "fst (update v s) = Inr ()" and "idOf u = idOf v" and "version u = version v"
  shows "update u (snd (update v s)) = (Inl (OptimisticLocking (idOf v)), snd (update v s))"
proof -
  obtain x where x: "map_of (table s) (idOf v) = Some x" "version v = version x"
    using assms(1) update_missing update_stale by (metis Inl_Inr_False fst_conv option.exhaust)
  then have "map_of (table (snd (update v s))) (idOf u) = Some (bump v)"
    using update_current assms(2) by simp
  then show ?thesis using update_stale [of "snd (update v s)" u "bump v"] assms(2,3) bump by simp
qed

lemma read_modify_write:
  assumes "get i s = (Inr v, s)" and "idOf v = i" and "idOf v' = i" and "version v' = version v"
  shows "fst (update v' s) = Inr ()" and "get i (snd (update v' s)) = (Inr (bump v'), snd (update v' s))"
proof -
  have v: "map_of (table s) i = Some v"
    using assms(1) get_stored get_missing by (cases "map_of (table s) i") auto
  then show "fst (update v' s) = Inr ()" using update_current assms by metis
  show "get i (snd (update v' s)) = (Inr (bump v'), snd (update v' s))"
    using update_current [of s v' v] v assms by (intro get_stored) simp
qed

end

interpretation definitionTable: entity_table definitions pd_ID CreateProcessDefinition GetProcessDefinition
  by unfold_locales (auto simp: CreateProcessDefinition_def GetProcessDefinition_def)

interpretation instanceTable: entity_table instances pi_ID CreateProcessInstance GetProcessInstance
  by unfold_locales (auto simp: CreateProcessInstance_def GetProcessInstance_def)

interpretation activityTable: versioned_table activities ai_ID CreateActivityInstance GetActivityInstance
    ai_LockVersion "\<lambda>a. a\<lparr>ai_LockVersion := ai_LockVersion a + 1\<rparr>" UpdateActivityInstance
  by unfold_locales (auto simp: CreateActivityInstance_def GetActivityInstance_def UpdateActivityInstance_def)

interpretation tokenTable: versioned_table tokens tok_ID CreateToken GetToken
    tok_LockVersion "\<lambda>t. t\<lparr>tok_LockVersion := tok_LockVersion t + 1\<rparr>" UpdateToken
  by unfold_locales (auto simp: CreateToken_def GetToken_def UpdateToken_def)

section \<open>Variables\<close>

lemma GetVariable_value:
  "GetVariable i k s = (case map_of (instanceVars s i) k of
      None \<Rightarrow> (Inl (NotFound k), s) | Some v \<Rightarrow> (Inr v, s))"
  by (simp add: GetVariable_def instanceVars_def split: option.split)

lemma instanceVars_set:
  "map_of (instanceVars (snd (SetVariable i k v s)) j)
     = (if j = i then (map_of (instanceVars s i))(k \<mapsto> v) else map_of (instanceVars s j))"
  by (simp add: SetVariable_def instanceVars_def)

lemma instanceVars_delete:
  "map_of (instanceVars (snd (DeleteVariable i k s)) j)
     = (if j = i then (map_of (instanceVars s i))(k := None) else map_of (instanceVars s j))"
  by (auto simp: DeleteVariable_def instanceVars_def fun_upd_idem split: option.split)

section \<open>Pages\<close>

text \<open>With a page size and an offset in range, a page is a segment of the filtered list.\<close>

lemma paginate_page:
  assumes "0 \<le> offset" and "0 < limit" and "in64 (offset + limit)"
  shows "paginate offset limit xs = Some (take (nat limit) (drop (nat offset) xs))"
proof (cases "int (length xs) \<le> offset")
  case True
  with assms show ?thesis by (simp add: paginate_def)
next
  case False
  have "take (nat (int (length xs) - offset)) (drop (nat offset) xs) = take (nat limit) (drop (nat offset) xs)"
    if "int (length xs) < offset + limit"
    using that assms False by (simp add: nat_diff_distrib' nat_less_iff)
  with False assms show ?thesis
    by (auto simp: paginate_def Let_def)
qed

section \<open>One page of a query\<close>

text \<open>
  Every call ranges over the map of activities in an order of its own. Whatever the order, a page is a segment of a list of
  all matching activities, and the number reported is theirs.
\<close>

lemma length_mvalues:
  assumes "fair_order ord" and "distinct (map fst m)"
  shows "length (mvalues ord P m) = card {k. \<exists>v. map_of m k = Some v \<and> P v}"
proof -
  have d: "distinct (map fst (mrange ord m))" and s: "set (mrange ord m) = set m"
    using mrange_keys_distinct [OF assms] set_mrange [OF assms] by simp_all
  have "length (mvalues ord P m) = length (map fst (filter (\<lambda>(k, v). P v) (mrange ord m)))"
    by (simp add: mvalues_def filter_map comp_def split_def)
  also have "\<dots> = card (set (map fst (filter (\<lambda>(k, v). P v) (mrange ord m))))"
    using distinct_filter_keys [OF d] by (metis distinct_card)
  also have "set (map fst (filter (\<lambda>(k, v). P v) (mrange ord m))) = fst ` set (filter (\<lambda>(k, v). P v) (mrange ord m))"
    by simp
  also have "fst ` set (filter (\<lambda>(k, v). P v) (mrange ord m)) = {k. \<exists>v. map_of m k = Some v \<and> P v}"
    using assms(2) s by (force simp: image_iff)
  finally show ?thesis .
qed

text \<open>C25. A page of activities, whatever order the maps are read in: the call succeeds, the page is the segment asked for of a list that
  holds exactly the matching activities of the store, and the total is their number.\<close>

theorem activity_page:
  assumes "fair_order ord" and "distinct (map fst (activities s))"
    and "0 \<le> aq_Offset q" and "0 < aq_Limit q" and "in64 (aq_Offset q + aq_Limit q)"
  shows "\<exists>found. QueryActivities ord q s
      = Some (take (nat (aq_Limit q)) (drop (nat (aq_Offset q)) found), int (length found))
    \<and> set found = {a. matchesActQuery q a \<and> (\<exists>i. map_of (activities s) i = Some a)}
    \<and> length found = card {i. \<exists>a. map_of (activities s) i = Some a \<and> matchesActQuery q a}"
  using set_mvalues [OF assms(1,2), of "matchesActQuery q"] length_mvalues [OF assms(1,2), of "matchesActQuery q"]
  by (intro exI [of _ "mvalues ord (matchesActQuery q) (activities s)"])
     (simp add: QueryActivities_def paginate_page [OF assms(3-5)])

definition twoTasks :: Store where
  "twoTasks = NewStore\<lparr>activities := [(''a'', NewActivityInstance ''a'' ''p'' ''t'' ElementTypeUserTask),
     (''b'', NewActivityInstance ''b'' ''p'' ''u'' ElementTypeUserTask)]\<rparr>"

definition pageOf :: "int \<Rightarrow> int \<Rightarrow> ActQuery" where
  "pageOf offset limit = \<lparr>aq_ProcessInstanceID = ''p'', aq_Assignee = '''', aq_ActivityID = '''', aq_ActivityType = '''',
     aq_State = '''', aq_IsSign = None, aq_TenantID = '''', aq_Offset = offset, aq_Limit = limit\<rparr>"

theorem activity_page_witness:
  "\<exists>found. QueryActivities rev (pageOf 1 1) twoTasks = Some (take 1 (drop 1 found), int (length found))
    \<and> set found = {a. matchesActQuery (pageOf 1 1) a \<and> (\<exists>i. map_of (activities twoTasks) i = Some a)}
    \<and> length found = card {i. \<exists>a. map_of (activities twoTasks) i = Some a \<and> matchesActQuery (pageOf 1 1) a}"
  using activity_page [of rev twoTasks "pageOf 1 1"] by (simp add: fair_order_def twoTasks_def pageOf_def in64_def)

text \<open>
  Consecutive pages need not fit together: with another order in the second call, the same activity is on both pages of a store
  of two, and the other one on neither.
\<close>

theorem pages_may_repeat:
  "\<exists>a b. a \<noteq> b \<and> QueryActivities (\<lambda>ks. ks) (pageOf 0 1) twoTasks = Some ([a], 2)
     \<and> QueryActivities rev (pageOf 1 1) twoTasks = Some ([a], 2) \<and> b \<in> snd ` set (activities twoTasks)"
  by (rule exI [of _ "NewActivityInstance ''a'' ''p'' ''t'' ElementTypeUserTask"],
      rule exI [of _ "NewActivityInstance ''b'' ''p'' ''u'' ElementTypeUserTask"])
     (simp add: QueryActivities_def twoTasks_def pageOf_def mvalues_def mrange_def matchesActQuery_def NewActivityInstance_def
      paginate_def wrap64_id in64_def NewStore_def)

end
