(* ===== verification/EngineLaws.thy ===== *)
theory EngineLaws imports EngineEffects Fuel StoreLaws begin

text \<open>
  The functional behaviour of the building blocks of the engine: what exactly the loops that
  consume tokens, the gateways and the task operations do to the store.
\<close>

section \<open>Updating entries in place\<close>

text \<open>Applies \<open>f\<close> to the entries at the keys \<open>K\<close>.\<close>

definition mapAt :: "('v \<Rightarrow> 'v) \<Rightarrow> string set \<Rightarrow> 'v gomap \<Rightarrow> 'v gomap" where
  "mapAt f K m = map (\<lambda>(k, v). (k, if k \<in> K then f v else v)) m"

lemma mapAt_empty [simp]: "mapAt f {} m = m"
  by (simp add: mapAt_def)

lemma keys_mapAt [simp]: "map fst (mapAt f K m) = map fst m"
  by (induction m) (auto simp: mapAt_def)

lemma map_of_mapAt: "map_of (mapAt f K m) k = map_option (\<lambda>v. if k \<in> K then f v else v) (map_of m k)"
  by (induction m) (auto simp: mapAt_def)

lemma mapAt_mapAt: "A \<inter> B = {} \<Longrightarrow> mapAt f A (mapAt f B m) = mapAt f (A \<union> B) m"
  by (induction m) (auto simp: mapAt_def)

lemma mapAt_absent: "k \<notin> set (map fst m) \<Longrightarrow> mapAt f {k} m = m"
  by (induction m) (auto simp: mapAt_def)

lemma AList_update_mapAt:
  "map_of m k = Some v \<Longrightarrow> distinct (map fst m) \<Longrightarrow> AList.update k (f v) m = mapAt f {k} m"
proof (induction m)
  case (Cons kv m)
  then show ?case
    using mapAt_absent [of k m f] by (cases kv) (auto simp: mapAt_def)
qed simp

text \<open>A loop that updates distinct entries one after the other updates them all at once.\<close>

lemma forM_mapAt:
  assumes step: "\<And>x w. x \<in> set xs \<Longrightarrow> map_of (tab w) (key x) = Some x \<Longrightarrow> distinct (map fst (tab w)) \<Longrightarrow>
      g x w = (Inr (), put (mapAt f {key x} (tab w)) w)"
    and put: "\<And>m w. tab (put m w) = m" "\<And>m n w. put m (put n w) = put m w" "\<And>w. put (tab w) w = w"
    and xs: "distinct (map key xs)" "\<And>x. x \<in> set xs \<Longrightarrow> map_of (tab w) (key x) = Some x"
      "distinct (map fst (tab w))"
  shows "forM g xs w = (Inr (), put (mapAt f (key ` set xs) (tab w)) w)"
  using step xs
proof (induction xs arbitrary: w)
  case Nil
  then show ?case by (simp add: returnM_def put)
next
  case (Cons x xs)
  let ?w = "put (mapAt f {key x} (tab w)) w"
  have "g x w = (Inr (), ?w)" using Cons.prems by simp
  moreover have "forM g xs ?w = (Inr (), put (mapAt f (key ` set xs) (tab ?w)) ?w)"
  proof (rule Cons.IH)
    show "map_of (tab ?w) (key y) = Some y" if y: "y \<in> set xs" for y
    proof -
      have "key y \<noteq> key x" using Cons.prems(2) y by (auto simp: image_iff)
      then show ?thesis using Cons.prems(3) [of y] y by (simp add: put map_of_mapAt)
    qed
  qed (use Cons.prems in \<open>simp_all add: put\<close>)
  moreover have "mapAt f (key ` set xs) (mapAt f {key x} (tab w)) = mapAt f (key ` set (x # xs)) (tab w)"
    using Cons.prems(2) by (subst mapAt_mapAt) auto
  ultimately show ?case by (simp add: bindM_def put)
qed

section \<open>Consuming tokens\<close>

definition consumed :: "Token \<Rightarrow> Token" where
  "consumed t = t\<lparr>tok_State := TokenConsumed, tok_LockVersion := tok_LockVersion t + 1\<rparr>"

definition putTokens :: "Token gomap \<Rightarrow> world \<Rightarrow> world" where
  "putTokens m w = w\<lparr>st := st w\<lparr>tokens := m\<rparr>\<rparr>"

lemma putTokens_simps [simp]:
  "tokens (st (putTokens m w)) = m" "instances (st (putTokens m w)) = instances (st w)"
  "definitions (st (putTokens m w)) = definitions (st w)" "activities (st (putTokens m w)) = activities (st w)"
  "variables (st (putTokens m w)) = variables (st w)" "ticks (putTokens m w) = ticks w"
  "idCounter (putTokens m w) = idCounter w"
  "putTokens m (putTokens n w) = putTokens m w" "putTokens (tokens (st w)) w = w"
  by (simp_all add: putTokens_def)

lemma consumeToken_known:
  assumes "map_of (tokens (st w)) (tok_ID t) = Some t" and "distinct (map fst (tokens (st w)))"
  shows "consumeToken t w = (Inr (), putTokens (mapAt consumed {tok_ID t} (tokens (st w))) w)"
proof -
  have "AList.update (tok_ID t) (consumed t) (tokens (st w)) = mapAt consumed {tok_ID t} (tokens (st w))"
    using assms by (rule AList_update_mapAt)
  then show ?thesis
    using assms(1) by (simp add: consumeToken_def callS_def UpdateToken_def putTokens_def consumed_def)
qed

text \<open>The active tokens of an instance at an element, as the set of their keys.\<close>

definition activeAt :: "string \<Rightarrow> string \<Rightarrow> Token gomap \<Rightarrow> string set" where
  "activeAt i e m = {k. \<exists>t. map_of m k = Some t \<and> tok_ProcessInstanceID t = i
      \<and> tok_CurrentElementID t = e \<and> tok_State t = TokenActive}"

text \<open>The world after all active tokens of instance \<open>i\<close> at element \<open>e\<close> have been consumed.\<close>

definition consumedAt :: "string \<Rightarrow> string \<Rightarrow> world \<Rightarrow> world" where
  "consumedAt i e w = putTokens (mapAt consumed (activeAt i e (tokens (st w))) (tokens (st w))) w"

definition fairEnv :: "Env \<Rightarrow> bool" where
  "fairEnv E \<longleftrightarrow> (\<forall>n. fair_order (iter E n))"

definition ticked :: "world \<Rightarrow> world" where
  "ticked w = w\<lparr>ticks := Suc (ticks w)\<rparr>"

lemma ticked_simps [simp]: "st (ticked w) = st w" "ticks (ticked w) = Suc (ticks w)"
    "idCounter (ticked w) = idCounter w"
  by (simp_all add: ticked_def)

lemma listTokens_value:
  "listTokens E i w = (Inr (mvalues (iter E (ticks w))
      (\<lambda>t. tok_ProcessInstanceID t = i \<and> tok_State t = TokenActive) (tokens (st w))), ticked w)"
  by (simp add: listTokens_def rangeS_def tickM_def callS_def ListActiveTokens_def bindM_def ticked_def)

lemma mvalues_keys_distinct:
  assumes "fair_order ord" and "keyed idOf m"
  shows "distinct (map idOf (mvalues ord P m))"
proof -
  have "map idOf (map snd (mrange ord m)) = map fst (mrange ord m)"
    using assms(2) by (auto simp: keyed_def dest!: mrange_lookup)
  moreover have "distinct (map fst (mrange ord m))"
    using assms by (intro mrange_keys_distinct) (simp_all add: keyed_def)
  ultimately have "distinct (map idOf (map snd (mrange ord m)))" by (simp only:)
  then show ?thesis
    unfolding mvalues_def by (simp only: distinct_map_filter)
qed

lemma consumeAll_value:
  assumes E: "fair_order ord" and w: "wf w"
  shows "consumeAll e (mvalues ord (\<lambda>t. tok_ProcessInstanceID t = i \<and> tok_State t = TokenActive)
      (tokens (st w))) w = (Inr (), consumedAt i e w)"
proof -
  let ?m = "tokens (st w)"
  let ?ts = "mvalues ord (\<lambda>t. tok_ProcessInstanceID t = i \<and> tok_State t = TokenActive) ?m"
  let ?us = "filter (\<lambda>t. tok_CurrentElementID t = e) ?ts"
  have keyed: "keyed tok_ID ?m" using w by (simp add: wf_def wfStore_def)
  have loop: "forM (\<lambda>t. if P t then consumeToken t else returnM ()) xs = forM consumeToken (filter P xs)" for P xs
    by (induction xs) simp_all
  have "tok_ID ` set ?us = activeAt i e ?m"
    using set_mvalues [OF E, of ?m "\<lambda>t. tok_ProcessInstanceID t = i \<and> tok_State t = TokenActive"] keyed
    by (auto simp: activeAt_def keyed_def image_iff) metis
  moreover have "forM consumeToken ?us w
      = (Inr (), putTokens (mapAt consumed (tok_ID ` set ?us) ?m) w)"
  proof (rule forM_mapAt [where tab = "\<lambda>w. tokens (st w)" and put = putTokens])
    show "distinct (map tok_ID ?us)"
      using mvalues_keys_distinct [OF E keyed] by (simp add: distinct_map_filter)
    show "map_of ?m (tok_ID t) = Some t" if "t \<in> set ?us" for t
      using that keyed by (auto dest!: mvalues_lookup simp: keyed_def)
    show "distinct (map fst ?m)" using keyed by (simp add: keyed_def)
  qed (simp_all add: consumeToken_known)
  ultimately show ?thesis
    by (simp add: consumeAll_def loop consumedAt_def)
qed

lemma consumeAllAt_value:
  assumes "fairEnv E" and "wf w"
  shows "consumeAllAt E i e w = (Inr (), consumedAt i e (ticked w))"
proof -
  have "wf (ticked w)" using assms(2) by (simp add: wf_def)
  then have "consumeAll e (mvalues (iter E (ticks w))
      (\<lambda>t. tok_ProcessInstanceID t = i \<and> tok_State t = TokenActive) (tokens (st (ticked w)))) (ticked w)
        = (Inr (), consumedAt i e (ticked w))"
    using assms(1) by (intro consumeAll_value) (simp_all add: fairEnv_def)
  then show ?thesis
    by (simp add: consumeAllAt_def listTokens_value bindM_def)
qed

lemma wf_ticked [simp]: "wf (ticked w) = wf w"
  by (simp add: wf_def)

lemma consumedAt_simps [simp]:
  "instances (st (consumedAt i e w)) = instances (st w)"
  "definitions (st (consumedAt i e w)) = definitions (st w)"
  "activities (st (consumedAt i e w)) = activities (st w)"
  "variables (st (consumedAt i e w)) = variables (st w)"
  "instanceVars (st (consumedAt i e w)) j = instanceVars (st w) j"
  by (simp_all add: consumedAt_def instanceVars_def)

text \<open>After the loop the instance has no active token at the element; other tokens are as before.\<close>

lemma consumedAt_tokens:
  "map_of (tokens (st (consumedAt i e w))) k = (case map_of (tokens (st w)) k of
      None \<Rightarrow> None
    | Some t \<Rightarrow> Some (if tok_ProcessInstanceID t = i \<and> tok_CurrentElementID t = e \<and> tok_State t = TokenActive
                      then consumed t else t))"
  by (auto simp: consumedAt_def map_of_mapAt activeAt_def split: option.split)

lemma activeAt_consumedAt:
  "activeAt j f (tokens (st (consumedAt i e w)))
     = (if i = j \<and> e = f then {} else activeAt j f (tokens (st w)))"
  by (auto simp: activeAt_def consumedAt_tokens consumed_def split: option.splits if_splits)

section \<open>Gateways\<close>

text \<open>Whether a flow's condition holds or fails; a flow without a condition does neither.\<close>

definition holds :: "Env \<Rightarrow> vars \<Rightarrow> SequenceFlow \<Rightarrow> bool" where
  "holds E vs sf \<longleftrightarrow> (\<exists>c. sf_ConditionExpression sf = Some c \<and> evaluateCondition E c vs = Inr True)"

definition declines :: "Env \<Rightarrow> vars \<Rightarrow> SequenceFlow \<Rightarrow> bool" where
  "declines E vs sf \<longleftrightarrow> (\<forall>c. sf_ConditionExpression sf = Some c \<longrightarrow> evaluateCondition E c vs = Inr False)"

lemma firstMatch_Some_iff:
  "firstMatch E vs fs = Inr (Some sf) \<longleftrightarrow>
     (\<exists>pre post. fs = pre @ sf # post \<and> holds E vs sf \<and> (\<forall>x\<in>set pre. declines E vs x))"
proof (induction fs)
  case (Cons f fs)
  have split: "(\<exists>pre post. f # fs = pre @ sf # post \<and> Q pre) \<longleftrightarrow>
      f = sf \<and> Q [] \<or> (\<exists>pre post. fs = pre @ sf # post \<and> Q (f # pre))" for Q
    by (auto simp: Cons_eq_append_conv)
  show ?case
    using Cons.IH unfolding split [where Q = "\<lambda>pre. holds E vs sf \<and> (\<forall>x\<in>set pre. declines E vs x)"]
    by (auto simp: holds_def declines_def split: option.splits sum.splits if_splits)
qed simp

lemma firstMatch_None_iff: "firstMatch E vs fs = Inr None \<longleftrightarrow> (\<forall>x\<in>set fs. declines E vs x)"
  by (induction fs) (auto simp: declines_def split: option.splits sum.splits)

lemma exclusiveTarget_iff:
  "exclusiveTarget E vs gw fs = Inr sf \<longleftrightarrow>
     (\<exists>pre post. fs = pre @ sf # post \<and> holds E vs sf \<and> (\<forall>x\<in>set pre. declines E vs x))
   \<or> (\<forall>x\<in>set fs. declines E vs x) \<and> defaultFlow gw fs = Some sf"
proof -
  have "(\<exists>pre post. fs = pre @ sf # post \<and> holds E vs sf \<and> (\<forall>x\<in>set pre. declines E vs x))
      \<longleftrightarrow> firstMatch E vs fs = Inr (Some sf)"
    by (simp add: firstMatch_Some_iff)
  moreover have "(\<forall>x\<in>set fs. declines E vs x) \<longleftrightarrow> firstMatch E vs fs = Inr None"
    by (simp add: firstMatch_None_iff)
  ultimately show ?thesis
    by (auto simp: exclusiveTarget_def split: sum.splits option.splits)
qed

lemma handleExclusiveGateway_value:
  assumes "fairEnv E" and "wf w"
  shows "handleExclusiveGateway E flow d p out gw w =
    (case exclusiveTarget E (instanceVars (st w) (pi_ID p)) gw out of
       Inl e \<Rightarrow> (Inl e, w)
     | Inr sf \<Rightarrow> flow d p sf (consumedAt (pi_ID p) (gw_ID gw) (ticked w)))"
  using consumeAllAt_value [OF assms]
  by (auto simp: handleExclusiveGateway_def callS_def GetAllVariables_def bindM_def liftE_def throwM_def
      returnM_def split: sum.split)

lemma activatedFlows_iff:
  "activatedFlows E vs fs = Inr as \<longleftrightarrow>
     (\<forall>x\<in>set fs. holds E vs x \<or> declines E vs x)
   \<and> as = filter (\<lambda>x. sf_ConditionExpression x = None \<or> holds E vs x) fs"
proof (induction fs arbitrary: as)
  case (Cons f fs)
  show ?case
  proof (cases "activatedFlows E vs fs")
    case (Inl e)
    then have "\<not> (\<forall>x\<in>set fs. holds E vs x \<or> declines E vs x)" using Cons.IH by force
    with Inl show ?thesis by (auto split: option.splits sum.splits)
  next
    case (Inr bs)
    then have "\<forall>x\<in>set fs. holds E vs x \<or> declines E vs x"
      and "bs = filter (\<lambda>x. sf_ConditionExpression x = None \<or> holds E vs x) fs"
      using Cons.IH by blast+
    with Inr show ?thesis by (auto simp: holds_def declines_def split: option.splits sum.splits)
  qed
qed auto

lemma handleInclusiveGateway_value:
  assumes "fairEnv E" and "wf w"
  shows "handleInclusiveGateway E flow d p out gw w =
    (let w' = consumedAt (pi_ID p) (gw_ID gw) (ticked w)
     in case inclusiveTargets E (instanceVars (st w) (pi_ID p)) gw out of
          Inl e \<Rightarrow> (Inl e, w') | Inr fs \<Rightarrow> forM (flow d p) fs w')"
  using consumeAllAt_value [OF assms]
  by (auto simp: handleInclusiveGateway_def callS_def GetAllVariables_def bindM_def liftE_def throwM_def
      returnM_def Let_def split: sum.split)

section \<open>The counter of a parallel join\<close>

definition withVar :: "string \<Rightarrow> string \<Rightarrow> gval \<Rightarrow> world \<Rightarrow> world" where
  "withVar i k v w = w\<lparr>st := snd (SetVariable i k v (st w))\<rparr>"

definition withoutVar :: "string \<Rightarrow> string \<Rightarrow> world \<Rightarrow> world" where
  "withoutVar i k w = w\<lparr>st := snd (DeleteVariable i k (st w))\<rparr>"

lemma withVar_simps [simp]:
  "tokens (st (withVar i k v w)) = tokens (st w)" "instances (st (withVar i k v w)) = instances (st w)"
  "definitions (st (withVar i k v w)) = definitions (st w)"
  "activities (st (withVar i k v w)) = activities (st w)"
  "tokens (st (withoutVar i k w)) = tokens (st w)" "instances (st (withoutVar i k w)) = instances (st w)"
  "definitions (st (withoutVar i k w)) = definitions (st w)"
  "activities (st (withoutVar i k w)) = activities (st w)"
  by (auto simp: withVar_def withoutVar_def SetVariable_def DeleteVariable_def split: option.split)

lemma withVar_vars:
  "map_of (instanceVars (st (withVar i k v w)) j)
     = (if j = i then (map_of (instanceVars (st w) i))(k \<mapsto> v) else map_of (instanceVars (st w) j))"
  "map_of (instanceVars (st (withoutVar i k w)) j)
     = (if j = i then (map_of (instanceVars (st w) i))(k := None) else map_of (instanceVars (st w) j))"
  by (simp_all add: withVar_def withoutVar_def instanceVars_set instanceVars_delete)

lemma wf_withVar [simp]: "wf (withVar i k v w) = wf w"
  by (simp add: wf_def wfStore_def)

lemma SetVariable_callS: "callS (SetVariable i k v) w = (Inr (), withVar i k v w)"
  by (simp add: callS_def SetVariable_def withVar_def)

lemma DeleteVariable_callS:
  "map_of (instanceVars (st w) i) k \<noteq> None \<Longrightarrow> callS (DeleteVariable i k) w = (Inr (), withoutVar i k w)"
  by (auto simp: callS_def DeleteVariable_def withoutVar_def instanceVars_def split: option.splits)

definition arrivedAt :: "string \<Rightarrow> string \<Rightarrow> world \<Rightarrow> rat" where
  "arrivedAt i g w = assertFloat (map_of (instanceVars (st w) i) (arrivalKey g))"

lemma handleParallelGateway_join:
  fixes d :: ProcessDefinition
  assumes E: "fairEnv E" "wf w"
    and n: "n = countEffectiveIncoming (FindIncomingFlows (pd_SequenceFlows d) g) d" "1 < n"
    and w': "w' = withVar (pi_ID p) (arrivalKey g) (GFloat (arrivedAt (pi_ID p) g w + 1)) w"
  shows "handleParallelGateway E nav flow d p out g w =
    (if truncRat (arrivedAt (pi_ID p) g w + 1) < n then (Inr (), w')
     else (if out = [] then checkComplete E nav p else forM (flow d p) out)
       (withoutVar (pi_ID p) (arrivalKey g) (consumedAt (pi_ID p) g (ticked w'))))"
proof -
  have "wf w'" using E(2) w' by simp
  note consumed = consumeAllAt_value [OF E(1) this]
  have "map_of (instanceVars (st (consumedAt (pi_ID p) g (ticked w'))) (pi_ID p)) (arrivalKey g) \<noteq> None"
    using w' by (simp add: withVar_vars)
  note deleted = DeleteVariable_callS [OF this]
  have get: "callS (GetAllVariables i) w = (Inr (instanceVars (st w) i), w)" for i w
    by (simp add: callS_def GetAllVariables_def)
  have set: "callS (SetVariable (pi_ID p) (arrivalKey g) (GFloat (assertFloat
      (map_of (instanceVars (st w) (pi_ID p)) (arrivalKey g)) + 1))) w = (Inr (), w')"
    using w' by (simp add: SetVariable_callS arrivedAt_def)
  show ?thesis
    using n(2) unfolding handleParallelGateway_def Let_def n(1) [symmetric]
    by (simp add: bindM_def get set consumed deleted arrivedAt_def returnM_def del: truncRat_of_int)
qed

lemma handleParallelGateway_split:
  assumes "fairEnv E" and "wf w"
    and "\<not> 1 < countEffectiveIncoming (FindIncomingFlows (pd_SequenceFlows d) g) d"
  shows "handleParallelGateway E nav flow d p out g w =
    (if out = [] then checkComplete E nav p else forM (flow d p) out) (consumedAt (pi_ID p) g (ticked w))"
  using consumeAllAt_value [OF assms(1,2)] assms(3)
  by (simp add: handleParallelGateway_def Let_def bindM_def)

end
