(* ===== verification/Runs.thy ===== *)
theory Runs imports EngineLaws begin

text \<open>
  Deployment of definitions (engine/deployment.go), and the runs of the whole engine: the
  worlds reached from an empty store by deployments and commands in any order.
\<close>

section \<open>The latest version of a key\<close>

lemma latestLoop_cases:
  "(latestLoop key l ds = None \<longleftrightarrow> l = None \<and> (\<forall>d\<in>set ds. pd_Key d \<noteq> key))
   \<and> (\<forall>m. latestLoop key l ds = Some m \<longrightarrow>
        (l = Some m \<or> m \<in> set ds \<and> pd_Key m = key)
      \<and> (\<forall>d. d \<in> set ds \<and> pd_Key d = key \<or> l = Some d \<longrightarrow> pd_Version d \<le> pd_Version m))"
proof (induction ds arbitrary: l)
  case (Cons d ds)
  show ?case
    using Cons.IH [of l] Cons.IH [of "Some d"]
    by (cases l) (auto; force)+
qed auto

definition storedVersions :: "string \<Rightarrow> Store \<Rightarrow> int set" where
  "storedVersions key s = {pd_Version d | d. \<exists>i. map_of (definitions s) i = Some d \<and> pd_Key d = key}"

lemma GetLatest_cases:
  assumes "fair_order ord" and "distinct (map fst (definitions s))"
  shows "GetLatestProcessDefinitionByKey ord key s = (Inl (NotFound key), s) \<and> storedVersions key s = {}
    \<or> (\<exists>i d. GetLatestProcessDefinitionByKey ord key s = (Inr d, s) \<and> map_of (definitions s) i = Some d
          \<and> pd_Key d = key \<and> (\<forall>v\<in>storedVersions key s. v \<le> pd_Version d))"
  using latestLoop_cases [of key None "mvalues ord (\<lambda>_. True) (definitions s)"] set_mvalues [OF assms, of "\<lambda>_. True"]
  unfolding GetLatestProcessDefinitionByKey_def storedVersions_def
  by (cases "latestLoop key None (mvalues ord (\<lambda>_. True) (definitions s))") auto

section \<open>Identifiers of deployed definitions\<close>

lemma decDigits_decimal: "0 \<le> i \<Longrightarrow> set (decDigits i) \<subseteq> set ''0123456789''"
proof (induction i rule: decDigits.induct)
  case (1 i)
  have digit: "digitChar d \<in> set ''0123456789''" if "0 \<le> d" "d < 10" for d
  proof -
    have "d \<in> set [0..9]" using that by auto
    then show ?thesis by (simp add: digitChar_def upto.simps nth_Cons' nat_eq_iff) (elim disjE; simp)
  qed
  show ?case
  proof (cases "i < 10")
    case True
    then show ?thesis using digit [of i] 1 by (simp add: decDigits.simps [of i])
  next
    case False
    then show ?thesis using digit [of "i mod 10"] 1 by (simp add: decDigits.simps [of i])
  qed
qed

text \<open>A decimal numeral determines its number.\<close>

lemma decDigits_inj: "0 \<le> i \<Longrightarrow> 0 \<le> j \<Longrightarrow> decDigits i = decDigits j \<Longrightarrow> i = j"
proof (induction i arbitrary: j rule: decDigits.induct)
  case (1 i)
  have digit: "d = e" if "digitChar d = digitChar e" "0 \<le> d" "d < 10" "0 \<le> e" "e < 10" for d e
    using that hexVal_digit [of d] hexVal_digit [of e] by simp
  have nonempty: "decDigits k \<noteq> []" for k by (simp add: decDigits.simps [of k])
  show ?case
  proof (cases "i < 10")
    case True
    then have "decDigits j = [digitChar i]" using 1 by (simp add: decDigits.simps [of i])
    then have "j < 10 \<and> digitChar j = digitChar i"
      using nonempty [of "j div 10"] by (subst (asm) decDigits.simps) (auto split: if_splits)
    then show ?thesis using True 1 digit [of j i] by simp
  next
    case False
    then have *: "decDigits j = decDigits (i div 10) @ [digitChar (i mod 10)]"
      using 1 by (simp add: decDigits.simps [of i])
    then have "\<not> j < 10 \<and> decDigits (j div 10) = decDigits (i div 10) \<and> digitChar (j mod 10) = digitChar (i mod 10)"
      using nonempty [of "i div 10"] by (subst (asm) decDigits.simps) (auto split: if_splits)
    moreover from this have "i mod 10 = j mod 10"
      using False 1 digit [of "j mod 10" "i mod 10"] by simp
    moreover have "i div 10 = j div 10"
      using False 1 calculation by (intro "1.IH") (auto simp: pos_imp_zdiv_nonneg_iff)
    ultimately show ?thesis by (metis div_mult_mod_eq)
  qed
qed

lemma break_at: "\<forall>c\<in>set xs. P c \<Longrightarrow> \<not> P y \<Longrightarrow>
     takeWhile P (xs @ y # ys) = xs \<and> dropWhile P (xs @ y # ys) = y # ys"
  by (induction xs) auto

lemma deployedID_eq_iff:
  assumes "0 \<le> v" "0 \<le> v'"
  shows "deployedID key v = deployedID key' v' \<longleftrightarrow> key = key' \<and> v = v'"
proof
  assume eq: "deployedID key v = deployedID key' v'"
  have split: "takeWhile (\<lambda>c. c \<noteq> CHR ''v'') (rev (deployedID k u)) = rev (decDigits u)
      \<and> dropWhile (\<lambda>c. c \<noteq> CHR ''v'') (rev (deployedID k u)) = CHR ''v'' # CHR '':'' # rev k"
    if "0 \<le> u" for k u
  proof -
    have "\<forall>c\<in>set (rev (decDigits u)). c \<noteq> CHR ''v''"
      using decDigits_decimal [OF that] by auto
    then show ?thesis
      using that break_at [of "rev (decDigits u)" "\<lambda>c. c \<noteq> CHR ''v''" "CHR ''v''" "CHR '':'' # rev k"]
      by (simp add: deployedID_def fmtDec_def)
  qed
  show "key = key' \<and> v = v'"
    using split [OF assms(1), of key] split [OF assms(2), of key'] eq decDigits_inj [OF assms] by simp
qed simp

section \<open>Deployment\<close>

text \<open>The store with one more definition.\<close>

definition withDef :: "ProcessDefinition \<Rightarrow> world \<Rightarrow> world" where
  "withDef d w = w\<lparr>st := st w\<lparr>definitions := AList.update (pd_ID d) d (definitions (st w))\<rparr>\<rparr>"

definition deployedAs :: "ProcessDefinition \<Rightarrow> int \<Rightarrow> ProcessDefinition" where
  "deployedAs d v = d\<lparr>pd_Version := v, pd_ID := deployedID (pd_Key d) v\<rparr>"

lemma DeployProcessDefinition_cases:
  fixes E w d
  defines "r \<equiv> DeployProcessDefinition E d w" and "w1 \<equiv> ticked w"
  assumes "fair_order (iter E (ticks w))" "distinct (map fst (definitions (st w)))" "pd_Key d \<noteq> ''''"
  obtains v where "v = 1 \<and> storedVersions (pd_Key d) (st w) = {}
      \<or> (\<exists>u\<in>storedVersions (pd_Key d) (st w). v = wrap64 (u + 1) \<and> (\<forall>x\<in>storedVersions (pd_Key d) (st w). x \<le> u))"
    and "r = (if map_of (definitions (st w)) (deployedID (pd_Key d) v) \<noteq> None
        then (Inl (AlreadyExists (deployedID (pd_Key d) v)), w1) else (Inr (deployedAs d v), withDef (deployedAs d v) w1))"
proof -
  have latest: "tryM (rangeS E (\<lambda>ord. GetLatestProcessDefinitionByKey ord (pd_Key d))) w
      = (Inr (fst (GetLatestProcessDefinitionByKey (iter E (ticks w)) (pd_Key d) (st w))), w1)"
    using GetLatest_cases [OF assms(3,4), of "pd_Key d"]
    by (auto simp: tryM_def rangeS_def tickM_def callS_def bindM_def w1_def ticked_def)
  have create: "r = (case fst (GetLatestProcessDefinitionByKey (iter E (ticks w)) (pd_Key d) (st w)) of
       Inr e \<Rightarrow> bindM (callS (CreateProcessDefinition (deployedAs d (wrap64 (pd_Version e + 1)))))
                 (\<lambda>_. returnM (deployedAs d (wrap64 (pd_Version e + 1)))) w1
     | Inl (NotFound _) \<Rightarrow> bindM (callS (CreateProcessDefinition (deployedAs d 1))) (\<lambda>_. returnM (deployedAs d 1)) w1
     | Inl e \<Rightarrow> (Inl e, w1))"
    using assms(5) unfolding r_def DeployProcessDefinition_def
    by (auto simp: bindM_def latest requireM_def returnM_def throwM_def deployedAs_def Let_def split: sum.splits err.splits)
  have made: "bindM (callS (CreateProcessDefinition (deployedAs d v))) (\<lambda>_. returnM (deployedAs d v)) w1
      = (if map_of (definitions (st w)) (deployedID (pd_Key d) v) \<noteq> None
         then (Inl (AlreadyExists (deployedID (pd_Key d) v)), w1)
         else (Inr (deployedAs d v), withDef (deployedAs d v) w1))" for v
    by (simp add: bindM_def callS_def CreateProcessDefinition_def returnM_def deployedAs_def withDef_def w1_def)
  from GetLatest_cases [OF assms(3,4), of "pd_Key d"] show thesis
  proof
    assume none: "GetLatestProcessDefinitionByKey (iter E (ticks w)) (pd_Key d) (st w) = (Inl (NotFound (pd_Key d)), st w)
        \<and> storedVersions (pd_Key d) (st w) = {}"
    then show thesis
      using create made [of 1] by (intro that [of 1]) auto
  next
    assume "\<exists>i e. GetLatestProcessDefinitionByKey (iter E (ticks w)) (pd_Key d) (st w) = (Inr e, st w)
        \<and> map_of (definitions (st w)) i = Some e
        \<and> pd_Key e = pd_Key d \<and> (\<forall>v\<in>storedVersions (pd_Key d) (st w). v \<le> pd_Version e)"
    then obtain i e where e: "GetLatestProcessDefinitionByKey (iter E (ticks w)) (pd_Key d) (st w) = (Inr e, st w)"
      "map_of (definitions (st w)) i = Some e" "pd_Key e = pd_Key d"
      "\<forall>v\<in>storedVersions (pd_Key d) (st w). v \<le> pd_Version e" by blast
    then show thesis
      using create made [of "wrap64 (pd_Version e + 1)"]
      by (intro that [of "wrap64 (pd_Version e + 1)"]) (auto simp: storedVersions_def)
  qed
qed

text \<open>Whatever the outcome, well-formedness stays and nothing else is touched.\<close>

lemma DeployProcessDefinition_keeps:
  assumes "fairEnv E" and "wf w"
  shows "wf (snd (DeployProcessDefinition E d w))"
proof (cases "pd_Key d = ''''")
  case True
  then show ?thesis using assms by (simp add: DeployProcessDefinition_def bindM_def requireM_def throwM_def)
next
  case False
  have dist: "distinct (map fst (definitions (st w)))" using assms(2) by (simp add: wf_def wfStore_def keyed_def)
  have fair: "fair_order (iter E (ticks w))" using assms(1) by (simp add: fairEnv_def)
  from DeployProcessDefinition_cases [OF fair dist False] obtain v where
    "DeployProcessDefinition E d w = (if map_of (definitions (st w)) (deployedID (pd_Key d) v) \<noteq> None
        then (Inl (AlreadyExists (deployedID (pd_Key d) v)), ticked w)
        else (Inr (deployedAs d v), withDef (deployedAs d v) (ticked w)))" by blast
  then show ?thesis
    using assms(2) by (auto simp: wf_def wfStore_def withDef_def keyed_update deployedAs_def split: if_splits)
qed

section \<open>Runs of the engine\<close>

text \<open>
  Deployments and commands, in any order, with any fuel and whether they succeed or fail,
  starting from the store made by \<open>New\<close>.
\<close>

inductive reachable :: "Env \<Rightarrow> world \<Rightarrow> bool" for E where
  reach_new: "st w = NewStore \<Longrightarrow> reachable E w"
| reach_deploy: "reachable E w \<Longrightarrow> reachable E (snd (DeployProcessDefinition E d w))"
| reach_command: "reachable E w \<Longrightarrow> reachable E (snd (exec E n c w))"

lemma keep_exec: "wf w \<Longrightarrow> keep (mayDelete c) (cmdT c) w (snd (exec E n c w))"
  using effD [OF Eff_exec] by simp

lemma reachable_wf:
  assumes "fairEnv E" and "reachable E w"
  shows "wf w"
  using assms(2)
proof induction
  case (reach_command w n c)
  then show ?case using keep_exec [of w c E n] by (simp add: keep_def)
next
  case (reach_deploy w d)
  then show ?case using assms(1) by (intro DeployProcessDefinition_keeps)
qed (simp add: wf_def wfStore_new)

text \<open>Every definition is stored under the identifier made of its key and version.\<close>

definition deployedIDs :: "Store \<Rightarrow> bool" where
  "deployedIDs s \<longleftrightarrow> (\<forall>i d. map_of (definitions s) i = Some d \<longrightarrow> i = deployedID (pd_Key d) (pd_Version d))"


lemma reachable_deployedIDs:
  assumes "fairEnv E" and "reachable E w"
  shows "deployedIDs (st w)"
  using assms(2)
proof induction
  case (reach_new w)
  then show ?case by (simp add: deployedIDs_def NewStore_def)
next
  case (reach_command w n c)
  have "definitions (st (snd (exec E n c w))) = definitions (st w)"
    using keep_exec [OF reachable_wf [OF assms(1) reach_command(1)], of c E n] by (simp add: keep_def)
  with reach_command show ?case by (simp add: deployedIDs_def)
next
  case (reach_deploy w d)
  show ?case
  proof (cases "pd_Key d = ''''")
    case True
    then show ?thesis
      using reach_deploy by (simp add: DeployProcessDefinition_def bindM_def requireM_def throwM_def)
  next
    case False
    have dist: "distinct (map fst (definitions (st w)))"
      using reachable_wf [OF assms(1) reach_deploy(1)] by (simp add: wf_def wfStore_def keyed_def)
    have fair: "fair_order (iter E (ticks w))" using assms(1) by (simp add: fairEnv_def)
    from DeployProcessDefinition_cases [OF fair dist False] obtain v where
      "DeployProcessDefinition E d w = (if map_of (definitions (st w)) (deployedID (pd_Key d) v) \<noteq> None
          then (Inl (AlreadyExists (deployedID (pd_Key d) v)), ticked w)
          else (Inr (deployedAs d v), withDef (deployedAs d v) (ticked w)))" by blast
    then show ?thesis
      using reach_deploy(2) by (auto simp: deployedIDs_def withDef_def deployedAs_def)
  qed
qed

definition nextVersion :: "string \<Rightarrow> Store \<Rightarrow> int" where
  "nextVersion key s = (if storedVersions key s = {} then 1 else Max (storedVersions key s) + 1)"

lemma finite_storedVersions: "finite (storedVersions key s)"
proof -
  have "storedVersions key s \<subseteq> pd_Version ` snd ` set (definitions s)"
    by (force simp: storedVersions_def dest: map_of_SomeD)
  then show ?thesis by (rule finite_subset) simp
qed

lemma deploy_value:
  assumes "fairEnv E" "wf w" "deployedIDs (st w)" "pd_Key d \<noteq> ''''"
    and versions: "\<And>i e. map_of (definitions (st w)) i = Some e \<Longrightarrow> 0 \<le> pd_Version e \<and> pd_Version e < 2 ^ 63 - 1"
  defines "d' \<equiv> deployedAs d (nextVersion (pd_Key d) (st w))"
  shows "DeployProcessDefinition E d w = (Inr d', withDef d' (ticked w))"
    and "map_of (definitions (st w)) (pd_ID d') = None"
proof -
  let ?V = "storedVersions (pd_Key d) (st w)"
  have dist: "distinct (map fst (definitions (st w)))" using assms(2) by (simp add: wf_def wfStore_def keyed_def)
  have fair: "fair_order (iter E (ticks w))" using assms(1) by (simp add: fairEnv_def)
  from DeployProcessDefinition_cases [OF fair dist assms(4)] obtain v where
    v: "v = 1 \<and> ?V = {} \<or> (\<exists>u\<in>?V. v = wrap64 (u + 1) \<and> (\<forall>x\<in>?V. x \<le> u))"
    and r: "DeployProcessDefinition E d w = (if map_of (definitions (st w)) (deployedID (pd_Key d) v) \<noteq> None
        then (Inl (AlreadyExists (deployedID (pd_Key d) v)), ticked w)
        else (Inr (deployedAs d v), withDef (deployedAs d v) (ticked w)))" by blast
  have bounds: "0 \<le> u \<and> u < 2 ^ 63 - 1" if "u \<in> ?V" for u
    using that versions by (auto simp: storedVersions_def)
  have eq: "v = nextVersion (pd_Key d) (st w)"
  proof (cases "?V = {}")
    case False
    then obtain u where u: "u \<in> ?V" "v = wrap64 (u + 1)" "\<forall>x\<in>?V. x \<le> u" using v by blast
    then have "Max ?V = u" using finite_storedVersions by (intro Max_eqI) auto
    moreover have "in64 (u + 1)" using bounds [OF u(1)] by (simp add: in64_def)
    ultimately show ?thesis using u(2) False by (simp add: nextVersion_def)
  qed (use v in \<open>auto simp: nextVersion_def\<close>)
  have above: "x < v" if "x \<in> ?V" for x
    using that finite_storedVersions [of "pd_Key d" "st w"] by (auto simp: eq nextVersion_def less_le_trans)
  have nonneg: "0 \<le> v"
    using above bounds by (cases "?V = {}") (auto simp: eq nextVersion_def, fastforce)
  have "map_of (definitions (st w)) (deployedID (pd_Key d) v) = None"
  proof (rule ccontr)
    assume "map_of (definitions (st w)) (deployedID (pd_Key d) v) \<noteq> None"
    then obtain e where e: "map_of (definitions (st w)) (deployedID (pd_Key d) v) = Some e" by blast
    then have "deployedID (pd_Key d) v = deployedID (pd_Key e) (pd_Version e)"
      using assms(3) by (simp add: deployedIDs_def)
    then have "pd_Key e = pd_Key d \<and> pd_Version e = v"
      using versions [OF e] nonneg by (simp add: deployedID_eq_iff)
    then have "v \<in> ?V" using e by (auto simp: storedVersions_def)
    then show False using above by blast
  qed
  with r show "DeployProcessDefinition E d w = (Inr d', withDef d' (ticked w))"
    and "map_of (definitions (st w)) (pd_ID d') = None"
    by (simp_all add: d'_def deployedAs_def eq)
qed

text \<open>No command makes an instance take two steps of its life cycle.\<close>

lemma cmdT_single: "(s, s') \<in> (cmdT c)\<^sup>* \<longleftrightarrow> s' = s \<or> (s, s') \<in> cmdT c"
proof
  have no_chain: "(b, d) \<notin> cmdT c" if "(a, b) \<in> cmdT c" for a b d
    using that by (cases c) (auto simp: navT_def suspendT_def resumeT_def terminateT_def rejectT_def)
  show "(s, s') \<in> (cmdT c)\<^sup>* \<Longrightarrow> s' = s \<or> (s, s') \<in> cmdT c"
    by (induction rule: rtrancl_induct) (auto dest: no_chain)
qed auto

end
