(* ===== verification/Termination.thy ===== *)
theory Termination imports EngineEffects Fuel begin

text \<open>
  Fuel, for whole commands: more of it changes no result that did not run out, and twice the
  length of the longest path of a definition without loops is enough to start it.
\<close>

section \<open>More fuel\<close>

lemma approx_voidM: "approx oof m m' \<Longrightarrow> approx oof (voidM m) (voidM m')"
  unfolding voidM_def by (intro approx_rule)

lemma CompleteTask_approx: "approx OutOfFuel (CompleteTask E m i vs) (CompleteTask E (m + k) i vs)"
proof -
  have "approx OutOfFuel (handleSignCompletion E (navigateFrom E m) p ai vs)
      (handleSignCompletion E (navigateFrom E (m + k)) p ai vs)" for p ai
    unfolding handleSignCompletion_def finishSigns_def Let_def by (intro fuel.mono)
  moreover have "approx OutOfFuel (advanceTask E (navigateFrom E m) ai) (advanceTask E (navigateFrom E (m + k)) ai)" for ai
    unfolding advanceTask_def by (intro fuel.mono)
  ultimately have "approx OutOfFuel (completeTaskTx E (navigateFrom E m) ai vs)
      (completeTaskTx E (navigateFrom E (m + k)) ai vs)" for ai
    unfolding completeTaskTx_def by (intro fuel.mono)
  moreover have "approx OutOfFuel a b \<Longrightarrow> approx OutOfFuel (runWithLock E i a) (runWithLock E i b)" for a b :: "unit engM" and i
    unfolding runWithLock_def by (auto simp: approx_refl split: option.split)
  ultimately show ?thesis
    unfolding CompleteTask_def by (intro fuel.mono) blast
qed

lemma Start_approx:
  "approx OutOfFuel (StartProcessInstanceWithBusinessKey E m d b t vs)
     (StartProcessInstanceWithBusinessKey E (m + k) d b t vs)"
  unfolding StartProcessInstanceWithBusinessKey_def Let_def
  by (intro fuel.mono fuel.event_approx)

lemma JumpTask_approx: "approx OutOfFuel (JumpTask E m i target) (JumpTask E (m + k) i target)"
  unfolding JumpTask_def arriveAtJumpTarget_def
  by (intro fuel.mono)

lemma exec_approx:
  "c \<noteq> CCheckTimeouts \<Longrightarrow> approx OutOfFuel (exec E m c) (exec E (m + k) c)"
  by (cases c)
     (auto simp: StartProcessInstance_def StartProcessInstanceByKey_def ReceiveSignal_def ReceiveMessage_def
       intro!: approx_voidM CompleteTask_approx JumpTask_approx fuel.event_approx fuel.mono Start_approx)

section \<open>Enough fuel to start a process\<close>

definition storesDef :: "string \<Rightarrow> ProcessDefinition \<Rightarrow> world \<Rightarrow> bool" where
  "storesDef i d w \<longleftrightarrow> map_of (definitions (st w)) i = Some d"

lemma storesDef_stable [stable_rule]: "Stable del T (storesDef i d)"
  by (auto simp: stable_def storesDef_def keep_def)

lemma storesDef_bind:
  "Eff tot del T (storesDef i d) (f d) \<Longrightarrow>
     Eff tot del T (storesDef i d) (bindM (callS (GetProcessDefinition i)) f)"
  by (auto simp: eff_def storesDef_def bindM_def callS_def GetProcessDefinition_def)

lemma createReady_bind:
  assumes "Eff True False navT (\<lambda>w. storesDef i d w \<and> ready d (pi_ID q) w) m"
    and "instOK q" "noParent q" "pi_ProcessDefinitionID q = i"
  shows "Eff True False navT (storesDef i d) (bindM (callS (CreateProcessInstance q)) (\<lambda>_. m))"
proof (rule Eff_getter [OF Eff_CreateInstance storesDef_stable _ assms(1)])
  show "ready d (pi_ID q) w'" if "storesDef i d w" "callS (CreateProcessInstance q) w = (Inr x, w')" for w x w'
    using that assms by (auto simp: callS_def CreateProcessInstance_def ready_def storesDef_def split: if_splits)
qed (use assms in \<open>auto simp: storesDef_def hasDef_def\<close>)

lemma Eff_Start_total:
  assumes "fuelElem d n (pd_StartEventID d)"
  shows "Eff True False navT (storesDef i d) (StartProcessInstanceWithBusinessKey E n i b t vs)"
  unfolding StartProcessInstanceWithBusinessKey_def Let_def
  using assms
  by (intro storesDef_bind createReady_bind nt.startFrom eff_getter eff_rule eng.control stable_rule)
     (auto simp: NewProcessInstance_def instOK_def ended_def noParent_def ready_def hasInst_def Eff_reads)

end
