(* ===== verification/TaskLaws.thy ===== *)
theory TaskLaws imports EngineLaws begin

text \<open>
  The functional behaviour of the operations on instances and tasks: suspending and resuming,
  terminating, completing, claiming, delegating, rejecting and signing.
\<close>

section \<open>Primitive steps\<close>

definition putActivity :: "ActivityInstance \<Rightarrow> world \<Rightarrow> world" where
  "putActivity a w = w\<lparr>st := st w\<lparr>activities :=
     AList.update (ai_ID a) (a\<lparr>ai_LockVersion := ai_LockVersion a + 1\<rparr>) (activities (st w))\<rparr>\<rparr>"

definition putInstance :: "ProcessInstance \<Rightarrow> world \<Rightarrow> world" where
  "putInstance p w = w\<lparr>st := st w\<lparr>instances := AList.update (pi_ID p) p (instances (st w))\<rparr>\<rparr>"

lemma put_simps [simp]:
  "activities (st (putActivity a w)) =
     AList.update (ai_ID a) (a\<lparr>ai_LockVersion := ai_LockVersion a + 1\<rparr>) (activities (st w))"
  "tokens (st (putActivity a w)) = tokens (st w)" "instances (st (putActivity a w)) = instances (st w)"
  "definitions (st (putActivity a w)) = definitions (st w)" "variables (st (putActivity a w)) = variables (st w)"
  "ticks (putActivity a w) = ticks w" "idCounter (putActivity a w) = idCounter w"
  "instanceVars (st (putActivity a w)) j = instanceVars (st w) j"
  "instances (st (putInstance p w)) = AList.update (pi_ID p) p (instances (st w))"
  "activities (st (putInstance p w)) = activities (st w)"
  "tokens (st (putInstance p w)) = tokens (st w)" "definitions (st (putInstance p w)) = definitions (st w)"
  "variables (st (putInstance p w)) = variables (st w)" "ticks (putInstance p w) = ticks w"
  by (simp_all add: putActivity_def putInstance_def instanceVars_def)

text \<open>Reads and writes of objects that are stored.\<close>

lemma get_values:
  "callS (GetActivityInstance i) w = (case map_of (activities (st w)) i of None \<Rightarrow> (Inl (NotFound i), w) | Some a \<Rightarrow> (Inr a, w))"
  "callS (GetProcessInstance i) w = (case map_of (instances (st w)) i of None \<Rightarrow> (Inl (NotFound i), w) | Some p \<Rightarrow> (Inr p, w))"
  "callS (GetProcessDefinition i) w = (case map_of (definitions (st w)) i of None \<Rightarrow> (Inl (NotFound i), w) | Some d \<Rightarrow> (Inr d, w))"
  "callS (GetAllVariables i) w = (Inr (instanceVars (st w) i), w)"
  "nowM E w = (Inr (clock E (ticks w)), ticked w)"
  by (auto simp: callS_def GetActivityInstance_def GetProcessInstance_def GetProcessDefinition_def
      GetAllVariables_def nowM_def tickM_def bindM_def returnM_def ticked_def split: option.split)

lemma UpdateActivityInstance_value:
  "map_of (activities (st w)) (ai_ID a) = Some b \<Longrightarrow> ai_LockVersion a = ai_LockVersion b \<Longrightarrow>
     callS (UpdateActivityInstance a) w = (Inr (), putActivity a w)"
  by (simp add: callS_def UpdateActivityInstance_def putActivity_def)

lemma UpdateProcessInstance_value:
  "map_of (instances (st w)) (pi_ID p) \<noteq> None \<Longrightarrow> callS (UpdateProcessInstance p) w = (Inr (), putInstance p w)"
  by (auto simp: callS_def UpdateProcessInstance_def putInstance_def)

lemma requireM_value: "requireM b e w = (if b then (Inr (), w) else (Inl e, w))"
  by (simp add: requireM_def returnM_def throwM_def)

lemmas run = bindM_def get_values requireM_value returnM_def throwM_def

text \<open>The same for a read or a guard that is followed by something.\<close>

lemma peel:
  "bindM (requireM b e) f w = (if b then f () w else (Inl e, w))"
  "bindM (callS (GetActivityInstance i)) g w = (case map_of (activities (st w)) i of None \<Rightarrow> (Inl (NotFound i), w) | Some a \<Rightarrow> g a w)"
  "bindM (callS (GetProcessInstance i)) h w = (case map_of (instances (st w)) i of None \<Rightarrow> (Inl (NotFound i), w) | Some p \<Rightarrow> h p w)"
  "bindM (callS (GetProcessDefinition i)) k w = (case map_of (definitions (st w)) i of None \<Rightarrow> (Inl (NotFound i), w) | Some d \<Rightarrow> k d w)"
  "bindM (callS (GetAllVariables i)) l w = l (instanceVars (st w) i) w"
  by (auto simp: run split: option.split)

section \<open>Suspending and resuming\<close>

lemma update_back: "map_of m k = Some v \<Longrightarrow> AList.update k v (AList.update k u m) = m"
  by (induction m) auto

lemma SuspendProcessInstance_value:
  assumes "wf w" and "map_of (instances (st w)) i = Some p"
  shows "SuspendProcessInstance i w = (if pi_State p = Running then (Inr (), putInstance (p\<lparr>pi_State := Suspended\<rparr>) w)
     else (Inl (InstanceNotRunning i), w))"
  using wf_inst [OF assms] assms(2) by (simp add: SuspendProcessInstance_def run UpdateProcessInstance_value)

lemma ResumeProcessInstance_value:
  assumes "map_of (instances (st w)) i = Some p" and "pi_ID p = i"
  shows "ResumeProcessInstance i w = (if pi_State p = Suspended then (Inr (), putInstance (p\<lparr>pi_State := Running\<rparr>) w)
     else (Inl (InstanceNotSuspended i), w))"
  using assms by (simp add: ResumeProcessInstance_def run UpdateProcessInstance_value)

lemma resume_suspended:
  assumes "wf w" and "map_of (instances (st w)) i = Some p" and "pi_State p = Running"
  shows "ResumeProcessInstance i (snd (SuspendProcessInstance i w)) = (Inr (), w)"
proof -
  have i: "pi_ID p = i" using wf_inst [OF assms(1,2)] by simp
  have same: "p\<lparr>pi_State := Running\<rparr> = p" using assms(3) by (cases p) simp
  have "AList.update i (p\<lparr>pi_State := Running\<rparr>) (AList.update i q (instances (st w))) = instances (st w)" for q
    unfolding same using assms(2) by (rule update_back)
  then show ?thesis
    using assms i
    by (simp add: SuspendProcessInstance_value ResumeProcessInstance_value [where p = "p\<lparr>pi_State := Suspended\<rparr>"])
       (simp add: putInstance_def)
qed

text \<open>Navigation stops at an instance that is not running.\<close>

lemma navigateFrom_halts:
  assumes "map_of (instances (st w)) i = Some p" and "pi_State p \<noteq> Running"
  shows "navigateFrom E (Suc n) i e w = (Inr (), w)"
  using assms by (simp add: navStep_def run)

section \<open>Terminating\<close>

lemma Complete_simps [simp]:
  "ai_ID (Complete t a) = ai_ID a" "ai_LockVersion (Complete t a) = ai_LockVersion a"
  "ai_State (Complete t a) = ActivityCompleted" "ai_ProcessInstanceID (Complete t a) = ai_ProcessInstanceID a"
  by (simp_all add: Complete_def)

lemma completeActivity_value:
  "map_of (activities (st w)) (ai_ID a) = Some a \<Longrightarrow>
     completeActivity E a w = (Inr (), putActivity (Complete (clock E (ticks w)) a) (ticked w))"
  by (simp add: completeActivity_def completeM_def run UpdateActivityInstance_value)

lemma completeActivities_value:
  assumes "distinct (map ai_ID as)" and "\<And>a. a \<in> set as \<Longrightarrow> map_of (activities (st w)) (ai_ID a) = Some a"
  shows "\<exists>w'. forM (completeActivity E) as w = (Inr (), w') \<and> tokens (st w') = tokens (st w)
     \<and> instances (st w') = instances (st w)
     \<and> (\<forall>k. k \<notin> ai_ID ` set as \<longrightarrow> map_of (activities (st w')) k = map_of (activities (st w)) k)
     \<and> (\<forall>a\<in>set as. \<exists>t. map_of (activities (st w')) (ai_ID a) =
          Some ((Complete t a)\<lparr>ai_LockVersion := ai_LockVersion a + 1\<rparr>))"
  using assms
proof (induction as arbitrary: w)
  case (Cons a as)
  let ?w = "putActivity (Complete (clock E (ticks w)) a) (ticked w)"
  have step: "completeActivity E a w = (Inr (), ?w)" using Cons.prems by (simp add: completeActivity_value)
  have ids: "ai_ID b \<noteq> ai_ID a" if "b \<in> set as" for b using that Cons.prems(1) by (auto simp: image_iff)
  have "map_of (activities (st ?w)) (ai_ID b) = Some b" if "b \<in> set as" for b
    using that Cons.prems(2) ids by simp
  with Cons.IH [of ?w] Cons.prems(1) obtain w' where
    w': "forM (completeActivity E) as ?w = (Inr (), w')" "tokens (st w') = tokens (st ?w)"
      "instances (st w') = instances (st ?w)"
      "\<forall>k. k \<notin> ai_ID ` set as \<longrightarrow> map_of (activities (st w')) k = map_of (activities (st ?w)) k"
      "\<forall>b\<in>set as. \<exists>t. map_of (activities (st w')) (ai_ID b) = Some ((Complete t b)\<lparr>ai_LockVersion := ai_LockVersion b + 1\<rparr>)"
    by auto
  have "map_of (activities (st w')) (ai_ID a) = map_of (activities (st ?w)) (ai_ID a)"
    using w'(4) ids by (metis imageE)
  then have "\<exists>t. map_of (activities (st w')) (ai_ID a) = Some ((Complete t a)\<lparr>ai_LockVersion := ai_LockVersion a + 1\<rparr>)"
    by auto
  with step w' show ?case by (auto simp: bindM_def)
qed (simp add: returnM_def)

lemma consumeTokens_value:
  fixes i :: string
  assumes "fair_order ord" and "wf w"
  defines "listed \<equiv> \<lambda>t. tok_ProcessInstanceID t = i \<and> tok_State t = TokenActive"
  shows "forM consumeToken (mvalues ord listed (tokens (st w))) w
    = (Inr (), putTokens (mapAt consumed {k. \<exists>t. map_of (tokens (st w)) k = Some t \<and> listed t} (tokens (st w))) w)"
proof -
  let ?m = "tokens (st w)"
  have keyed: "keyed tok_ID ?m" using assms(2) by (simp add: wf_def wfStore_def)
  have "tok_ID ` set (mvalues ord listed ?m) = {k. \<exists>t. map_of ?m k = Some t \<and> listed t}"
    using set_mvalues [OF assms(1), of ?m listed] keyed by (auto simp: keyed_def image_iff) metis
  moreover have "forM consumeToken (mvalues ord listed ?m) w
      = (Inr (), putTokens (mapAt consumed (tok_ID ` set (mvalues ord listed ?m)) ?m) w)"
  proof (rule forM_mapAt [where tab = "\<lambda>w. tokens (st w)" and put = putTokens])
    show "distinct (map tok_ID (mvalues ord listed ?m))" by (rule mvalues_keys_distinct [OF assms(1) keyed])
    show "map_of ?m (tok_ID t) = Some t" if "t \<in> set (mvalues ord listed ?m)" for t
      using that keyed by (auto dest!: mvalues_lookup simp: keyed_def)
    show "distinct (map fst ?m)" using keyed by (simp add: keyed_def)
  qed (simp_all add: consumeToken_known)
  ultimately show ?thesis by simp
qed

lemma mem_mvalues_keyed:
  assumes "fair_order ord" and "keyed idOf m"
  shows "v \<in> set (mvalues ord P m) \<longleftrightarrow> P v \<and> map_of m (idOf v) = Some v"
proof -
  have "distinct (map fst m)" using assms(2) by (simp add: keyed_def)
  then have "v \<in> set (mvalues ord P m) \<longleftrightarrow> P v \<and> (\<exists>k. map_of m k = Some v)"
    using set_mvalues [OF assms(1)] by blast
  then show ?thesis using keyedD [OF assms(2)] by metis
qed

lemma rangeS_activities:
  "rangeS E (\<lambda>ord. ListActiveActivities ord i) w
     = (Inr (mvalues (iter E (ticks w)) (\<lambda>a. ai_ProcessInstanceID a = i \<and> ai_State a = ActivityActive) (activities (st w))), ticked w)"
  by (simp add: rangeS_def tickM_def callS_def ListActiveActivities_def bindM_def ticked_def)

lemma rangeS_allActivities:
  "rangeS E (\<lambda>ord. ListActivitiesByProcessInstance ord i) w
     = (Inr (mvalues (iter E (ticks w)) (\<lambda>a. ai_ProcessInstanceID a = i) (activities (st w))), ticked w)"
  by (simp add: rangeS_def tickM_def callS_def ListActivitiesByProcessInstance_def bindM_def ticked_def)

text \<open>
  Terminating an instance that has neither completed nor been terminated succeeds and leaves
  it without active tokens and active tasks; tokens and activities of other instances, and
  unclaimed tasks, are untouched.
\<close>

lemma TerminateProcessInstance_value:
  assumes E: "fairEnv E" and w: "wf w" and p: "map_of (instances (st w)) i = Some p"
    and state: "pi_State p \<noteq> Completed" "pi_State p \<noteq> Terminated"
  obtains w' now where "TerminateProcessInstance E i w = (Inr (), w')"
    and "map_of (instances (st w')) = (map_of (instances (st w)))(i \<mapsto> p\<lparr>pi_State := Terminated, pi_EndedAt := Some now\<rparr>)"
    and "\<And>k. map_of (tokens (st w')) k = map_option
          (\<lambda>t. if tok_ProcessInstanceID t = i \<and> tok_State t = TokenActive then consumed t else t) (map_of (tokens (st w)) k)"
    and "\<And>k a. map_of (activities (st w)) k = Some a \<Longrightarrow>
          ai_ProcessInstanceID a = i \<and> ai_State a = ActivityActive \<Longrightarrow>
          \<exists>t. map_of (activities (st w')) k = Some ((Complete t a)\<lparr>ai_LockVersion := ai_LockVersion a + 1\<rparr>)"
    and "\<And>k a. map_of (activities (st w)) k = Some a \<Longrightarrow>
          \<not> (ai_ProcessInstanceID a = i \<and> ai_State a = ActivityActive) \<Longrightarrow> map_of (activities (st w')) k = Some a"
proof -
  let ?listed = "\<lambda>t. tok_ProcessInstanceID t = i \<and> tok_State t = TokenActive"
  let ?open = "\<lambda>a. ai_ProcessInstanceID a = i \<and> ai_State a = ActivityActive"
  let ?m = "tokens (st w)"
  define w1 where "w1 = putTokens (mapAt consumed {k. \<exists>t. map_of ?m k = Some t \<and> ?listed t} ?m) (ticked w)"
  define as where "as = mvalues (iter E (ticks w1)) ?open (activities (st w1))"
  have fair: "fair_order (iter E n)" for n using E by (simp add: fairEnv_def)
  have keyed: "keyed ai_ID (activities (st w1))" using w by (simp add: w1_def wf_def wfStore_def)
  have consume: "forM consumeToken (mvalues (iter E (ticks w)) ?listed ?m) (ticked w) = (Inr (), w1)"
    using consumeTokens_value [OF fair, where w = "ticked w" and i = i] w by (simp add: w1_def)
  have stored: "map_of (activities (st w1)) (ai_ID a) = Some a" if "a \<in> set as" for a
    using that keyed by (auto simp: as_def keyed_def dest!: mvalues_lookup)
  obtain w2 where loop: "forM (completeActivity E) as (ticked w1) = (Inr (), w2)" and same: "tokens (st w2) = tokens (st w1)"
      "instances (st w2) = instances (st w1)"
    and others: "\<forall>k. k \<notin> ai_ID ` set as \<longrightarrow> map_of (activities (st w2)) k = map_of (activities (st w1)) k"
    and listed: "\<forall>a\<in>set as. \<exists>t. map_of (activities (st w2)) (ai_ID a) = Some ((Complete t a)\<lparr>ai_LockVersion := ai_LockVersion a + 1\<rparr>)"
    using completeActivities_value [of as "ticked w1" E] mvalues_keys_distinct [OF fair keyed] stored
    by (auto simp: as_def)
  have members: "k \<in> ai_ID ` set as \<longleftrightarrow> ?open a" if "map_of (activities (st w)) k = Some a" for k a
  proof -
    have "b \<in> set as \<longleftrightarrow> ?open b \<and> map_of (activities (st w)) (ai_ID b) = Some b" for b
      unfolding as_def using mem_mvalues_keyed [OF fair keyed] by (simp add: w1_def)
    moreover have "ai_ID a = k" using wf_act [OF w that] by simp
    ultimately show ?thesis using that unfolding image_iff by (metis option.inject)
  qed
  define w' where "w' = putInstance (p\<lparr>pi_State := Terminated, pi_EndedAt := Some (clock E (ticks w2))\<rparr>) (ticked w2)"
  have i: "pi_ID p = i" using wf_inst [OF w p] by simp
  have read: "callS (GetProcessInstance i) w = (Inr p, w)" using p by (simp add: get_values)
  have list_tokens: "listTokens E i w = (Inr (mvalues (iter E (ticks w)) ?listed ?m), ticked w)"
    by (rule listTokens_value)
  have list_acts: "rangeS E (\<lambda>ord. ListActiveActivities ord i) w1 = (Inr as, ticked w1)"
    by (simp only: rangeS_activities as_def)
  have now: "nowM E w2 = (Inr (clock E (ticks w2)), ticked w2)" by (simp add: get_values)
  have update: "callS (UpdateProcessInstance (p\<lparr>pi_State := Terminated, pi_EndedAt := Some (clock E (ticks w2))\<rparr>)) (ticked w2) = (Inr (), w')"
    unfolding w'_def using p i same by (intro UpdateProcessInstance_value) (simp add: w1_def)
  have "TerminateProcessInstance E i w = (Inr (), w')"
    using state unfolding TerminateProcessInstance_def
    by (simp add: bindM_def requireM_value returnM_def read list_tokens consume list_acts loop now update)
  then show thesis
  proof (rule that)
    show "map_of (instances (st w')) = (map_of (instances (st w)))(i \<mapsto> p\<lparr>pi_State := Terminated, pi_EndedAt := Some (clock E (ticks w2))\<rparr>)"
      using same i by (simp add: w'_def w1_def)
    show "map_of (tokens (st w')) k = map_option (\<lambda>t. if ?listed t then consumed t else t) (map_of ?m k)" for k
      using same by (cases "map_of ?m k") (auto simp: w'_def w1_def map_of_mapAt)
    show "\<exists>t. map_of (activities (st w')) k = Some ((Complete t a)\<lparr>ai_LockVersion := ai_LockVersion a + 1\<rparr>)"
      if "map_of (activities (st w)) k = Some a" "?open a" for k a
      using that listed members [OF that(1)] stored by (auto simp: w'_def w1_def)
    show "map_of (activities (st w')) k = Some a" if "map_of (activities (st w)) k = Some a" "\<not> ?open a" for k a
      using that others members [OF that(1)] by (simp add: w'_def w1_def)
  qed
qed

section \<open>Completing a task\<close>

text \<open>The guards: the error of the first one that fails, and nothing changes.\<close>

definition completeError :: "string \<Rightarrow> ActivityInstance option \<Rightarrow> err option" where
  "completeError i ao = (case ao of
       None \<Rightarrow> Some (NotFound i)
     | Some a \<Rightarrow>
         if ai_State a = ActivityUnclaimed then Some (IsUnclaimed i)
         else if ai_State a = ActivityCompleted then Some (NotActive i)
         else if ai_ActivityType a \<noteq> ElementTypeUserTask then Some (NotUserTask i)
         else None)"

lemma CompleteTask_guards:
  "completeError i (map_of (activities (st w)) i) = Some e \<Longrightarrow> CompleteTask E n i vs w = (Inl e, w)"
  by (cases "map_of (activities (st w)) i"; cases "ai_State (the (map_of (activities (st w)) i))")
     (auto simp: completeError_def CompleteTask_def run split: if_splits)

definition lockFree :: "Env \<Rightarrow> string \<Rightarrow> bool" where
  "lockFree E i \<longleftrightarrow> (case locker E of None \<Rightarrow> True | Some lock \<Rightarrow> lock (''pi:'' @ i) = None)"

lemma runWithLock_free: "lockFree E i \<Longrightarrow> runWithLock E i m = m"
  by (auto simp: runWithLock_def lockFree_def split: option.splits)

text \<open>What follows the completion of the activity itself.\<close>

definition afterCompletion :: "Env \<Rightarrow> navF \<Rightarrow> ActivityInstance \<Rightarrow> vars \<Rightarrow> unit engM" where
  "afterCompletion E nav a vs =
     bindM (recordHistory a) (\<lambda>_.
     bindM (mergeVariables E (ai_ProcessInstanceID a) vs) (\<lambda>_.
     if ai_AdhocParentID a \<noteq> '''' then
       bindM (callS (GetProcessInstance (ai_ProcessInstanceID a))) (\<lambda>p. handleSignCompletion E nav p a vs)
     else advanceTask E nav a))"

lemma Eff_afterCompletion: "Eff False True navT (\<lambda>_. True) (afterCompletion E (navigateFrom E n) a vs)"
  unfolding afterCompletion_def
  by (intro handleSignCompletion advanceTask nv_rules) (auto dest: seen_hasInst)

lemma CompleteTask_value:
  assumes "map_of (activities (st w)) i = Some a" and "ai_ID a = i"
    and "completeError i (Some a) = None" and "lockFree E (ai_ProcessInstanceID a)"
  defines "a' \<equiv> Complete (clock E (ticks w)) a"
  shows "CompleteTask E n i vs w = afterCompletion E (navigateFrom E n) a' vs (putActivity a' (ticked w))"
proof -
  have a: "ai_State a = ActivityActive" "ai_ActivityType a = ElementTypeUserTask"
    using assms(3) by (cases "ai_State a"; simp add: completeError_def split: if_splits)+
  have "callS (UpdateActivityInstance a') (ticked w) = (Inr (), putActivity a' (ticked w))"
    using assms(1,2) by (intro UpdateActivityInstance_value [where b = a]) (simp_all add: a'_def)
  then have "completeTaskTx E (navigateFrom E n) a vs w
      = afterCompletion E (navigateFrom E n) a' vs (putActivity a' (ticked w))"
    unfolding completeTaskTx_def afterCompletion_def [symmetric] by (simp add: run completeM_def a'_def)
  then show ?thesis
    using assms(1,4) a by (simp add: CompleteTask_def run runWithLock_free)
qed

text \<open>However the run goes on, the activity is completed for good.\<close>

lemma wf_completed:
  assumes "wf w" and "map_of (activities (st w)) i = Some a" and "ai_State a \<noteq> ActivityCompleted"
  shows "wf (putActivity (Complete t a) (ticked w))"
proof -
  have a: "ai_ID a = i" "actOK a" "hasInst (ai_ProcessInstanceID a) w" using wf_act [OF assms(1,2)] by auto
  then show ?thesis
    using assms(1,2) unfolding wf_def wfStore_def
    by (auto simp: keyed_update actOK_def Complete_def hasInst_def)
qed

lemma CompleteTask_completes:
  assumes "wf w" and "map_of (activities (st w)) i = Some a"
    and "completeError i (Some a) = None" and "lockFree E (ai_ProcessInstanceID a)"
  shows "map_of (activities (st (snd (CompleteTask E n i vs w)))) i
      = Some ((Complete (clock E (ticks w)) a)\<lparr>ai_LockVersion := ai_LockVersion a + 1\<rparr>)"
    and "wf (snd (CompleteTask E n i vs w))"
proof -
  let ?a = "Complete (clock E (ticks w)) a" and ?w = "putActivity (Complete (clock E (ticks w)) a) (ticked w)"
  have id: "ai_ID a = i" using wf_act [OF assms(1,2)] by simp
  have "ai_State a \<noteq> ActivityCompleted" using assms(3) by (auto simp: completeError_def split: if_splits)
  with assms have wf: "wf ?w" by (intro wf_completed [where i = i])
  have keep: "keep True navT ?w (snd (CompleteTask E n i vs w))"
    using effD [OF Eff_afterCompletion wf] assms(3,4) assms(2) id by (simp add: CompleteTask_value)
  then show "map_of (activities (st (snd (CompleteTask E n i vs w)))) i = Some (?a\<lparr>ai_LockVersion := ai_LockVersion a + 1\<rparr>)"
    using id by (auto simp: keep_def activityStep_def dest!: growsD [where k = i])
  show "wf (snd (CompleteTask E n i vs w))" using keep wf by (simp add: keep_def)
qed

section \<open>Claiming\<close>

text \<open>The candidates recorded for an activity.\<close>

definition candidates :: "world \<Rightarrow> ActivityInstance \<Rightarrow> string list" where
  "candidates w a = (case map_of (instanceVars (st w) (ai_ProcessInstanceID a)) (''__candidates_'' @ ai_ID a) of
       None \<Rightarrow> [] | Some raw \<Rightarrow> candidatesOf raw)"

lemma GetCandidates_value:
  "map_of (activities (st w)) i = Some a \<Longrightarrow> GetCandidates i w = (Inr (candidates w a), w)"
  by (auto simp: GetCandidates_def run candidates_def ignoreM_def callS_def GetVariable_value
      GetActivityInstance_def split: option.split)

definition claimed :: "string \<Rightarrow> int \<Rightarrow> ActivityInstance \<Rightarrow> ActivityInstance" where
  "claimed u now a = a\<lparr>ai_Assignee := u, ai_ClaimTime := Some now, ai_State := ActivityActive\<rparr>"

definition unclaimed :: "ActivityInstance \<Rightarrow> ActivityInstance" where
  "unclaimed a = a\<lparr>ai_Assignee := '''', ai_ClaimTime := None, ai_State := ActivityUnclaimed\<rparr>"

lemma claim_simps [simp]:
  "ai_ID (claimed u now a) = ai_ID a" "ai_LockVersion (claimed u now a) = ai_LockVersion a"
  "ai_ProcessInstanceID (claimed u now a) = ai_ProcessInstanceID a" "ai_Assignee (claimed u now a) = u"
  "ai_State (claimed u now a) = ActivityActive" "ai_ActivityType (claimed u now a) = ai_ActivityType a"
  "ai_ID (unclaimed a) = ai_ID a" "ai_LockVersion (unclaimed a) = ai_LockVersion a"
  "ai_ProcessInstanceID (unclaimed a) = ai_ProcessInstanceID a" "ai_State (unclaimed a) = ActivityUnclaimed"
  "ai_Assignee (unclaimed a) = ''''" "ai_ActivityType (unclaimed a) = ai_ActivityType a"
  by (simp_all add: claimed_def unclaimed_def)

lemma ClaimTask_value:
  assumes "wf w" and a: "map_of (activities (st w)) i = Some a"
  shows "ClaimTask E i u w =
    (if ai_State a \<noteq> ActivityUnclaimed then (Inl (NotUnclaimed i), w)
     else if ai_ActivityType a \<noteq> ElementTypeUserTask then (Inl (NotUserTask i), w)
     else if candidates w a \<noteq> [] \<and> u \<notin> set (candidates w a) then (Inl (NotCandidate u i), w)
     else (Inr (), putActivity (claimed u (clock E (ticks w)) a) (ticked w)))"
proof -
  have "ai_ID a = i" using wf_act [OF assms] by simp
  then have "callS (UpdateActivityInstance (claimed u (clock E (ticks w)) a)) (ticked w)
      = (Inr (), putActivity (claimed u (clock E (ticks w)) a) (ticked w))"
    using a by (intro UpdateActivityInstance_value [where b = a]) simp_all
  then show ?thesis
    using a unfolding ClaimTask_def claimed_def [symmetric]
    by (auto simp: run GetCandidates_value)
qed

lemma UnclaimTask_value:
  assumes "wf w" and a: "map_of (activities (st w)) i = Some a"
  shows "UnclaimTask i w =
    (if ai_State a \<noteq> ActivityActive then (Inl (NotActive i), w)
     else if candidates w a = [] then (Inl (NoCandidates i), w)
     else (Inr (), putActivity (unclaimed a) w))"
proof -
  have "ai_ID a = i" using wf_act [OF assms] by simp
  then have "callS (UpdateActivityInstance (unclaimed a)) w = (Inr (), putActivity (unclaimed a) w)"
    using a by (intro UpdateActivityInstance_value [where b = a]) simp_all
  then show ?thesis
    using a unfolding UnclaimTask_def unclaimed_def [symmetric]
    by (auto simp: run GetCandidates_value)
qed

lemma wf_putActivity:
  assumes "wf w" and "map_of (activities (st w)) i = Some a" and "ai_ID b = i" and "actOK b"
    and "ai_ProcessInstanceID b = ai_ProcessInstanceID a"
  shows "wf (putActivity b w)"
proof -
  have "hasInst (ai_ProcessInstanceID a) w" using wf_act [OF assms(1,2)] by auto
  then show ?thesis
    using assms unfolding wf_def wfStore_def by (auto simp: keyed_update actOK_def hasInst_def)
qed

text \<open>A claim excludes all others until the task is given back.\<close>

lemma claim_excludes:
  assumes "wf w" and a: "map_of (activities (st w)) i = Some a" and ok: "ClaimTask E i u w = (Inr (), w')"
  shows "ai_State a = ActivityUnclaimed \<and> (candidates w a = [] \<or> u \<in> set (candidates w a))"
    and "\<exists>a'. map_of (activities (st w')) i = Some a' \<and> ai_State a' = ActivityActive \<and> ai_Assignee a' = u"
    and "ClaimTask E' i v w' = (Inl (NotUnclaimed i), w')"
proof -
  let ?a = "claimed u (clock E (ticks w)) a"
  have id: "ai_ID a = i" using wf_act [OF assms(1,2)] by simp
  have state: "ai_State a = ActivityUnclaimed" and user: "candidates w a = [] \<or> u \<in> set (candidates w a)"
    and w': "w' = putActivity ?a (ticked w)"
    using ok assms(1,2) by (auto simp: ClaimTask_value split: if_splits)
  then show "ai_State a = ActivityUnclaimed \<and> (candidates w a = [] \<or> u \<in> set (candidates w a))" by simp
  have stored: "map_of (activities (st w')) i = Some (?a\<lparr>ai_LockVersion := ai_LockVersion a + 1\<rparr>)"
    using id by (simp add: w')
  then show "\<exists>a'. map_of (activities (st w')) i = Some a' \<and> ai_State a' = ActivityActive \<and> ai_Assignee a' = u"
    by simp
  have "actOK a" using wf_act [OF assms(1,2)] by simp
  then have "actOK ?a" using state by (simp add: actOK_def claimed_def)
  then have "wf w'" unfolding w' using assms(1,2) id by (intro wf_putActivity [where i = i and a = a]) simp_all
  then show "ClaimTask E' i v w' = (Inl (NotUnclaimed i), w')"
    using ClaimTask_value [OF _ stored] by simp
qed

end
