(* ===== verification/Routing.thy ===== *)
theory Routing imports TaskLaws begin

text \<open>
  What \<open>navigateFrom\<close> does at each kind of element of a running instance: the end of a path and
  the completion of the instance, plain flows, and the gateways.
\<close>

section \<open>Leaving an element\<close>

lemma navigateFrom_running:
  assumes "map_of (instances (st w)) i = Some p" and "pi_State p = Running"
    and "map_of (definitions (st w)) (pi_ProcessDefinitionID p) = Some d" and "element d e = Some el"
  shows "navigateFrom E (Suc n) i e w
    = leaveElement E (navigateFrom E n) (takeSequenceFlow E n) d p e el w"
  using assms by (simp add: navStep_def run)

definition parentless :: "ProcessInstance \<Rightarrow> bool" where
  "parentless p \<longleftrightarrow> pi_ParentProcessInstanceID p = '''' \<or> pi_ParentActivityID p = ''''"

definition finished :: "int \<Rightarrow> ProcessInstance \<Rightarrow> ProcessInstance" where
  "finished now p = p\<lparr>pi_State := Completed, pi_EndedAt := Some now\<rparr>"

definition noneActive :: "string \<Rightarrow> world \<Rightarrow> bool" where
  "noneActive i w \<longleftrightarrow> (\<forall>k t. map_of (tokens (st w)) k = Some t \<longrightarrow>
     tok_ProcessInstanceID t = i \<longrightarrow> tok_State t \<noteq> TokenActive)"

lemma noneActive_ticked [simp]: "noneActive i (ticked w) = noneActive i w"
  by (simp add: noneActive_def)

lemma listed_empty_iff:
  assumes "fairEnv E" and "wf w"
  shows "mvalues (iter E k) (\<lambda>t. tok_ProcessInstanceID t = i \<and> tok_State t = TokenActive) (tokens (st w)) = []
    \<longleftrightarrow> noneActive i w"
proof -
  let ?listed = "\<lambda>t. tok_ProcessInstanceID t = i \<and> tok_State t = TokenActive"
  have "distinct (map fst (tokens (st w)))" using assms(2) by (simp add: wf_def wfStore_def keyed_def)
  then have "set (mvalues (iter E k) ?listed (tokens (st w))) = {t. ?listed t \<and> (\<exists>j. map_of (tokens (st w)) j = Some t)}"
    using assms(1) set_mvalues [of "iter E k" "tokens (st w)" ?listed] by (auto simp: fairEnv_def simp del: map_of_eq_Some_iff)
  moreover have "mvalues (iter E k) ?listed (tokens (st w)) = [] \<longleftrightarrow> set (mvalues (iter E k) ?listed (tokens (st w))) = {}"
    by simp
  ultimately show ?thesis unfolding noneActive_def by auto
qed

text \<open>An instance is completed when its last active token is gone, and only then.\<close>

lemma checkComplete_value:
  assumes "fairEnv E" and "wf w" and "map_of (instances (st w)) (pi_ID p) \<noteq> None"
  shows "checkComplete E nav p w =
    (if noneActive (pi_ID p) w
     then (let p' = finished (clock E (Suc (ticks w))) p
           in checkParentCompletion E nav p' (putInstance p' (ticked (ticked w))))
     else (Inr (), ticked w))"
proof -
  let ?p = "finished (clock E (Suc (ticks w))) p"
  have "callS (UpdateProcessInstance ?p) (ticked (ticked w)) = (Inr (), putInstance ?p (ticked (ticked w)))"
    using assms(3) by (intro UpdateProcessInstance_value) (simp add: finished_def)
  then show ?thesis
    using listed_empty_iff [OF assms(1,2)]
    by (auto simp: checkComplete_def listTokens_value run Let_def finished_def)
qed

lemma checkParentCompletion_parentless: "parentless p \<Longrightarrow> checkParentCompletion E nav p = returnM ()"
  by (auto simp: checkParentCompletion_def parentless_def)

section \<open>The end of a path\<close>

definition lastTokenAt :: "string \<Rightarrow> string \<Rightarrow> world \<Rightarrow> bool" where
  "lastTokenAt i e w \<longleftrightarrow> (\<forall>k t. map_of (tokens (st w)) k = Some t \<longrightarrow> tok_ProcessInstanceID t = i
     \<longrightarrow> tok_State t = TokenActive \<longrightarrow> tok_CurrentElementID t = e)"

lemma noneActive_consumedAt: "noneActive i (consumedAt i e w) \<longleftrightarrow> lastTokenAt i e w"
  by (auto simp: noneActive_def lastTokenAt_def consumedAt_tokens consumed_def split: option.splits if_splits)

lemma wf_consumedAt: "fairEnv E \<Longrightarrow> wf w \<Longrightarrow> wf (consumedAt i e (ticked w))"
  using effD [where m = "consumeAllAt E i e", OF Eff_consumeAt(2) [OF stable_True], of w False "{}"]
    consumeAllAt_value [of E w i e] by (simp add: keep_def)

text \<open>
  The end event of an instance that no call activity waits for: its tokens there are consumed,
  and the instance completes exactly when no token is left elsewhere.
\<close>

lemma navigateFrom_end:
  assumes E: "fairEnv E" "wf w" and p: "map_of (instances (st w)) i = Some p" "pi_State p = Running" "parentless p"
    and d: "map_of (definitions (st w)) (pi_ProcessDefinitionID p) = Some d" "element d e = Some (EndEvent x nm)"
  shows "navigateFrom E (Suc n) i e w =
    (let w' = consumedAt i e (ticked w)
     in (Inr (), if lastTokenAt i e w
         then putInstance (finished (clock E (Suc (Suc (ticks w)))) p) (ticked (ticked w'))
         else ticked w'))"
proof -
  let ?w = "consumedAt i e (ticked w)"
  have id: "pi_ID p = i" using wf_inst [OF E(2) p(1)] by simp
  have wf: "wf ?w" using E by (rule wf_consumedAt)
  have none: "noneActive i ?w \<longleftrightarrow> lastTokenAt i e w"
    by (simp add: noneActive_consumedAt) (simp add: lastTokenAt_def)
  have ticks: "ticks ?w = Suc (ticks w)" by (simp add: consumedAt_def)
  have alone: "parentless (finished t p)" for t using p(3) by (simp add: parentless_def finished_def)
  have "navigateFrom E (Suc n) i e w = checkComplete E (navigateFrom E n) p ?w"
    using navigateFrom_running [OF p(1,2) d] id
    by (simp add: leaveElement_def handleEndEvent_def bindM_Inr [where m = "consumeAllAt E i e" and s = w, OF consumeAllAt_value [OF E]])
  also have "\<dots> = (Inr (), if lastTokenAt i e w
         then putInstance (finished (clock E (Suc (Suc (ticks w)))) p) (ticked (ticked ?w)) else ticked ?w)"
    using checkComplete_value [OF E(1) wf, of p] p(1) id none ticks
    by (simp add: Let_def checkParentCompletion_parentless [OF alone] returnM_def)
  finally show ?thesis by (simp add: Let_def)
qed

section \<open>Gateways of a running instance\<close>

lemma navigateFrom_exclusive:
  assumes E: "fairEnv E" "wf w" and p: "map_of (instances (st w)) i = Some p" "pi_State p = Running"
    and d: "map_of (definitions (st w)) (pi_ProcessDefinitionID p) = Some d" "element d e = Some (ExclusiveGateway gw)"
  shows "navigateFrom E (Suc n) i e w =
    (case exclusiveTarget E (instanceVars (st w) i) gw (FindOutgoingFlows (pd_SequenceFlows d) e) of
       Inl er \<Rightarrow> (Inl er, w)
     | Inr sf \<Rightarrow> takeSequenceFlow E n d p sf (consumedAt i (gw_ID gw) (ticked w)))"
  using navigateFrom_running [OF p d] wf_inst [OF E(2) p(1), THEN conjunct1]
  by (simp add: leaveElement_def handleExclusiveGateway_value [OF E] cong: sum.case_cong)

lemma navigateFrom_inclusive:
  assumes E: "fairEnv E" "wf w" and p: "map_of (instances (st w)) i = Some p" "pi_State p = Running"
    and d: "map_of (definitions (st w)) (pi_ProcessDefinitionID p) = Some d" "element d e = Some (InclusiveGateway gw)"
  shows "navigateFrom E (Suc n) i e w =
    (let w' = consumedAt i (gw_ID gw) (ticked w)
     in case inclusiveTargets E (instanceVars (st w) i) gw (FindOutgoingFlows (pd_SequenceFlows d) e) of
       Inl er \<Rightarrow> (Inl er, w')
     | Inr sfs \<Rightarrow> forM (takeSequenceFlow E n d p) sfs w')"
  using navigateFrom_running [OF p d] wf_inst [OF E(2) p(1), THEN conjunct1]
  by (simp add: leaveElement_def handleInclusiveGateway_value [OF E])

text \<open>What the two gateways should choose, in terms of the conditions alone.\<close>

definition chosen :: "Env \<Rightarrow> vars \<Rightarrow> DefaultGateway \<Rightarrow> SequenceFlow list \<Rightarrow> SequenceFlow \<Rightarrow> bool" where
  "chosen E vs gw out sf \<longleftrightarrow>
     (\<exists>pre post. out = pre @ sf # post \<and> holds E vs sf \<and> (\<forall>x\<in>set pre. declines E vs x))
   \<or> (\<forall>x\<in>set out. declines E vs x) \<and> defaultFlow gw out = Some sf"

lemma exclusiveTarget_chosen: "exclusiveTarget E vs gw out = Inr sf \<longleftrightarrow> chosen E vs gw out sf"
  by (simp only: exclusiveTarget_iff chosen_def)

definition activated :: "Env \<Rightarrow> vars \<Rightarrow> DefaultGateway \<Rightarrow> SequenceFlow list \<Rightarrow> SequenceFlow list \<Rightarrow> bool" where
  "activated E vs gw out sfs \<longleftrightarrow>
     (\<forall>x\<in>set out. holds E vs x \<or> declines E vs x)
   \<and> (let active = filter (\<lambda>x. sf_ConditionExpression x = None \<or> holds E vs x) out
      in if active \<noteq> [] then sfs = active else \<exists>sf. defaultFlow gw out = Some sf \<and> sfs = [sf])"

lemma inclusiveTargets_activated: "inclusiveTargets E vs gw fs = Inr as \<longleftrightarrow> activated E vs gw fs as"
proof (cases "activatedFlows E vs fs")
  case (Inl er)
  then have "activatedFlows E vs fs \<noteq> Inr (filter (\<lambda>x. sf_ConditionExpression x = None \<or> holds E vs x) fs)" by simp
  then have "\<not> (\<forall>x\<in>set fs. holds E vs x \<or> declines E vs x)"
    unfolding activatedFlows_iff by blast
  with Inl show ?thesis by (auto simp: inclusiveTargets_def activated_def)
next
  case (Inr bs)
  then have bs: "\<forall>x\<in>set fs. holds E vs x \<or> declines E vs x"
      "filter (\<lambda>x. sf_ConditionExpression x = None \<or> holds E vs x) fs = bs"
    using activatedFlows_iff [of E vs fs bs] by simp_all
  show ?thesis
    unfolding activated_def bs(2) using Inr bs(1)
    by (cases bs) (auto simp: inclusiveTargets_def split: option.splits)
qed

text \<open>Arrivals at a join, counted in a variable of the instance.\<close>

lemma arrivedAt_withVar [simp]: "arrivedAt i g (withVar i (arrivalKey g) (GFloat x) w) = x"
  by (simp add: arrivedAt_def withVar_vars assertFloat_def)

lemma arrivedAt_withoutVar [simp]: "arrivedAt i g (withoutVar i (arrivalKey g) w) = 0"
  by (simp add: arrivedAt_def withVar_vars assertFloat_def)

lemma navigateFrom_parallel:
  assumes E: "fairEnv E" "wf w" and p: "map_of (instances (st w)) i = Some p" "pi_State p = Running"
    and d: "map_of (definitions (st w)) (pi_ProcessDefinitionID p) = Some d" "element d g = Some (ParallelGateway g nm)"
  shows "navigateFrom E (Suc n) i g w =
    handleParallelGateway E (navigateFrom E n) (takeSequenceFlow E n) d p (FindOutgoingFlows (pd_SequenceFlows d) g) g w"
  using navigateFrom_running [OF p d] by (simp add: leaveElement_def)

end
