(* ===== verification/Demo.thy ===== *)
theory Demo imports EngineLaws begin

text \<open>
  A small concrete process, and one instance of it at its task, on which the properties of the
  development are evaluated: start, a user task, an exclusive gateway that goes to a service
  task when \<open>ok\<close> holds and to the end otherwise.
\<close>

definition demoEnv :: Env where
  "demoEnv = \<lparr>iter = (\<lambda>_ ks. ks), clock = (\<lambda>_. 2 ^ 60 + 7), xcompile = (\<lambda>_. True),
     xrun = (\<lambda>s vs. map_of vs s), fmtFloat = (\<lambda>_. ''0''), ident = None, locker = None\<rparr>"

definition demoFlow :: "string \<Rightarrow> string \<Rightarrow> string \<Rightarrow> string option \<Rightarrow> SequenceFlow" where
  "demoFlow i s t c = \<lparr>sf_ID = i, sf_Name = '''', sf_SourceRef = s, sf_TargetRef = t, sf_ConditionExpression = c\<rparr>"

definition demoGateway :: DefaultGateway where
  "demoGateway = \<lparr>gw_ID = ''g'', gw_Name = ''Approved?'', gw_DefaultFlowID = ''f5''\<rparr>"

definition demoUserTask :: UserTask where
  "demoUserTask = \<lparr>ut_ID = ''t'', ut_Name = ''Review'', ut_Assignee = ''bob'', ut_CandidateUsers = [],
     ut_CandidateGroup = '''', ut_FormKey = '''', ut_LoopCharacteristics = None\<rparr>"

definition demoDef :: ProcessDefinition where
  "demoDef = \<lparr>pd_ID = ''k:v1'', pd_Name = ''Demo'', pd_Key = ''k'', pd_Version = 1, pd_TenantID = '''',
     pd_Elements = [(''s'', StartEvent ''s'' ''''), (''t'', UserTaskEl demoUserTask),
       (''g'', ExclusiveGateway demoGateway),
       (''m'', ServiceTaskEl \<lparr>st_ID = ''m'', st_Name = ''Mail'', st_Type = ''''\<rparr>), (''e'', EndEvent ''e'' '''')],
     pd_SequenceFlows = [demoFlow ''f1'' ''s'' ''t'' None, demoFlow ''f2'' ''t'' ''g'' None,
       demoFlow ''f3'' ''g'' ''m'' (Some ''ok''), demoFlow ''f4'' ''m'' ''e'' None, demoFlow ''f5'' ''g'' ''e'' None],
     pd_StartEventID = ''s''\<rparr>"

definition demoInst :: ProcessInstance where
  "demoInst = NewProcessInstance 5 ''p'' ''k:v1'' []"

text \<open>An older instance, which was rejected.\<close>

definition demoOld :: ProcessInstance where
  "demoOld = (NewProcessInstance 1 ''q'' ''k:v1'' [])\<lparr>pi_State := Rejected, pi_EndedAt := Some 4\<rparr>"

text \<open>The passage through the start event, and the task that waits.\<close>

definition demoStart :: ActivityInstance where
  "demoStart = Complete 6 (NewActivityInstance ''a'' ''p'' ''s'' ElementTypeStartEvent)"

definition demoTask :: ActivityInstance where
  "demoTask = (NewActivityInstance ''b'' ''p'' ''t'' ElementTypeUserTask)\<lparr>ai_Assignee := ''bob''\<rparr>"

definition demoToken :: Token where
  "demoToken = NewToken 7 ''x'' ''p'' ''t''"

definition demoUsed :: Token where
  "demoUsed = (NewToken 7 ''y'' ''p'' ''s'')\<lparr>tok_State := TokenConsumed, tok_LockVersion := 1\<rparr>"

definition demoStore :: Store where
  "demoStore = NewStore\<lparr>definitions := [(''k:v1'', demoDef)], instances := [(''p'', demoInst), (''q'', demoOld)],
     activities := [(''a'', demoStart), (''b'', demoTask)], tokens := [(''x'', demoToken), (''y'', demoUsed)],
     variables := [(''p'', [(''ok'', GBool True)])]\<rparr>"

definition demoWorld :: world where
  "demoWorld = \<lparr>st = demoStore, idCounter = 0, ticks = 0\<rparr>"

definition emptyWorld :: world where
  "emptyWorld = \<lparr>st = NewStore, idCounter = 0, ticks = 0\<rparr>"

lemmas demo_defs = demoEnv_def demoFlow_def demoGateway_def demoUserTask_def demoDef_def demoInst_def demoOld_def
  demoStart_def demoTask_def demoToken_def demoUsed_def demoStore_def demoWorld_def emptyWorld_def
  NewStore_def NewProcessInstance_def NewActivityInstance_def Complete_def NewToken_def

lemma demo_wf: "wf demoWorld" "wf emptyWorld"
  by (auto simp: demo_defs wf_def wfStore_def keyed_def instOK_def actOK_def ended_def split: if_splits)

lemma demo_fair: "fairEnv demoEnv"
  by (simp add: fairEnv_def fair_order_id demoEnv_def)

end
