(* ===== verification/Samples.thy ===== *)
theory Samples imports Demo begin

text \<open>
  A second concrete process: two tasks that meet in a parallel gateway, an inclusive gateway
  behind it, and a task performed once for every item of a list.
\<close>

definition pairLoop :: LoopCharacteristics where
  "pairLoop = \<lparr>lc_IsSequential = False, lc_LoopCardinality = ''n'', lc_Collection = '''',
     lc_ElementVariable = '''', lc_CompletionCondition = ''''\<rparr>"

definition sampleTask :: "string \<Rightarrow> LoopCharacteristics option \<Rightarrow> UserTask" where
  "sampleTask i lc = \<lparr>ut_ID = i, ut_Name = i, ut_Assignee = ''amy'', ut_CandidateUsers = [],
     ut_CandidateGroup = '''', ut_FormKey = '''', ut_LoopCharacteristics = lc\<rparr>"

definition eitherGateway :: DefaultGateway where
  "eitherGateway = \<lparr>gw_ID = ''o'', gw_Name = '''', gw_DefaultFlowID = ''f8''\<rparr>"

definition sampleDef :: ProcessDefinition where
  "sampleDef = \<lparr>pd_ID = ''two:v1'', pd_Name = ''Two'', pd_Key = ''two'', pd_Version = 1, pd_TenantID = '''',
     pd_Elements = [(''s'', StartEvent ''s'' ''''), (''u'', UserTaskEl (sampleTask ''u'' None)),
       (''v'', UserTaskEl (sampleTask ''v'' None)), (''j'', ParallelGateway ''j'' ''''),
       (''o'', InclusiveGateway eitherGateway), (''w'', UserTaskEl (sampleTask ''w'' (Some pairLoop))),
       (''e'', EndEvent ''e'' '''')],
     pd_SequenceFlows = [demoFlow ''f1'' ''s'' ''u'' None, demoFlow ''f2'' ''s'' ''v'' None,
       demoFlow ''f3'' ''u'' ''j'' None, demoFlow ''f4'' ''v'' ''j'' None, demoFlow ''f5'' ''j'' ''o'' None,
       demoFlow ''f6'' ''o'' ''w'' (Some ''ok''), demoFlow ''f7'' ''o'' ''u'' (Some ''again''),
       demoFlow ''f8'' ''o'' ''e'' None, demoFlow ''f9'' ''w'' ''e'' None],
     pd_StartEventID = ''s''\<rparr>"

text \<open>An instance that has one branch at the join, with the counter at zero.\<close>

definition sampleInst :: ProcessInstance where
  "sampleInst = NewProcessInstance 5 ''r'' ''two:v1'' []"

definition signedTask :: ActivityInstance where
  "signedTask = (NewActivityInstance ''b'' ''r'' ''v'' ElementTypeUserTask)\<lparr>ai_Assignee := ''amy''\<rparr>"

text \<open>A task that waits for one of its candidates.\<close>

definition openTask :: ActivityInstance where
  "openTask = (NewActivityInstance ''c'' ''r'' ''v'' ElementTypeUserTask)\<lparr>ai_State := ActivityUnclaimed\<rparr>"

definition sampleWorld :: world where
  "sampleWorld = \<lparr>st = NewStore\<lparr>definitions := [(''two:v1'', sampleDef)], instances := [(''r'', sampleInst)],
     activities := [(''b'', signedTask), (''c'', openTask)],
     tokens := [(''x'', NewToken 7 ''x'' ''r'' ''j''), (''y'', NewToken 7 ''y'' ''r'' ''v'')],
     variables := [(''r'', [(''ok'', GBool True), (''again'', GBool False), (''n'', GFloat 2),
       (''__candidates_c'', GStrings [''ann'', ''bob''])])]\<rparr>,
     idCounter = 0, ticks = 0\<rparr>"

text \<open>A sign session at the task of the first process, and the task of one of its signers.\<close>

definition signWorld :: world where
  "signWorld = demoWorld\<lparr>st := demoStore\<lparr>variables := [(''p'', [(''k_parent'', GString ''b''),
     (''k_strategy'', GString ''or''), (''k_total'', GFloat 2), (''k_completed'', GFloat 0), (''k_approved'', GFloat 0)])]\<rparr>\<rparr>"

definition signerTask :: ActivityInstance where
  "signerTask = (NewActivityInstance ''d'' ''p'' ''t'' ElementTypeUserTask)\<lparr>ai_AdhocParentID := ''b''\<rparr>"

lemmas sample_defs = pairLoop_def sampleTask_def eitherGateway_def sampleDef_def sampleInst_def signedTask_def
  openTask_def sampleWorld_def demoFlow_def demoEnv_def NewStore_def NewProcessInstance_def
  NewActivityInstance_def NewToken_def

lemma sample_wf: "wf sampleWorld"
  by (auto simp: sample_defs wf_def wfStore_def keyed_def instOK_def actOK_def ended_def split: if_splits)

lemma sample_instance:
  "map_of (instances (st sampleWorld)) ''r'' = Some sampleInst" "pi_State sampleInst = Running"
  "map_of (definitions (st sampleWorld)) (pi_ProcessDefinitionID sampleInst) = Some sampleDef"
  by (simp_all add: sample_defs)

end
