(* ===== verification/Navigation.thy ===== *)
theory Navigation imports Routing Samples begin

text \<open>
  What a token does at each kind of element: the gateways, the end of an instance, and the halt
  of instances that are not running.
\<close>

section \<open>Gateways and the end\<close>

text \<open>C8. The exclusive gateway takes one flow. A running instance at the gateway goes on along the
  first flow whose condition holds, provided the conditions before it all evaluated to false, or along
  the default flow when every condition is false; its tokens at the gateway are consumed before. When
  there is no such flow it reports an error and changes nothing.\<close>

theorem exclusive_gateway_takes_one:
  assumes E: "fairEnv E" "wf w" and p: "map_of (instances (st w)) i = Some p" "pi_State p = Running"
    and d: "map_of (definitions (st w)) (pi_ProcessDefinitionID p) = Some d" "element d g = Some (ExclusiveGateway gw)"
    and g: "gw_ID gw = g"
    and out: "out = FindOutgoingFlows (pd_SequenceFlows d) g" and vs: "vs = instanceVars (st w) i"
  shows "(\<forall>sf. chosen E vs gw out sf \<longrightarrow>
        navigateFrom E (Suc n) i g w = takeSequenceFlow E n d p sf (consumedAt i g (ticked w)))
    \<and> ((\<forall>sf. \<not> chosen E vs gw out sf) \<longrightarrow> (\<exists>e. navigateFrom E (Suc n) i g w = (Inl e, w)))"
  using navigateFrom_exclusive [OF E p d, of n] unfolding exclusiveTarget_chosen [symmetric]
  by (cases "exclusiveTarget E vs gw out") (simp_all add: out vs g)

lemma demo_at_gateway:
  "map_of (instances (st demoWorld)) ''p'' = Some demoInst" "pi_State demoInst = Running"
  "map_of (definitions (st demoWorld)) (pi_ProcessDefinitionID demoInst) = Some demoDef"
  "element demoDef ''g'' = Some (ExclusiveGateway demoGateway)" "gw_ID demoGateway = ''g''"
  by (simp_all add: demo_defs element_def)

theorem exclusive_gateway_takes_one_witness:
  "\<forall>n. navigateFrom demoEnv (Suc n) ''p'' ''g'' demoWorld
     = takeSequenceFlow demoEnv n demoDef demoInst (demoFlow ''f3'' ''g'' ''m'' (Some ''ok'')) (consumedAt ''p'' ''g'' (ticked demoWorld))"
proof -
  have ok: "evaluateCondition demoEnv ''ok'' [(''ok'', GBool True)] = Inr True"
    by (simp add: demoEnv_def evaluateCondition_def NewCondition_def Evaluate_def
        TrimSpace_def isSpace_def hasPrefix_def hasSuffix_def)
  have "exclusiveTarget demoEnv (instanceVars (st demoWorld) ''p'') demoGateway (FindOutgoingFlows (pd_SequenceFlows demoDef) ''g'')
      = Inr (demoFlow ''f3'' ''g'' ''m'' (Some ''ok''))"
    using ok by (simp add: demo_defs FindOutgoingFlows_def exclusiveTarget_def instanceVars_def)
  then show ?thesis
    using exclusive_gateway_takes_one [OF demo_fair demo_wf(1) demo_at_gateway refl refl]
    by (simp add: exclusiveTarget_chosen)
qed






text \<open>C11. An instance ends when its last token reaches an end event: reaching the end consumes the tokens
  there, and then the instance (one that no call activity waits for) is completed exactly when it has no
  active token left anywhere else.\<close>

theorem end_event_completes:
  assumes E: "fairEnv E" "wf w" and p: "map_of (instances (st w)) i = Some p" "pi_State p = Running" "parentless p"
    and d: "map_of (definitions (st w)) (pi_ProcessDefinitionID p) = Some d" "element d e = Some (EndEvent x nm)"
  shows "\<exists>w' p'. navigateFrom E (Suc n) i e w = (Inr (), w') \<and> activeAt i e (tokens (st w')) = {}
    \<and> map_of (instances (st w')) i = Some p'
    \<and> (if lastTokenAt i e w then pi_State p' = Completed \<and> pi_EndedAt p' \<noteq> None \<and> noneActive i w' else p' = p)"
proof -
  have id: "pi_ID p = i" using wf_inst [OF E(2) p(1)] by simp
  have wf1: "wf (ticked w)" using E(2) by simp
  have none: "noneActive i (consumedAt i e (ticked w)) \<longleftrightarrow> lastTokenAt i e w"
    by (simp add: noneActive_consumedAt) (simp add: lastTokenAt_def)
  have same: "noneActive i (putInstance q w') = noneActive i w'" for q w' by (simp add: noneActive_def)
  show ?thesis
    using navigateFrom_end [OF E p d, of n] none id p(1)
    by (auto simp: Let_def activeAt_consumedAt finished_def same simp del: navigateFrom.simps)
qed

theorem end_event_completes_witness:
  "\<exists>w' p'. navigateFrom demoEnv (Suc 3) ''p'' ''e'' demoWorld = (Inr (), w') \<and> activeAt ''p'' ''e'' (tokens (st w')) = {}
    \<and> map_of (instances (st w')) ''p'' = Some p'
    \<and> (if lastTokenAt ''p'' ''e'' demoWorld then pi_State p' = Completed \<and> pi_EndedAt p' \<noteq> None \<and> noneActive ''p'' w'
       else p' = demoInst)"
  by (rule end_event_completes [OF demo_fair demo_wf(1) demo_at_gateway(1-2) _ demo_at_gateway(3), where x = "''e''" and nm = "[]"])
     (simp_all add: demo_defs parentless_def element_def)

text \<open>Nothing moves in an instance that is not running: navigation leaves the world as it is.\<close>

theorem navigation_needs_running:
  assumes "map_of (instances (st w)) i = Some p" and "pi_State p \<noteq> Running"
  shows "navigateFrom E (Suc n) i e w = (Inr (), w)"
  using assms by (rule navigateFrom_halts)

theorem navigation_needs_running_witness:
  "navigateFrom demoEnv (Suc 3) ''q'' ''t'' demoWorld = (Inr (), demoWorld)"
  by (rule navigation_needs_running [where p = demoOld]) (simp_all add: demo_defs)

end
