(* ===== verification/Frames.thy ===== *)
theory Frames imports TaskLaws begin

text \<open>
  What operations leave alone, and what they add: frame rules for single facts about the
  store, used to follow a fact through a long operation, and the loops that create one task
  and one token per round (multi-instance tasks, signs).
\<close>

section \<open>Facts that an operation keeps\<close>

interpretation frame: effect_order "\<lambda>_. True" "\<lambda>w w'. P w \<longrightarrow> P w'" "\<lambda>_. True" for P :: "world \<Rightarrow> bool"
  by unfold_locales auto

abbreviation Keeps :: "(world \<Rightarrow> bool) \<Rightarrow> 'a engM \<Rightarrow> bool" where
  "Keeps P m \<equiv> eff (\<lambda>_. True) (\<lambda>w w'. P w \<longrightarrow> P w') (\<lambda>_. True) (\<lambda>_. True) m"

lemma KeepsD: "Keeps P m \<Longrightarrow> P w \<Longrightarrow> P (snd (m w))"
  by (auto simp: eff_def)

lemma Keeps_stable: "stable (\<lambda>_. True) (\<lambda>w w'. P w \<longrightarrow> P w') (\<lambda>_. True)"
  by (rule stable_True)

text \<open>A variable of an instance has a value; a table has an entry.\<close>

definition varIs :: "string \<Rightarrow> string \<Rightarrow> gval option \<Rightarrow> world \<Rightarrow> bool" where
  "varIs i k v w \<longleftrightarrow> map_of (instanceVars (st w) i) k = v"

definition actIs :: "string \<Rightarrow> ActivityInstance \<Rightarrow> world \<Rightarrow> bool" where
  "actIs k a w \<longleftrightarrow> map_of (activities (st w)) k = Some a"

definition tokIs :: "string \<Rightarrow> Token \<Rightarrow> world \<Rightarrow> bool" where
  "tokIs k t w \<longleftrightarrow> map_of (tokens (st w)) k = Some t"

lemma frame_ticks [simp]:
  "varIs i k v (w\<lparr>ticks := n\<rparr>) = varIs i k v w" "varIs i k v (w\<lparr>idCounter := c\<rparr>) = varIs i k v w"
  "actIs k a (w\<lparr>ticks := n\<rparr>) = actIs k a w" "actIs k a (w\<lparr>idCounter := c\<rparr>) = actIs k a w"
  "tokIs k t (w\<lparr>ticks := n\<rparr>) = tokIs k t w" "tokIs k t (w\<lparr>idCounter := c\<rparr>) = tokIs k t w"
  by (simp_all add: varIs_def actIs_def tokIs_def)

named_theorems keeps_rule \<open>operations that keep a fact\<close>

lemma Keeps_setVar [keeps_rule]:
  "k' \<noteq> k \<Longrightarrow> Keeps (varIs i k v) (setVar j k' u)" "Keeps (actIs x a) (setVar j k' u)" "Keeps (tokIs x t) (setVar j k' u)"
  by (auto simp: eff_def setVar_def ignoreM_def callS_def varIs_def actIs_def tokIs_def instanceVars_set SetVariable_def
      split: prod.splits sum.splits) (auto simp: instanceVars_def)

lemma Keeps_delVar [keeps_rule]:
  "k' \<noteq> k \<Longrightarrow> Keeps (varIs i k v) (delVar j k')" "Keeps (actIs x a) (delVar j k')" "Keeps (tokIs x t) (delVar j k')"
  by (auto simp: eff_def delVar_def ignoreM_def callS_def varIs_def actIs_def tokIs_def DeleteVariable_def
      instanceVars_def split: prod.splits sum.splits option.splits)

lemma Keeps_SetVariable [keeps_rule]:
  "k' \<noteq> k \<Longrightarrow> Keeps (varIs i k v) (callS (SetVariable j k' u))" "Keeps (actIs x a) (callS (SetVariable j k' u))"
  "Keeps (tokIs x t) (callS (SetVariable j k' u))"
  by (auto simp: eff_def callS_def varIs_def actIs_def tokIs_def SetVariable_def instanceVars_def)

lemma Keeps_cleanDelegateVars [keeps_rule]:
  "hasPrefix k ''__delegate'' = False \<Longrightarrow> Keeps (varIs i k v) (cleanDelegateVars j a)"
  "Keeps (actIs x b) (cleanDelegateVars j a)" "Keeps (tokIs x t) (cleanDelegateVars j a)"
  unfolding cleanDelegateVars_def
  by (intro frame.for_loop Keeps_delVar Keeps_stable; force simp: delegatePrefixes_def hasPrefix_def)+

lemma Keeps_creations [keeps_rule]:
  "Keeps (varIs i k v) (callS (CreateToken t))" "Keeps (varIs i k v) (callS (CreateActivityInstance b))"
  "Keeps (actIs x a) (callS (CreateToken t))" "Keeps (actIs x a) (callS (CreateActivityInstance b))"
  "Keeps (tokIs x u) (callS (CreateToken t))" "Keeps (tokIs x u) (callS (CreateActivityInstance b))"
  by (auto simp: eff_def callS_def varIs_def actIs_def tokIs_def CreateToken_def CreateActivityInstance_def
      instanceVars_def)

section \<open>Loops that create tasks\<close>

lemma AList_update_fresh: "map_of m k = None \<Longrightarrow> AList.update k v m = m @ [(k, v)]"
  by (induction m) (auto split: if_splits)

lemma creations_append:
  "callS (CreateToken t) w = (Inr (), w') \<Longrightarrow>
     tokens (st w') = tokens (st w) @ [(tok_ID t, t)] \<and> activities (st w') = activities (st w) \<and> variables (st w') = variables (st w)"
  "callS (CreateActivityInstance a) w = (Inr (), w') \<Longrightarrow>
     activities (st w') = activities (st w) @ [(ai_ID a, a)] \<and> tokens (st w') = tokens (st w) \<and> variables (st w') = variables (st w)"
  by (auto simp: callS_def CreateToken_def CreateActivityInstance_def AList_update_fresh split: if_splits)

lemma newID_same: "newID E w = (Inr i, w') \<Longrightarrow> st w' = st w"
  by (auto simp: newID_def nextCounter_def nowM_def tickM_def bindM_def returnM_def Let_def)

lemma newToken_same:
  "newToken E i e w = (Inr t, w') \<Longrightarrow> st w' = st w \<and> (\<exists>j now. t = NewToken now j i e)"
  by (auto simp: newToken_def nowM_def tickM_def bindM_def returnM_def split: prod.splits sum.splits dest: newID_same)

lemma newActivity_same:
  "newActivity E i e ty w = (Inr a, w') \<Longrightarrow> st w' = st w \<and> (\<exists>j. a = NewActivityInstance j i e ty)"
  by (auto simp: newActivity_def bindM_def returnM_def split: prod.splits sum.splits dest: newID_same)

text \<open>If every round adds one activity and one token, so do all rounds together.\<close>

lemma forM_creates:
  assumes step: "\<And>x u u'. f x u = (Inr (), u') \<Longrightarrow>
      \<exists>a t. activities (st u') = activities (st u) @ [a] \<and> tokens (st u') = tokens (st u) @ [t] \<and> Q x a \<and> T x t"
    and run: "forM f xs w = (Inr (), w')"
  shows "\<exists>as ts. activities (st w') = activities (st w) @ as \<and> tokens (st w') = tokens (st w) @ ts
     \<and> list_all2 Q xs as \<and> list_all2 T xs ts"
  using run
proof (induction xs arbitrary: w)
  case Nil
  then show ?case by (auto simp: returnM_def)
next
  case (Cons x xs)
  from Cons.prems obtain u where u: "f x w = (Inr (), u)" "forM f xs u = (Inr (), w')"
    by (auto elim!: bindM_InrE)
  from step [OF u(1)] Cons.IH [OF u(2)] show ?case
    by (metis append.assoc append_Cons append_Nil list_all2_Cons)
qed

section \<open>Multi-instance tasks\<close>

definition loopActivity :: "ProcessInstance \<Rightarrow> UserTask \<Rightarrow> string \<Rightarrow> int \<Rightarrow> string \<times> ActivityInstance \<Rightarrow> bool" where
  "loopActivity p ut loopID i = (\<lambda>(k, a). ai_ID a = k \<and> ai_LoopCounter a = i \<and> ai_MultiInstanceLoopID a = loopID
     \<and> ai_State a = ActivityActive \<and> ai_ActivityID a = ut_ID ut \<and> ai_ProcessInstanceID a = pi_ID p
     \<and> ai_ActivityType a = ElementTypeUserTask)"

definition tokenAt :: "string \<Rightarrow> string \<Rightarrow> string \<times> Token \<Rightarrow> bool" where
  "tokenAt i e = (\<lambda>(k, t). tok_ID t = k \<and> tok_State t = TokenActive \<and> tok_CurrentElementID t = e \<and> tok_ProcessInstanceID t = i)"

lemma tail_same: "callS (SetVariable i k v) w = (Inr (), w') \<Longrightarrow> activities (st w') = activities (st w) \<and> tokens (st w') = tokens (st w)"
  by (auto simp: callS_def SetVariable_def)

lemma startOneInstance_creates:
  assumes "startOneInstance E p ut lc loopID items i w = (Inr (), w')"
  shows "\<exists>a t. activities (st w') = activities (st w) @ [a] \<and> tokens (st w') = tokens (st w) @ [t]
     \<and> loopActivity p ut loopID i a \<and> tokenAt (pi_ID p) (ut_ID ut) t"
  using assms unfolding startOneInstance_def Let_def
  by (elim bindM_InrE)
     (auto dest!: newToken_same newActivity_same creations_append tail_same
       simp: loopActivity_def tokenAt_def NewToken_def NewActivityInstance_def returnM_def split: if_splits)

lemma startParallelInstances_creates:
  assumes "startParallelInstances E p ut lc loopID items count w = (Inr (), w')"
  shows "\<exists>as ts. activities (st w') = activities (st w) @ as \<and> tokens (st w') = tokens (st w) @ ts
     \<and> list_all2 (loopActivity p ut loopID) (map int [0..<nat count]) as
     \<and> length ts = nat count \<and> list_all (tokenAt (pi_ID p) (ut_ID ut)) ts"
proof -
  obtain as ts where *: "activities (st w') = activities (st w) @ as" "tokens (st w') = tokens (st w) @ ts"
    "list_all2 (loopActivity p ut loopID) (map int [0..<nat count]) as"
    "list_all2 (\<lambda>_. tokenAt (pi_ID p) (ut_ID ut)) (map int [0..<nat count]) ts"
    using forM_creates [where Q = "loopActivity p ut loopID" and T = "\<lambda>_. tokenAt (pi_ID p) (ut_ID ut)",
        OF startOneInstance_creates [of E p ut lc loopID items] assms [unfolded startParallelInstances_def]] by blast
  then have "length ts = nat count \<and> list_all (tokenAt (pi_ID p) (ut_ID ut)) ts"
    by (auto simp: list_all2_conv_all_nth list_all_length)
  with * show ?thesis by blast
qed

lemma handleMultiInstanceTask_parallel:
  assumes lc: "ut_LoopCharacteristics ut = Some lc" "\<not> lc_IsSequential lc"
    and count: "resolveLoopCount E lc (instanceVars (st w) (pi_ID p)) = Inr n" "0 < n"
    and run: "handleMultiInstanceTask E nav flow d p ut w = (Inr (), w')"
  shows "\<exists>loopID as ts. activities (st w') = activities (st w) @ as \<and> tokens (st w') = tokens (st w) @ ts
     \<and> list_all2 (loopActivity p ut loopID) (map int [0..<nat n]) as
     \<and> length ts = nat n \<and> list_all (tokenAt (pi_ID p) (ut_ID ut)) ts"
proof -
  let ?i = "pi_ID p"
  let ?items = "resolveCollectionItems lc (instanceVars (st w) ?i)"
  note run' = run [unfolded handleMultiInstanceTask_def lc(1) option.case Let_def]
  obtain loopID u where id: "newID E w = (Inr loopID, u)" by (rule bindM_InrE [OF run'])
  have same: "st u = st w" using id by (rule newID_same)
  have "resolveLoopCount E lc (instanceVars (st u) ?i) = Inr n" using count(1) same by simp
  then obtain v where v: "activities (st v) = activities (st w)" "tokens (st v) = tokens (st w)"
    and par: "startParallelInstances E p ut lc loopID ?items n v = (Inr (), w')"
    using run' count(2) same lc(2)
    by (simp add: bindM_Inr [where m = "newID E" and s = w, OF id] peel liftE_def)
       (auto elim!: bindM_InrE dest!: tail_same)
  from startParallelInstances_creates [OF par] v show ?thesis by auto
qed

section \<open>Signs\<close>

definition signActivity :: "Env \<Rightarrow> ActivityInstance \<Rightarrow> string \<Rightarrow> string \<Rightarrow> string \<times> ActivityInstance \<Rightarrow> bool" where
  "signActivity E ai i assignee = (\<lambda>(k, a). ai_ID a = k \<and> ai_AdhocParentID a = ai_ID ai \<and> ai_State a = ActivityActive
     \<and> ai_ActivityID a = ai_ActivityID ai \<and> ai_ActivityType a = ElementTypeUserTask \<and> ai_ProcessInstanceID a = i
     \<and> (\<exists>vs. ai_Assignee a = RenderTemplate E assignee vs))"

lemma getVars_value: "getVars i w = (Inr (instanceVars (st w) i), w)"
  by (simp add: getVars_def ignoreM_def get_values)

lemma addSignActivity_creates:
  assumes "addSignActivity E p ai assignee w = (Inr (), w')"
  shows "\<exists>a t. activities (st w') = activities (st w) @ [a] \<and> tokens (st w') = tokens (st w) @ [t]
     \<and> signActivity E ai (pi_ID p) assignee a \<and> tokenAt (pi_ID p) (ai_ActivityID ai) t"
  using assms unfolding addSignActivity_def
  by (elim bindM_InrE)
     (auto dest!: newToken_same newActivity_same creations_append
       simp: getVars_value signActivity_def tokenAt_def NewToken_def NewActivityInstance_def)

lemma setVar_same: "setVar i k v w = (Inr x, w') \<Longrightarrow> activities (st w') = activities (st w) \<and> tokens (st w') = tokens (st w)"
  by (auto simp: setVar_def ignoreM_def callS_def SetVariable_def)

lemma AddSign_creates:
  assumes ok: "AddSign E i ty strategy assignees w = (Inr (), w')"
    and ai: "map_of (activities (st w)) i = Some ai" and ty: "ty \<noteq> SignBackward"
  shows "assignees \<noteq> [] \<and> ai_State ai = ActivityActive \<and> ai_AdhocParentID ai = ''''
    \<and> (\<exists>p as ts. map_of (instances (st w)) (ai_ProcessInstanceID ai) = Some p \<and> pi_State p = Running
       \<and> activities (st w') = activities (st w) @ as \<and> tokens (st w') = tokens (st w) @ ts
       \<and> list_all2 (signActivity E ai (pi_ID p)) assignees as
       \<and> length ts = length assignees \<and> list_all (tokenAt (pi_ID p) (ai_ActivityID ai)) ts)"
proof -
  have guards: "assignees \<noteq> []" "ai_State ai = ActivityActive" "ai_ActivityType ai = ElementTypeUserTask"
    "ai_AdhocParentID ai = ''''"
    using ok ai unfolding AddSign_def by (auto simp: peel split: if_splits)
  obtain p where p: "map_of (instances (st w)) (ai_ProcessInstanceID ai) = Some p" "pi_State p = Running"
    using ok ai guards unfolding AddSign_def by (auto simp: peel split: if_splits option.splits)
  have unit: "(\<lambda>_ :: unit. returnM ()) = returnM" by (rule ext) simp
  have run: "AddSign E i ty strategy assignees w = bindM (newID E) (\<lambda>sid.
     bindM (setVar (pi_ID p) (sid @ ''_type'') (GString (signTypeString ty))) (\<lambda>_.
     bindM (setVar (pi_ID p) (sid @ ''_strategy'') (GString (strategyString strategy))) (\<lambda>_.
     bindM (setVar (pi_ID p) (sid @ ''_total'') (GFloat (of_nat (length assignees)))) (\<lambda>_.
     bindM (setVar (pi_ID p) (sid @ ''_completed'') (GFloat 0)) (\<lambda>_.
     bindM (setVar (pi_ID p) (sid @ ''_approved'') (GFloat 0)) (\<lambda>_.
     bindM (setVar (pi_ID p) (sid @ ''_parent'') (GString (ai_ID ai))) (\<lambda>_.
     forM (addSignActivity E p ai) assignees))))))) w"
    unfolding AddSign_def using ai guards p ty by (simp add: peel unit)
  obtain v where v: "activities (st v) = activities (st w)" "tokens (st v) = tokens (st w)"
    and loop: "forM (addSignActivity E p ai) assignees v = (Inr (), w')"
    using ok [unfolded run] by (elim bindM_InrE) (auto dest!: setVar_same newID_same)
  obtain as ts where "activities (st w') = activities (st w) @ as" "tokens (st w') = tokens (st w) @ ts"
    "list_all2 (signActivity E ai (pi_ID p)) assignees as"
    "list_all2 (\<lambda>_. tokenAt (pi_ID p) (ai_ActivityID ai)) assignees ts"
    using forM_creates [where Q = "signActivity E ai (pi_ID p)" and T = "\<lambda>_. tokenAt (pi_ID p) (ai_ActivityID ai)",
        OF addSignActivity_creates [of E p ai] loop] v by auto
  then show ?thesis using guards p by (auto simp: list_all2_conv_all_nth list_all_length)
qed

section \<open>Rejection\<close>

definition rejections :: "world \<Rightarrow> string \<Rightarrow> rat" where
  "rejections w i = toFloat64 (map_of (instanceVars (st w) i) ''__rejectionCount'')"

text \<open>What comes after the new task has been created and counted.\<close>

lemma rejectTail_keeps:
  assumes "P = varIs i ''__rejectionCount'' v \<or> P = actIs x a \<or> P = tokIs y t"
  shows "Keeps P (bindM (cleanDelegateVars j b) (\<lambda>_.
     bindM (if reason \<noteq> '''' then setVar j ''__rejectionReason'' (GString reason) else returnM ()) (\<lambda>_.
     if ty = RejectInitiator then setVar j ''__rejectedToInitiator'' (GBool True) else returnM ())))"
  using assms
  by (elim disjE; simp only:; intro frame.bind frame.if_then_else frame.return Keeps_stable keeps_rule; simp add: hasPrefix_def)

lemma assigneeFor_same: "assigneeFor E d i e w = (Inr s, w') \<Longrightarrow> w' = w"
  by (auto simp: assigneeFor_def returnM_def bindM_def getVars_value split: option.splits FlowElement.splits)

lemma rejectTo_creates:
  assumes ok: "rejectTo E d p ai ty reason n target w = (Inr (), w')"
  shows "varIs (pi_ID p) ''__rejectionCount'' (Some (GFloat (n + 1))) w'
    \<and> (\<exists>k a. actIs k a w' \<and> ai_State a = ActivityActive \<and> ai_ActivityID a = target
          \<and> ai_ActivityType a = ElementTypeUserTask \<and> ai_ProcessInstanceID a = pi_ID p)
    \<and> (\<exists>k t. tokIs k t w' \<and> tok_State t = TokenActive \<and> tok_CurrentElementID t = target
          \<and> tok_ProcessInstanceID t = pi_ID p)"
proof -
  define rest where "rest = bindM (cleanDelegateVars (pi_ID p) (ai_ID ai)) (\<lambda>_.
     bindM (if reason \<noteq> '''' then setVar (pi_ID p) ''__rejectionReason'' (GString reason) else returnM ()) (\<lambda>_.
     if ty = RejectInitiator then setVar (pi_ID p) ''__rejectedToInitiator'' (GBool True) else returnM ()))"
  obtain u tok u1 u2 newAI u3 assignee u4 u5 u6 where steps:
    "newToken E (pi_ID p) target u = (Inr tok, u1)" "callS (CreateToken tok) u1 = (Inr (), u2)"
    "newActivity E (pi_ID p) target ElementTypeUserTask u2 = (Inr newAI, u3)"
    "assigneeFor E d (pi_ID p) target u3 = (Inr assignee, u4)"
    "callS (CreateActivityInstance (newAI\<lparr>ai_Assignee := assignee\<rparr>)) u4 = (Inr (), u5)"
    "callS (SetVariable (pi_ID p) ''__rejectionCount'' (GFloat (n + 1))) u5 = (Inr (), u6)" "rest u6 = (Inr (), w')"
    using ok unfolding rejectTo_def rest_def [symmetric] by (elim bindM_InrE) auto
  let ?a = "newAI\<lparr>ai_Assignee := assignee\<rparr>"
  have new: "\<exists>j now. tok = NewToken now j (pi_ID p) target" "\<exists>j. newAI = NewActivityInstance j (pi_ID p) target ElementTypeUserTask"
    using steps(1,3) newToken_same newActivity_same by blast+
  have "tokIs (tok_ID tok) tok u2" using steps(2) by (auto simp: callS_def CreateToken_def tokIs_def split: if_splits)
  moreover have "st u4 = st u2" using steps(3,4) newActivity_same assigneeFor_same by metis
  ultimately have "tokIs (tok_ID tok) tok u4" by (simp add: tokIs_def)
  then have "tokIs (tok_ID tok) tok u5"
    using KeepsD [OF Keeps_creations(6)] steps(5) by (metis snd_conv)
  then have tok: "tokIs (tok_ID tok) tok u6" using KeepsD [OF Keeps_SetVariable(3)] steps(6) by (metis snd_conv)
  have "actIs (ai_ID ?a) ?a u5" using steps(5) by (auto simp: callS_def CreateActivityInstance_def actIs_def split: if_splits)
  then have act: "actIs (ai_ID ?a) ?a u6" using KeepsD [OF Keeps_SetVariable(2)] steps(6) by (metis snd_conv)
  have var: "varIs (pi_ID p) ''__rejectionCount'' (Some (GFloat (n + 1))) u6"
    using steps(6) by (auto simp: callS_def varIs_def instanceVars_set SetVariable_def split: prod.splits)
       (auto simp: instanceVars_def)
  have "P w'" if "P u6" "P = varIs (pi_ID p) ''__rejectionCount'' v \<or> P = actIs x a \<or> P = tokIs y t" for P v x a y t
    using KeepsD [OF rejectTail_keeps [OF that(2)] that(1)] steps(7) unfolding rest_def by (metis snd_conv)
  then have "varIs (pi_ID p) ''__rejectionCount'' (Some (GFloat (n + 1))) w' \<and> actIs (ai_ID ?a) ?a w' \<and> tokIs (tok_ID tok) tok w'"
    using var act tok by blast
  moreover have "ai_State ?a = ActivityActive \<and> ai_ActivityID ?a = target
      \<and> ai_ActivityType ?a = ElementTypeUserTask \<and> ai_ProcessInstanceID ?a = pi_ID p"
    and "tok_State tok = TokenActive \<and> tok_CurrentElementID tok = target \<and> tok_ProcessInstanceID tok = pi_ID p"
    using new by (auto simp: NewToken_def NewActivityInstance_def)
  ultimately show ?thesis by blast
qed


lemma RejectTask_creates:
  assumes w: "wf w" and a: "map_of (activities (st w)) i = Some a" and ty: "ty \<noteq> RejectTerminate"
    and ok: "RejectTask E i ty reason node w = (Inr (), w')"
  defines "pid \<equiv> ai_ProcessInstanceID a"
  shows "truncRat (rejections w pid) < maxRejection (instanceVars (st w) pid)"
    and "rejections w' pid = rejections w pid + 1"
    and "\<exists>p d target. map_of (instances (st w)) pid = Some p \<and> pi_State p = Running
      \<and> map_of (definitions (st w)) (pi_ProcessDefinitionID p) = Some d
      \<and> rejectTarget d (ai_ActivityID a) ty node = Inr target
      \<and> (\<exists>k b. actIs k b w' \<and> ai_State b = ActivityActive \<and> ai_ActivityID b = target
            \<and> ai_ActivityType b = ElementTypeUserTask \<and> ai_ProcessInstanceID b = pid)
      \<and> (\<exists>k t. tokIs k t w' \<and> tok_State t = TokenActive \<and> tok_CurrentElementID t = target
            \<and> tok_ProcessInstanceID t = pid)"
proof -
  obtain p where p: "map_of (instances (st w)) pid = Some p" "pi_State p = Running"
    using ok a unfolding RejectTask_def Let_def by (auto simp: peel pid_def split: if_splits option.splits)
  have id: "pi_ID p = pid" using wf_inst [OF w p(1)] by simp
  obtain d where d: "map_of (definitions (st w)) (pi_ProcessDefinitionID p) = Some d"
    using ok a p unfolding RejectTask_def Let_def by (auto simp: peel pid_def split: if_splits option.splits)
  have limit: "truncRat (rejections w pid) < maxRejection (instanceVars (st w) pid)"
    and to: "bindM (liftE (rejectTarget d (ai_ActivityID a) ty node)) (rejectTo E d p a ty reason (rejections w pid)) w = (Inr (), w')"
    using ok a p d id ty unfolding RejectTask_def Let_def
    by (auto simp: peel pid_def rejections_def split: if_splits)
  show "truncRat (rejections w pid) < maxRejection (instanceVars (st w) pid)" by (rule limit)
  obtain target where target: "rejectTarget d (ai_ActivityID a) ty node = Inr target"
    and run: "rejectTo E d p a ty reason (rejections w pid) target w = (Inr (), w')"
    using to by (cases "rejectTarget d (ai_ActivityID a) ty node")
      (auto simp: liftE_def bindM_def throwM_def returnM_def)
  note created = rejectTo_creates [OF run, unfolded id]
  show "rejections w' pid = rejections w pid + 1"
    using created by (simp add: varIs_def rejections_def toFloat64_def)
  show "\<exists>p d target. map_of (instances (st w)) pid = Some p \<and> pi_State p = Running
      \<and> map_of (definitions (st w)) (pi_ProcessDefinitionID p) = Some d
      \<and> rejectTarget d (ai_ActivityID a) ty node = Inr target
      \<and> (\<exists>k b. actIs k b w' \<and> ai_State b = ActivityActive \<and> ai_ActivityID b = target
            \<and> ai_ActivityType b = ElementTypeUserTask \<and> ai_ProcessInstanceID b = pid)
      \<and> (\<exists>k t. tokIs k t w' \<and> tok_State t = TokenActive \<and> tok_CurrentElementID t = target
            \<and> tok_ProcessInstanceID t = pid)"
    using p d target created by blast
qed

lemma RejectTask_limit:
  assumes "wf w" and "map_of (activities (st w)) i = Some a" and "completeError i (Some a) = None"
    and p: "map_of (instances (st w)) (ai_ProcessInstanceID a) = Some p" "pi_State p = Running"
    and "\<not> truncRat (rejections w (pi_ID p)) < maxRejection (instanceVars (st w) (pi_ID p))"
  shows "RejectTask E i ty reason node w
    = (Inl (RejectionLimit (truncRat (rejections w (pi_ID p))) (maxRejection (instanceVars (st w) (pi_ID p)))), w)"
proof -
  have a: "ai_State a = ActivityActive" "ai_ActivityType a = ElementTypeUserTask"
    using assms(3) by (cases "ai_State a"; simp add: completeError_def split: if_splits)+
  obtain d where "map_of (definitions (st w)) (pi_ProcessDefinitionID p) = Some d"
    using wf_inst [OF assms(1) p(1)] by (auto simp: hasDef_def)
  then show ?thesis
    using assms a unfolding RejectTask_def Let_def by (simp add: peel rejections_def del: requireM_False)
qed

end
