(* ===== verification/Fresh.thy ===== *)
theory Fresh imports Frames begin

text \<open>
  Operations that succeed. Tokens and activities are created under new identifiers, and a
  creation fails when its identifier is taken. As long as the clock reads a time between 2006
  and 2262 and the counter of \<open>newID\<close> does not overflow, that does not happen: no key of the
  store is an identifier still to come.
\<close>

section \<open>Triples for success\<close>

definition succeeds :: "('s \<Rightarrow> bool) \<Rightarrow> ('s, 'e, 'a) sem \<Rightarrow> ('a \<Rightarrow> 's \<Rightarrow> bool) \<Rightarrow> bool" where
  "succeeds P m Q \<longleftrightarrow> (\<forall>s. P s \<longrightarrow> (\<exists>x s'. m s = (Inr x, s') \<and> Q x s'))"

lemma succeedsD: "succeeds P m Q \<Longrightarrow> P s \<Longrightarrow> \<exists>x s'. m s = (Inr x, s') \<and> Q x s'"
  by (simp add: succeeds_def)

lemma succeeds_return: "(\<And>s. P s \<Longrightarrow> Q x s) \<Longrightarrow> succeeds P (returnM x) Q"
  by (simp add: succeeds_def returnM_def)

lemma succeeds_bind: "succeeds P m Q \<Longrightarrow> (\<And>x. succeeds (Q x) (f x) R) \<Longrightarrow> succeeds P (bindM m f) R"
  unfolding succeeds_def by (metis bindM_Inr)

lemma succeeds_pre: "succeeds Q m R \<Longrightarrow> (\<And>s. P s \<Longrightarrow> Q s) \<Longrightarrow> succeeds P m R"
  by (auto simp: succeeds_def)

lemma succeeds_post: "succeeds P m Q \<Longrightarrow> (\<And>x s. Q x s \<Longrightarrow> R x s) \<Longrightarrow> succeeds P m R"
  unfolding succeeds_def by meson

lemma succeeds_if: "(b \<Longrightarrow> succeeds P m Q) \<Longrightarrow> (\<not> b \<Longrightarrow> succeeds P m' Q) \<Longrightarrow> succeeds P (if b then m else m') Q"
  by simp

text \<open>A loop whose rounds each use up one unit of a budget.\<close>

lemma succeeds_forM:
  assumes "\<And>x n. succeeds (P (n + k)) (f x) (\<lambda>_. P n)"
  shows "succeeds (P (length xs * k + n)) (forM f xs) (\<lambda>_. P n)"
proof (induction xs)
  case (Cons x xs)
  have "succeeds (P (length xs * k + n + k)) (f x) (\<lambda>_. P (length xs * k + n))" by (rule assms)
  then have "succeeds (P (length xs * k + n + k)) (forM f (x # xs)) (\<lambda>_. P n)"
    using Cons.IH by (auto intro: succeeds_bind)
  moreover have "length (x # xs) * k + n = length xs * k + n + k" by simp
  ultimately show ?case by (simp only:)
qed (simp add: succeeds_return)

section \<open>Fresh identifiers\<close>

definition saneClock :: "Env \<Rightarrow> bool" where
  "saneClock E \<longleftrightarrow> (\<forall>n. 2 ^ 60 \<le> clock E n \<and> clock E n < 2 ^ 63)"

text \<open>An identifier that \<open>newID\<close> may still give when its counter is past \<open>c\<close>.\<close>

definition toCome :: "int \<Rightarrow> string \<Rightarrow> bool" where
  "toCome c x \<longleftrightarrow> (\<exists>ts d. 2 ^ 60 \<le> ts \<and> ts < 2 ^ 63 \<and> c < d \<and> x = newIDString ts d)"

definition keys :: "world \<Rightarrow> string set" where
  "keys w = dom (map_of (activities (st w))) \<union> dom (map_of (tokens (st w)))"

text \<open>\<open>n\<close> more identifiers can be had, and none of them is taken.\<close>

definition ready :: "nat \<Rightarrow> world \<Rightarrow> bool" where
  "ready n w \<longleftrightarrow> 0 \<le> idCounter w \<and> idCounter w + int n < 2 ^ 63 \<and> (\<forall>x\<in>keys w. \<not> toCome (idCounter w) x)"

definition issued :: "string \<Rightarrow> world \<Rightarrow> bool" where
  "issued x w \<longleftrightarrow> x \<notin> keys w \<and> \<not> toCome (idCounter w) x"

lemma ready_less: "ready n w \<Longrightarrow> m \<le> n \<Longrightarrow> ready m w"
  by (simp add: ready_def)

lemma newID_succeeds:
  assumes "saneClock E"
  shows "succeeds (ready (Suc n)) (newID E) (\<lambda>x w. ready n w \<and> issued x w)"
  unfolding succeeds_def
proof (intro allI impI)
  fix w assume w: "ready (Suc n) w"
  let ?c = "idCounter w + 1" and ?x = "newIDString (clock E (ticks w)) (idCounter w + 1)"
  let ?w = "(ticked w)\<lparr>idCounter := idCounter w + 1\<rparr>"
  have t: "2 ^ 60 \<le> clock E (ticks w)" "clock E (ticks w) < 2 ^ 63" using assms by (simp_all add: saneClock_def)
  have c: "0 \<le> idCounter w" "?c < 2 ^ 63" using w by (simp_all add: ready_def)
  then have "newID E w = (Inr ?x, ?w)"
    by (simp add: world_defs sem_simp Let_def ticked_def in64_def)
  moreover have "\<not> toCome ?c ?x"
  proof
    assume "toCome ?c ?x"
    then obtain ts d where "2 ^ 60 \<le> ts" "ts < 2 ^ 63" "?c < d" "?x = newIDString ts d" by (auto simp: toCome_def)
    then show False using newIDString_eq_iff [OF t, of ts ?c d] c by simp
  qed
  moreover have "toCome (idCounter w) ?x"
    unfolding toCome_def using t by (intro exI [of _ "clock E (ticks w)"] exI [of _ ?c]) simp
  then have "?x \<notin> keys w" using w by (auto simp: ready_def)
  moreover have "\<not> toCome ?c x" if "x \<in> keys w" for x
    using w that by (auto simp: ready_def toCome_def)
  ultimately show "\<exists>x w'. newID E w = (Inr x, w') \<and> ready n w' \<and> issued x w'"
    using w by (auto simp: ready_def issued_def keys_def)
qed

lemma newToken_succeeds:
  assumes "saneClock E"
  shows "succeeds (ready (Suc n)) (newToken E i e) (\<lambda>t w. ready n w \<and> issued (tok_ID t) w)"
  unfolding newToken_def
  by (rule succeeds_bind [OF newID_succeeds [OF assms]])
     (auto simp: succeeds_def nowM_def tickM_def bindM_def returnM_def NewToken_def ready_def issued_def keys_def)

lemma newActivity_succeeds:
  assumes "saneClock E"
  shows "succeeds (ready (Suc n)) (newActivity E i e ty) (\<lambda>a w. ready n w \<and> issued (ai_ID a) w)"
  unfolding newActivity_def
  by (rule succeeds_bind [OF newID_succeeds [OF assms]], rule succeeds_return) (simp add: NewActivityInstance_def)

lemma create_succeeds:
  "succeeds (\<lambda>w. ready n w \<and> issued (tok_ID t) w) (callS (CreateToken t)) (\<lambda>_. ready n)"
  "succeeds (\<lambda>w. ready n w \<and> issued (ai_ID a) w) (callS (CreateActivityInstance a)) (\<lambda>_. ready n)"
  by (auto simp: succeeds_def callS_def CreateToken_def CreateActivityInstance_def ready_def issued_def keys_def dom_def)

lemma vars_succeeds:
  "succeeds (ready n) (callS (SetVariable i k v)) (\<lambda>_. ready n)"
  "succeeds (ready n) (setVar i k v) (\<lambda>_. ready n)"
  "succeeds (ready n) (getVars i) (\<lambda>_. ready n)"
  by (auto simp: succeeds_def callS_def SetVariable_def setVar_def ignoreM_def getVars_value ready_def keys_def)

section \<open>Loops that create tasks succeed\<close>

lemma startOneInstance_succeeds:
  assumes "saneClock E"
  shows "succeeds (ready (n + 2)) (startOneInstance E p ut lc loopID items i) (\<lambda>_. ready n)"
proof -
  let ?set = "\<lambda>a. if ut_Assignee ut \<noteq> '''' then a\<lparr>ai_MultiInstanceLoopID := loopID, ai_LoopCounter := i,
      ai_Assignee := RenderTemplate E (ut_Assignee ut) (pi_Variables p)\<rparr>
    else a\<lparr>ai_MultiInstanceLoopID := loopID, ai_LoopCounter := i\<rparr>"
  have create: "succeeds (\<lambda>w. ready n w \<and> issued (ai_ID a) w) (callS (CreateActivityInstance b)) (\<lambda>_. ready n)"
    if "ai_ID b = ai_ID a" for a b :: ActivityInstance using create_succeeds(2) [of n b] that by simp
  show ?thesis
    unfolding startOneInstance_def Let_def
    by (rule succeeds_pre [where Q = "ready (Suc (Suc n))"],
        rule succeeds_bind [OF newToken_succeeds [OF assms]], rule succeeds_bind [OF create_succeeds(1)],
        rule succeeds_bind [OF newActivity_succeeds [OF assms]], rule succeeds_bind [OF create], simp,
        rule succeeds_if, rule vars_succeeds, rule succeeds_return) simp_all
qed

lemma startParallelInstances_succeeds:
  assumes "saneClock E" and "0 \<le> count"
  shows "succeeds (ready (nat count * 2)) (startParallelInstances E p ut lc loopID items count) (\<lambda>_. ready 0)"
  using succeeds_forM [where P = ready and k = 2 and n = 0 and xs = "map int [0..<nat count]",
      OF startOneInstance_succeeds [OF assms(1)]]
  by (simp add: startParallelInstances_def)

lemma addSignActivity_succeeds:
  assumes "saneClock E"
  shows "succeeds (ready (n + 2)) (addSignActivity E p ai a) (\<lambda>_. ready n)"
proof -
  have create: "succeeds (\<lambda>w. ready n w \<and> issued (ai_ID a) w) (callS (CreateActivityInstance b)) (\<lambda>_. ready n)"
    if "ai_ID b = ai_ID a" for a b :: ActivityInstance and n using create_succeeds(2) [of n b] that by simp
  show ?thesis
    unfolding addSignActivity_def
    by (rule succeeds_pre [where Q = "ready (Suc (Suc n))"], rule succeeds_bind [OF vars_succeeds(3)],
        rule succeeds_bind [OF newActivity_succeeds [OF assms]], rule succeeds_bind [OF create], simp,
        rule succeeds_bind [OF newToken_succeeds [OF assms]], rule create_succeeds(1)) simp
qed

lemma handleMultiInstanceTask_succeeds:
  assumes E: "saneClock E" and lc: "ut_LoopCharacteristics ut = Some lc" "\<not> lc_IsSequential lc"
    and count: "resolveLoopCount E lc (instanceVars (st w) (pi_ID p)) = Inr n" "0 < n"
    and w: "ready (Suc (nat n * 2)) w"
  shows "\<exists>w'. handleMultiInstanceTask E nav flow d p ut w = (Inr (), w')"
proof -
  obtain loopID u where id: "newID E w = (Inr loopID, u)" and u: "ready (nat n * 2) u"
    using succeedsD [OF newID_succeeds [OF E] w] by blast
  have same: "st u = st w" using id by (rule newID_same)
  let ?set = "\<lambda>name v. callS (SetVariable (pi_ID p) name v)"
  let ?rest = "bindM (?set (loopID @ ''_nrOfInstances'') (GFloat (of_int n))) (\<lambda>_.
     bindM (?set ''nrOfInstances'' (GFloat (of_int n))) (\<lambda>_.
     bindM (?set (loopID @ ''_nrOfActiveInstances'') (GFloat (of_int n))) (\<lambda>_.
     bindM (?set ''nrOfActiveInstances'' (GFloat (of_int n))) (\<lambda>_.
     bindM (?set (loopID @ ''_nrOfCompletedInstances'') (GFloat 0)) (\<lambda>_.
     bindM (?set ''nrOfCompletedInstances'' (GFloat 0)) (\<lambda>_.
     startParallelInstances E p ut lc loopID (resolveCollectionItems lc (instanceVars (st w) (pi_ID p))) n))))))"
  have "succeeds (ready (nat n * 2)) ?rest (\<lambda>_. ready 0)"
    using count(2) by (intro succeeds_bind [OF vars_succeeds(1)] startParallelInstances_succeeds E) simp
  then obtain w' where "?rest u = (Inr (), w')" using u by (auto dest: succeedsD)
  moreover have "handleMultiInstanceTask E nav flow d p ut w = ?rest u"
    using lc count same unfolding handleMultiInstanceTask_def Let_def
    by (simp add: bindM_Inr [where m = "newID E" and s = w, OF id] peel liftE_def)
  ultimately show ?thesis by auto
qed

lemma AddSign_succeeds:
  assumes E: "saneClock E" and ai: "map_of (activities (st w)) i = Some ai" "ai_State ai = ActivityActive"
      "ai_ActivityType ai = ElementTypeUserTask" "ai_AdhocParentID ai = ''''"
    and p: "map_of (instances (st w)) (ai_ProcessInstanceID ai) = Some p" "pi_State p = Running"
    and "assignees \<noteq> []" "ty \<noteq> SignBackward" and w: "ready (Suc (length assignees * 2)) w"
  shows "\<exists>w'. AddSign E i ty strategy assignees w = (Inr (), w')"
proof -
  let ?rest = "bindM (newID E) (\<lambda>sid.
     bindM (setVar (pi_ID p) (sid @ ''_type'') (GString (signTypeString ty))) (\<lambda>_.
     bindM (setVar (pi_ID p) (sid @ ''_strategy'') (GString (strategyString strategy))) (\<lambda>_.
     bindM (setVar (pi_ID p) (sid @ ''_total'') (GFloat (of_nat (length assignees)))) (\<lambda>_.
     bindM (setVar (pi_ID p) (sid @ ''_completed'') (GFloat 0)) (\<lambda>_.
     bindM (setVar (pi_ID p) (sid @ ''_approved'') (GFloat 0)) (\<lambda>_.
     bindM (setVar (pi_ID p) (sid @ ''_parent'') (GString (ai_ID ai))) (\<lambda>_.
     bindM (forM (addSignActivity E p ai) assignees) (\<lambda>_. returnM ()))))))))"
  have "succeeds (ready (length assignees * 2 + 0)) (forM (addSignActivity E p ai) assignees) (\<lambda>_. ready 0)"
    by (rule succeeds_forM [where P = ready and k = 2, OF addSignActivity_succeeds [OF E]])
  then have "succeeds (ready (Suc (length assignees * 2))) ?rest (\<lambda>_. ready 0)"
    by (intro succeeds_bind [OF succeeds_post [OF newID_succeeds [OF E], where R = "\<lambda>_. ready (length assignees * 2)"]]
        succeeds_bind [OF vars_succeeds(2)] succeeds_bind succeeds_return) simp_all
  then obtain w' where "?rest w = (Inr (), w')" using w by (auto dest: succeedsD)
  moreover have "AddSign E i ty strategy assignees w = ?rest w"
    unfolding AddSign_def using assms by (simp add: peel)
  ultimately show ?thesis by auto
qed

end
