(* ===== verification/Searches.thy ===== *)
theory Searches imports Rework begin

text \<open>
  The two depth-first searches of engine/reject.go: the fuel of the model is always enough,
  what they find is what they look for, and they miss nothing.
\<close>

section \<open>Enough fuel\<close>

definition sources :: "ProcessDefinition \<Rightarrow> string set" where
  "sources d = sf_SourceRef ` set (pd_SequenceFlows d)"

definition targets :: "ProcessDefinition \<Rightarrow> string set" where
  "targets d = sf_TargetRef ` set (pd_SequenceFlows d)"

lemma finite_refs [simp]: "finite (sources d)" "finite (targets d)"
  by (simp_all add: sources_def targets_def)

lemma card_refs: "card (insert x (sources d)) < searchFuel d" "card (insert x (targets d)) < searchFuel d"
proof -
  have "card (sources d) \<le> length (pd_SequenceFlows d)" "card (targets d) \<le> length (pd_SequenceFlows d)"
    using card_image_le [of "set (pd_SequenceFlows d)" sf_SourceRef] card_image_le [of "set (pd_SequenceFlows d)" sf_TargetRef]
      card_length [of "pd_SequenceFlows d"] by (simp_all add: sources_def targets_def)
  then show "card (insert x (sources d)) < searchFuel d" "card (insert x (targets d)) < searchFuel d"
    by (simp_all add: searchFuel_def card_insert_if)
qed

text \<open>Marking a fresh node leaves fewer unmarked ones.\<close>

lemma card_mark:
  "finite S \<Longrightarrow> x \<notin> V \<Longrightarrow> card (insert x S - V) < Suc n \<Longrightarrow> card (S - insert x V) < n"
proof -
  assume "finite S" "x \<notin> V" "card (insert x S - V) < Suc n"
  moreover have "insert x S - V = insert x (S - insert x V)" using \<open>x \<notin> V\<close> by auto
  moreover have "x \<notin> S - insert x V" by simp
  ultimately show ?thesis by simp
qed

lemma card_more: "finite S \<Longrightarrow> V \<subseteq> V' \<Longrightarrow> card (S - V) < n \<Longrightarrow> card (S - V') < n"
  by (meson Diff_mono card_mono finite_Diff le_less_trans order_refl)

lemma prev_total:
  "card (insert x (sources d) - set vis) < n \<Longrightarrow> \<exists>t v. prevDFS n d x vis = Some (t, v) \<and> set vis \<subseteq> set v"
  "card (sources d - set vis) < n \<Longrightarrow> set sfs \<subseteq> set (pd_SequenceFlows d) \<Longrightarrow>
     \<exists>t v. prevLoop n d sfs vis = Some (t, v) \<and> set vis \<subseteq> set v"
proof (induction n d x vis and n d sfs vis rule: prevDFS_prevLoop.induct)
  case (2 n d x vis)
  show ?case
  proof (cases "x \<in> set vis")
    case False
    with 2 have "card (sources d - set (x # vis)) < n" by (simp add: card_mark)
    moreover have "set (FindIncomingFlows (pd_SequenceFlows d) x) \<subseteq> set (pd_SequenceFlows d)"
      by (auto simp: FindIncomingFlows_def)
    ultimately show ?thesis using 2(1) False by fastforce
  qed simp
next
  case (4 n d sf sfs vis)
  show ?case
  proof (cases "element d (sf_SourceRef sf)")
    case None
    with 4 show ?thesis by simp
  next
    case (Some el)
    show ?thesis
    proof (cases "GetType el = ElementTypeUserTask \<or> GetType el = ElementTypeStartEvent")
      case True
      with Some show ?thesis by auto
    next
      case other: False
      have "sf_SourceRef sf \<in> sources d" using 4(5) by (auto simp: sources_def)
      then have "insert (sf_SourceRef sf) (sources d) = sources d" by auto
      then obtain t v where dfs: "prevDFS n d (sf_SourceRef sf) vis = Some (t, v)" "set vis \<subseteq> set v"
        using 4(2) [OF Some other] 4(4) by auto
      have "card (sources d - set v) < n" using card_more [OF _ dfs(2)] 4(4) by simp
      show ?thesis
      proof (cases "t = ''''")
        case True
        then have "\<exists>t' v'. prevLoop n d sfs v = Some (t', v') \<and> set v \<subseteq> set v'"
          using 4(3) [OF Some other dfs(1) refl] 4(5) \<open>card (sources d - set v) < n\<close> by simp
        then show ?thesis using True dfs Some other by auto
      qed (use dfs Some other in simp)
    qed
  qed
qed auto

lemma fwd_total:
  "card (insert x (targets d) - set vis) < n \<Longrightarrow> \<exists>t v. fwdDFS n d x vis = Some (t, v) \<and> set vis \<subseteq> set v"
  "card (targets d - set vis) < n \<Longrightarrow> set sfs \<subseteq> set (pd_SequenceFlows d) \<Longrightarrow>
     \<exists>t v. fwdLoop n d sfs vis = Some (t, v) \<and> set vis \<subseteq> set v"
proof (induction n d x vis and n d sfs vis rule: fwdDFS_fwdLoop.induct)
  case (2 n d x vis)
  show ?case
  proof (cases "x \<in> set vis")
    case False
    with 2 have "card (targets d - set (x # vis)) < n" by (simp add: card_mark)
    moreover have "set (FindOutgoingFlows (pd_SequenceFlows d) x) \<subseteq> set (pd_SequenceFlows d)"
      by (auto simp: FindOutgoingFlows_def)
    ultimately show ?thesis using 2(1) False by (fastforce split: option.split)
  qed simp
next
  case (4 n d sf sfs vis)
  have "sf_TargetRef sf \<in> targets d" using 4(4) by (auto simp: targets_def)
  then have "insert (sf_TargetRef sf) (targets d) = targets d" by auto
  then obtain t v where dfs: "fwdDFS n d (sf_TargetRef sf) vis = Some (t, v)" "set vis \<subseteq> set v"
    using 4(1,3) by auto
  have "card (targets d - set v) < n" using card_more [OF _ dfs(2)] 4(3) by simp
  show ?case
  proof (cases "t = ''''")
    case True
    then have "\<exists>t' v'. fwdLoop n d sfs v = Some (t', v') \<and> set v \<subseteq> set v'"
      using 4(2) [OF dfs(1) refl] 4(4) \<open>card (targets d - set v) < n\<close> by simp
    then show ?thesis using True dfs by auto
  qed (use dfs in simp)
qed auto

lemma prevDFS_total: "prevDFS (searchFuel d) d x [] \<noteq> None"
  using prev_total(1) [of x d "[]" "searchFuel d"] card_refs by auto

lemma fwdDFS_total: "fwdDFS (searchFuel d) d x [] \<noteq> None"
  using fwd_total(1) [of x d "[]" "searchFuel d"] card_refs by auto

section \<open>The previous user task\<close>

definition stopsAt :: "FlowElement \<Rightarrow> bool" where
  "stopsAt el \<longleftrightarrow> GetType el = ElementTypeUserTask \<or> GetType el = ElementTypeStartEvent"

text \<open>
  \<open>behind d x t\<close>: going backwards along the flows from \<open>x\<close>, \<open>t\<close> is a user task or start event
  with neither of them in between.
\<close>

inductive behind :: "ProcessDefinition \<Rightarrow> string \<Rightarrow> string \<Rightarrow> bool" for d where
  back_here: "sf \<in> set (FindIncomingFlows (pd_SequenceFlows d) x) \<Longrightarrow> element d (sf_SourceRef sf) = Some el \<Longrightarrow>
     stopsAt el \<Longrightarrow> behind d x (sf_SourceRef sf)"
| back_step: "sf \<in> set (FindIncomingFlows (pd_SequenceFlows d) x) \<Longrightarrow> element d (sf_SourceRef sf) = Some el \<Longrightarrow>
     \<not> stopsAt el \<Longrightarrow> behind d (sf_SourceRef sf) t \<Longrightarrow> behind d x t"

lemma prev_sound:
  "prevDFS n d x vis = Some (t, v) \<Longrightarrow> t \<noteq> '''' \<Longrightarrow> behind d x t"
  "prevLoop n d sfs vis = Some (t, v) \<Longrightarrow> t \<noteq> '''' \<Longrightarrow>
     set sfs \<subseteq> set (FindIncomingFlows (pd_SequenceFlows d) y) \<Longrightarrow> behind d y t"
proof (induction n d x vis and n d sfs vis arbitrary: t v and t v y rule: prevDFS_prevLoop.induct)
  case (2 n d x vis)
  then show ?case by (auto split: if_splits)
next
  case (4 n d sf sfs vis)
  show ?case
  proof (cases "element d (sf_SourceRef sf)")
    case (Some el)
    show ?thesis
    proof (cases "stopsAt el")
      case True
      then show ?thesis using 4(4,6) Some by (auto simp: stopsAt_def intro: back_here)
    next
      case False
      with 4(4) Some obtain t1 v1 where t1: "prevDFS n d (sf_SourceRef sf) vis = Some (t1, v1)"
        and rest: "(if t1 \<noteq> '''' then Some (t1, v1) else prevLoop n d sfs v1) = Some (t, v)"
        by (auto simp: stopsAt_def split: option.splits)
      have halts: "\<not> (GetType el = ElementTypeUserTask \<or> GetType el = ElementTypeStartEvent)"
        using False by (simp add: stopsAt_def)
      show ?thesis
      proof (cases "t1 = ''''")
        case True
        then show ?thesis using 4(3) [OF Some halts t1 refl] rest 4(5,6) by simp
      next
        case found: False
        from found rest have "t1 = t" by simp
        then have "behind d (sf_SourceRef sf) t" using 4(2) [OF Some halts t1] 4(5) by blast
        moreover have "sf \<in> set (FindIncomingFlows (pd_SequenceFlows d) y)" using 4(6) by simp
        ultimately show ?thesis using back_step Some False by metis
      qed
    qed
  qed (use 4 in simp)
qed auto

text \<open>Everything behind the nodes \<open>W\<close> has been looked at, and leads to \<open>V\<close>.\<close>

definition passedBy :: "ProcessDefinition \<Rightarrow> string set \<Rightarrow> SequenceFlow \<Rightarrow> bool" where
  "passedBy d V sf \<longleftrightarrow> (case element d (sf_SourceRef sf) of None \<Rightarrow> True
     | Some el \<Rightarrow> \<not> stopsAt el \<and> sf_SourceRef sf \<in> V)"

definition cleared :: "ProcessDefinition \<Rightarrow> string set \<Rightarrow> string set \<Rightarrow> bool" where
  "cleared d V W \<longleftrightarrow> (\<forall>y\<in>W. \<forall>sf\<in>set (FindIncomingFlows (pd_SequenceFlows d) y). passedBy d V sf)"

lemma cleared_mono: "cleared d V W \<Longrightarrow> V \<subseteq> V' \<Longrightarrow> cleared d V' W"
  by (auto simp: cleared_def passedBy_def split: option.splits)

lemma cleared_Un: "cleared d V (W \<union> W') \<longleftrightarrow> cleared d V W \<and> cleared d V W'"
  by (auto simp: cleared_def)

lemma prev_complete:
  "prevDFS n d x vis = Some ('''', v) \<Longrightarrow> element d '''' = None \<Longrightarrow>
     set vis \<subseteq> set v \<and> x \<in> set v \<and> cleared d (set v) (set v - set vis)"
  "prevLoop n d sfs vis = Some ('''', v) \<Longrightarrow> element d '''' = None \<Longrightarrow>
     set vis \<subseteq> set v \<and> (\<forall>sf\<in>set sfs. passedBy d (set v) sf) \<and> cleared d (set v) (set v - set vis)"
proof (induction n d x vis and n d sfs vis arbitrary: v and v rule: prevDFS_prevLoop.induct)
  case (2 n d x vis)
  show ?case
  proof (cases "x \<in> set vis")
    case True
    with 2 show ?thesis by (simp add: cleared_def)
  next
    case False
    with 2 have "set (x # vis) \<subseteq> set v" "\<forall>sf\<in>set (FindIncomingFlows (pd_SequenceFlows d) x). passedBy d (set v) sf"
      "cleared d (set v) (set v - set (x # vis))" by auto
    moreover from this(2) have "cleared d (set v) {x}" by (simp add: cleared_def)
    ultimately show ?thesis
      using cleared_Un [of d "set v" "set v - set (x # vis)" "{x}"] by (auto simp: cleared_def)
  qed
next
  case (3 n d vis)
  then show ?case by (simp add: cleared_def)
next
  case (4 n d sf sfs vis)
  show ?case
  proof (cases "element d (sf_SourceRef sf)")
    case None
    with 4 show ?thesis by (simp add: passedBy_def)
  next
    case (Some el)
    show ?thesis
    proof (cases "stopsAt el")
      case True
      with 4(4,5) Some have "sf_SourceRef sf = ''''" by (simp add: stopsAt_def)
      with Some 4(5) show ?thesis by simp
    next
      case False
      then have halts: "\<not> (GetType el = ElementTypeUserTask \<or> GetType el = ElementTypeStartEvent)"
        by (simp add: stopsAt_def)
      with 4(4) Some obtain v1 where v1: "prevDFS n d (sf_SourceRef sf) vis = Some ('''', v1)"
        and rest: "prevLoop n d sfs v1 = Some ('''', v)"
        by (auto split: option.splits if_splits)
      note a = 4(2) [OF Some halts v1 4(5)]
      have b: "set v1 \<subseteq> set v \<and> (\<forall>sf\<in>set sfs. passedBy d (set v) sf) \<and> cleared d (set v) (set v - set v1)"
        using 4(3) [OF Some halts v1 refl] rest 4(5) by simp
      have "cleared d (set v) (set v1 - set vis)" using a b cleared_mono by blast
      then have "cleared d (set v) (set v - set vis)"
        using b cleared_Un [of d "set v" "set v - set v1" "set v1 - set vis"] by (auto simp: cleared_def)
      moreover have "passedBy d (set v) sf" using Some False a b by (auto simp: passedBy_def)
      ultimately show ?thesis using a b by auto
    qed
  qed
qed auto

lemma cleared_no_back:
  assumes "cleared d V V" and "behind d x t" and "x \<in> V"
  shows False
  using assms(2,3)
proof induction
  case (back_here sf x el)
  then have "passedBy d V sf" using assms(1) unfolding cleared_def by blast
  then show ?case using back_here by (simp add: passedBy_def)
next
  case (back_step sf x el t)
  then have "passedBy d V sf" using assms(1) unfolding cleared_def by blast
  then show ?case using back_step by (simp add: passedBy_def)
qed

lemma findPreviousUserTask_iff:
  assumes "element d '''' = None"
  shows "findPreviousUserTask d x \<noteq> '''' \<longrightarrow> behind d x (findPreviousUserTask d x)"
    and "findPreviousUserTask d x = '''' \<longleftrightarrow> \<not> (\<exists>t. behind d x t)"
proof -
  obtain t v where dfs: "prevDFS (searchFuel d) d x [] = Some (t, v)"
    using prevDFS_total [of d x] by auto
  then have t: "findPreviousUserTask d x = t" by (simp add: findPreviousUserTask_def)
  show sound: "findPreviousUserTask d x \<noteq> '''' \<longrightarrow> behind d x (findPreviousUserTask d x)"
    using prev_sound(1) [OF dfs] t by simp
  have "\<not> behind d x s" if "t = ''''" for s
    using prev_complete(1) [of "searchFuel d" d x "[]" v] dfs that assms cleared_no_back by auto
  then show "findPreviousUserTask d x = '''' \<longleftrightarrow> \<not> (\<exists>t. behind d x t)"
    using sound t by blast
qed

end
