(* ===== verification/TaskContracts.thy ===== *)
theory TaskContracts imports Navigation Fresh Searches begin

text \<open>
  What the operations on tasks and instances promise: completing, terminating, suspending,
  claiming, multi-instance tasks, signs and rejections.
\<close>

section \<open>Completing, ending, claiming\<close>

text \<open>C14. Completing a task that is unknown, unclaimed, already completed or not a user task fails with
  that error and changes nothing.\<close>

theorem complete_task_guards:
  "(map_of (activities (st w)) i = None \<longrightarrow> CompleteTask E n i vs w = (Inl (NotFound i), w))
   \<and> (\<forall>a. map_of (activities (st w)) i = Some a \<longrightarrow>
      (ai_State a = ActivityUnclaimed \<longrightarrow> CompleteTask E n i vs w = (Inl (IsUnclaimed i), w))
    \<and> (ai_State a = ActivityCompleted \<longrightarrow> CompleteTask E n i vs w = (Inl (NotActive i), w))
    \<and> (ai_State a = ActivityActive \<and> ai_ActivityType a \<noteq> ElementTypeUserTask \<longrightarrow>
          CompleteTask E n i vs w = (Inl (NotUserTask i), w)))"
  by (intro conjI allI impI CompleteTask_guards) (simp_all add: completeError_def)

theorem complete_task_guards_witness:
  "CompleteTask demoEnv 9 ''a'' [] demoWorld = (Inl (NotActive ''a''), demoWorld)"
  using complete_task_guards [THEN conjunct2, of demoWorld "''a''" demoEnv 9 "[]"] by (simp add: demo_defs)

text \<open>C15. A task is completed at most once. Completing an active user task (whose lock is free) completes
  the activity at the time of the call, whatever happens behind it, and any later attempt to complete it
  is refused without effect.\<close>

theorem complete_task_once:
  assumes "wf w" and "map_of (activities (st w)) i = Some a"
    and "ai_State a = ActivityActive" "ai_ActivityType a = ElementTypeUserTask"
    and "lockFree E (ai_ProcessInstanceID a)"
    and w': "w' = snd (CompleteTask E n i vs w)"
  shows "map_of (activities (st w')) i = Some (a\<lparr>ai_State := ActivityCompleted,
      ai_CompletedTime := Some (clock E (ticks w)), ai_LockVersion := ai_LockVersion a + 1\<rparr>)
    \<and> CompleteTask E' n' i vs' w' = (Inl (NotActive i), w')"
proof -
  have "completeError i (Some a) = None" using assms(3,4) by (simp add: completeError_def)
  note closed = CompleteTask_completes(1) [OF assms(1,2) this assms(5), of n vs, folded w']
  then have "completeError i (map_of (activities (st w')) i) = Some (NotActive i)"
    by (simp add: completeError_def)
  then show ?thesis using closed by (simp add: CompleteTask_guards Complete_def)
qed

theorem complete_task_once_witness:
  "let w' = snd (CompleteTask demoEnv 20 ''b'' [] demoWorld)
   in CompleteTask demoEnv 20 ''b'' [(''x'', GBool True)] w' = (Inl (NotActive ''b''), w')"
  unfolding Let_def
  by (rule complete_task_once [OF demo_wf(1), of _ demoTask, THEN conjunct2, OF _ _ _ _ refl]) (simp_all add: demo_defs lockFree_def)



text \<open>C17. Suspending a running instance and resuming it gives back the world as it was.\<close>

theorem suspend_resume_roundtrip:
  assumes "wf w" and "map_of (instances (st w)) i = Some p" and "pi_State p = Running"
  shows "fst (SuspendProcessInstance i w) = Inr ()
    \<and> ResumeProcessInstance i (snd (SuspendProcessInstance i w)) = (Inr (), w)"
  using resume_suspended [OF assms] SuspendProcessInstance_value [OF assms(1,2)] assms(3) by simp

theorem suspend_resume_roundtrip_witness:
  "ResumeProcessInstance ''p'' (snd (SuspendProcessInstance ''p'' demoWorld)) = (Inr (), demoWorld)"
  using suspend_resume_roundtrip [OF demo_wf(1) demo_at_gateway(1,2)] by simp



text \<open>C19. Giving a task back opens it again: after a successful unclaim the task is unclaimed, nobody is
  its assignee, and exactly its candidates can claim it.\<close>

theorem unclaim_reopens:
  assumes "wf w" and a: "map_of (activities (st w)) i = Some a" "ai_ActivityType a = ElementTypeUserTask"
    and ok: "UnclaimTask i w = (Inr (), w')"
  shows "(\<exists>a'. map_of (activities (st w')) i = Some a' \<and> ai_State a' = ActivityUnclaimed \<and> ai_Assignee a' = '''')
    \<and> candidates w a \<noteq> [] \<and> (fst (ClaimTask E i u w') = Inr () \<longleftrightarrow> u \<in> set (candidates w a))"
proof -
  have id: "ai_ID a = i" using wf_act [OF assms(1,2)] by simp
  have state: "ai_State a = ActivityActive" "candidates w a \<noteq> []" and w': "w' = putActivity (unclaimed a) w"
    using ok by (auto simp: UnclaimTask_value [OF assms(1,2)] split: if_splits)
  let ?a = "(unclaimed a)\<lparr>ai_LockVersion := ai_LockVersion a + 1\<rparr>"
  have stored: "map_of (activities (st w')) i = Some ?a" using id by (simp add: w')
  have "actOK (unclaimed a)" using wf_act [OF assms(1,2)] state by (simp add: actOK_def unclaimed_def)
  then have "wf w'" unfolding w' using assms(1,2) id by (intro wf_putActivity [where i = i and a = a]) simp_all
  moreover have "candidates w' ?a = candidates w a" by (simp add: candidates_def w')
  ultimately have "fst (ClaimTask E i u w') = Inr () \<longleftrightarrow> u \<in> set (candidates w a)"
    using ClaimTask_value [OF _ stored] state a(2) by simp
  then show ?thesis using stored state by auto
qed

theorem unclaim_reopens_witness:
  "let w = snd (ClaimTask demoEnv ''c'' ''ann'' sampleWorld); w' = snd (UnclaimTask ''c'' w)
   in fst (ClaimTask demoEnv ''c'' ''bob'' w') = Inr () \<and> fst (ClaimTask demoEnv ''c'' ''eve'' w') \<noteq> Inr ()"
proof -
  define w where "w = putActivity (claimed ''ann'' (2 ^ 60 + 7) openTask) (ticked sampleWorld)"
  let ?a = "claimed ''ann'' (2 ^ 60 + 7) openTask\<lparr>ai_LockVersion := 1\<rparr>"
  have a: "map_of (activities (st sampleWorld)) ''c'' = Some openTask" by (simp add: sample_defs)
  have cands: "candidates sampleWorld openTask = [''ann'', ''bob'']"
    by (simp add: sample_defs candidates_def instanceVars_def candidatesOf_def)
  have claim: "ClaimTask demoEnv ''c'' ''ann'' sampleWorld = (Inr (), w)"
    using ClaimTask_value [OF sample_wf a, of demoEnv "''ann''"] cands by (simp add: sample_defs w_def)
  have wf: "wf w" unfolding w_def
    by (rule wf_putActivity [where i = "''c''" and a = openTask])
       (simp_all add: sample_wf a claimed_def actOK_def openTask_def NewActivityInstance_def)
  have stored: "map_of (activities (st w)) ''c'' = Some ?a" by (simp add: w_def openTask_def NewActivityInstance_def claimed_def)
  have "candidates w ?a = [''ann'', ''bob'']" using cands by (simp add: candidates_def w_def)
  then have "UnclaimTask ''c'' w = (Inr (), snd (UnclaimTask ''c'' w))"
    using UnclaimTask_value [OF wf stored] by simp
  from unclaim_reopens [OF wf stored _ this] \<open>candidates w ?a = _\<close>
  show ?thesis by (simp add: claim claimed_def openTask_def NewActivityInstance_def)
qed

text \<open>C20. A multi-instance task starts all its instances. When the loop is parallel and its count evaluates
  to \<open>n > 0\<close>, starting it succeeds (as long as the clock and the counter of identifiers are in range);
  it adds exactly \<open>n\<close> active tasks, numbered from 0 in one loop, and \<open>n\<close> tokens at the element, and
  removes nothing.\<close>

theorem multi_instance_starts_all:
  assumes "saneClock E" "ready (Suc (nat n * 2)) w"
    and "ut_LoopCharacteristics ut = Some lc" "\<not> lc_IsSequential lc"
    and "resolveLoopCount E lc (instanceVars (st w) (pi_ID p)) = Inr n" "0 < n"
  shows "\<exists>w' loopID as ts. handleMultiInstanceTask E nav flow d p ut w = (Inr (), w')
     \<and> activities (st w') = activities (st w) @ as \<and> tokens (st w') = tokens (st w) @ ts
     \<and> list_all2 (loopActivity p ut loopID) (map int [0..<nat n]) as
     \<and> length ts = nat n \<and> list_all (tokenAt (pi_ID p) (ut_ID ut)) ts"
  using handleMultiInstanceTask_succeeds [OF assms(1,3-6,2)] handleMultiInstanceTask_parallel [OF assms(3-6)]
  by blast

lemma toCome_long: "toCome c x \<Longrightarrow> 16 \<le> length x"
proof (unfold toCome_def, elim exE conjE)
  fix ts d assume ts: "2 ^ 60 \<le> ts" "ts < 2 ^ 63" and x: "x = newIDString ts d"
  have "length (hexDigits ts) = Suc 15" using ts by (intro length_hexDigits) auto
  then show "16 \<le> length x" using ts by (simp add: x newIDString_def fmtHex_def)
qed

lemma samples_ready: "n < 1000 \<Longrightarrow> ready n sampleWorld" "n < 1000 \<Longrightarrow> ready n demoWorld" "saneClock demoEnv"
proof -
  have short: "\<not> toCome c [x]" for c x using toCome_long [of c "[x]"] by auto
  show "n < 1000 \<Longrightarrow> ready n sampleWorld" "n < 1000 \<Longrightarrow> ready n demoWorld"
    by (auto simp: ready_def keys_def sample_defs demo_defs short split: if_splits)
  show "saneClock demoEnv" by (simp add: saneClock_def demoEnv_def)
qed

theorem multi_instance_starts_all_witness:
  "\<exists>w' loopID as ts. handleMultiInstanceTask demoEnv (\<lambda>_ _. returnM ()) (\<lambda>_ _ _. returnM ()) sampleDef sampleInst (sampleTask ''w'' (Some pairLoop)) sampleWorld
        = (Inr (), w')
     \<and> activities (st w') = activities (st sampleWorld) @ as \<and> tokens (st w') = tokens (st sampleWorld) @ ts
     \<and> list_all2 (loopActivity sampleInst (sampleTask ''w'' (Some pairLoop)) loopID) (map int [0..<nat 2]) as
     \<and> length ts = nat 2 \<and> list_all (tokenAt (pi_ID sampleInst) (ut_ID (sampleTask ''w'' (Some pairLoop)))) ts"
proof (rule multi_instance_starts_all [OF samples_ready(3)])
  show "ready (Suc (nat 2 * 2)) sampleWorld" by (rule samples_ready) simp
  show "resolveLoopCount demoEnv pairLoop (instanceVars (st sampleWorld) (pi_ID sampleInst)) = Inr 2" by code_simp
qed (simp_all add: sampleTask_def pairLoop_def)







text \<open>C24. Rejecting to the previous task goes to a task before this one. The target is a user task or start
  event from which the flows lead to the task without passing another one, and the rejection is refused
  exactly when there is none; the search ends on every definition, with cycles or without.\<close>

theorem previous_task_found:
  assumes "element d '''' = None"
  shows "case rejectTarget d x RejectPrevious node of
     Inr t \<Rightarrow> behind d x t | Inl e \<Rightarrow> e = NoPreviousTask x \<and> \<not> (\<exists>t. behind d x t)"
  using findPreviousUserTask_iff [OF assms, of x] by (simp add: rejectTarget_def Let_def)

theorem previous_task_found_witness:
  "behind demoDef ''t'' ''s''"
proof -
  have "rejectTarget demoDef ''t'' RejectPrevious [] = Inr ''s''" by code_simp
  then show ?thesis using previous_task_found [of demoDef "''t''" "[]"] by (simp add: demo_defs element_def)
qed

end
