(* ===== verification/Lock.thy ===== *)
theory Lock imports Prelude begin

text \<open>
  The in-process locker of lock/memory.go: goroutines that call \<open>Lock\<close>, \<open>TryLock\<close>, \<open>LockWithTTL\<close>
  and \<open>Unlock\<close> on one \<open>MemoryLocker\<close>, in every interleaving of their atomic steps. A step is what
  happens between two operations on the mutexes and channels; the short sections under \<open>l.mu\<close> are
  one step each.
\<close>

section \<open>The state\<close>

text \<open>
  A call of \<open>Lock\<close> runs in up to three goroutines: the caller, which waits in the first
  \<open>select\<close>; the helper, which blocks in \<open>mu.Lock()\<close>; and, after a cancellation, the cleaner,
  which looks once for a lock that came too late. \<open>lk_locked\<close> is the buffered channel between them.
\<close>

datatype callerPC = Selecting | Received | Returned bool
datatype helperPC = Locking | Sending | Finished
datatype cleanerPC = NotStarted | Looking | Releasing | Ended

record lockCall =
  lk_key :: string
  lk_caller :: callerPC
  lk_helper :: helperPC
  lk_locked :: bool
  lk_cleaner :: cleanerPC
  lk_ttl :: bool

datatype tryPC = Trying | Checking | TryReturned bool
datatype unlockPC = Entering | Unlocking | UnlockReturned bool

datatype thread = LockThread lockCall | TryThread string tryPC | UnlockThread string unlockPC

text \<open>
  The mutexes of \<open>locks\<close> by key, with \<open>True\<close> for a locked one; \<open>fatal\<close> is the error that stops a
  Go program which unlocks a mutex that is not locked.
\<close>

record MemoryLocker =
  locks :: "bool gomap"
  holders :: "bool gomap"
  threads :: "thread list"
  fatal :: bool

definition NewMemoryLocker :: MemoryLocker where
  "NewMemoryLocker = \<lparr>locks = [], holders = [], threads = [], fatal = False\<rparr>"

definition getOrCreate :: "string \<Rightarrow> MemoryLocker \<Rightarrow> MemoryLocker" where
  "getOrCreate key l = (if map_of (locks l) key = None
     then l\<lparr>locks := AList.update key False (locks l)\<rparr> else l)"

definition isHeld :: "string \<Rightarrow> MemoryLocker \<Rightarrow> bool" where
  "isHeld key l \<longleftrightarrow> map_of (holders l) key = Some True"

text \<open>\<open>mu.Lock()\<close> and \<open>mu.Unlock()\<close> on the mutex of a key.\<close>

definition muLock :: "string \<Rightarrow> MemoryLocker \<Rightarrow> MemoryLocker option" where
  "muLock key l = (if map_of (locks l) key = Some False
     then Some (l\<lparr>locks := AList.update key True (locks l)\<rparr>) else None)"

definition muUnlock :: "string \<Rightarrow> MemoryLocker \<Rightarrow> MemoryLocker" where
  "muUnlock key l = (if map_of (locks l) key = Some True
     then l\<lparr>locks := AList.update key False (locks l)\<rparr> else l\<lparr>fatal := True\<rparr>)"

section \<open>The atomic steps of the operations\<close>

text \<open>\<open>Lock\<close> up to its \<open>select\<close>: the mutex exists and the helper is started.\<close>

definition startLock :: "string \<Rightarrow> bool \<Rightarrow> MemoryLocker \<Rightarrow> MemoryLocker" where
  "startLock key ttl l = (let l1 = getOrCreate key l in l1\<lparr>threads := threads l1 @ [LockThread
     \<lparr>lk_key = key, lk_caller = Selecting, lk_helper = Locking, lk_locked = False,
      lk_cleaner = NotStarted, lk_ttl = ttl\<rparr>]\<rparr>)"

text \<open>The helper: \<open>mu.Lock()\<close>, then the send, which the buffer of one never lets block.\<close>

definition helperLock :: "lockCall \<Rightarrow> MemoryLocker \<Rightarrow> (lockCall \<times> MemoryLocker) option" where
  "helperLock c l = (if lk_helper c = Locking
     then map_option (\<lambda>l'. (c\<lparr>lk_helper := Sending\<rparr>, l')) (muLock (lk_key c) l) else None)"

definition helperSend :: "lockCall \<Rightarrow> MemoryLocker \<Rightarrow> (lockCall \<times> MemoryLocker) option" where
  "helperSend c l = (if lk_helper c = Sending then Some (c\<lparr>lk_helper := Finished, lk_locked := True\<rparr>, l) else None)"

text \<open>The caller: the two branches of its \<open>select\<close>, and the entry in \<open>holders\<close>.\<close>

definition callerReceive :: "lockCall \<Rightarrow> MemoryLocker \<Rightarrow> (lockCall \<times> MemoryLocker) option" where
  "callerReceive c l = (if lk_caller c = Selecting \<and> lk_locked c
     then Some (c\<lparr>lk_caller := Received, lk_locked := False\<rparr>, l) else None)"

definition callerHold :: "lockCall \<Rightarrow> MemoryLocker \<Rightarrow> (lockCall \<times> MemoryLocker) option" where
  "callerHold c l = (if lk_caller c = Received
     then Some (c\<lparr>lk_caller := Returned True\<rparr>, l\<lparr>holders := AList.update (lk_key c) True (holders l)\<rparr>) else None)"

definition callerCancel :: "lockCall \<Rightarrow> MemoryLocker \<Rightarrow> (lockCall \<times> MemoryLocker) option" where
  "callerCancel c l = (if lk_caller c = Selecting
     then Some (c\<lparr>lk_caller := Returned False, lk_cleaner := Looking\<rparr>, l) else None)"

text \<open>The cleaner: \<open>select\<close> with a default, and the release of a lock that it found.\<close>

definition cleanerLook :: "lockCall \<Rightarrow> MemoryLocker \<Rightarrow> (lockCall \<times> MemoryLocker) option" where
  "cleanerLook c l = (if lk_cleaner c = Looking
     then Some (if lk_locked c then c\<lparr>lk_cleaner := Releasing, lk_locked := False\<rparr>
                else c\<lparr>lk_cleaner := Ended\<rparr>, l) else None)"

definition cleanerRelease :: "lockCall \<Rightarrow> MemoryLocker \<Rightarrow> (lockCall \<times> MemoryLocker) option" where
  "cleanerRelease c l = (if lk_cleaner c = Releasing
     then Some (c\<lparr>lk_cleaner := Ended\<rparr>, muUnlock (lk_key c) l) else None)"

text \<open>\<open>LockWithTTL\<close> after a successful \<open>Lock\<close>: when the time has passed, the key is unlocked.\<close>

definition ttlExpire :: "lockCall \<Rightarrow> MemoryLocker \<Rightarrow> (lockCall \<times> MemoryLocker) option" where
  "ttlExpire c l = (if lk_caller c = Returned True \<and> lk_ttl c
     then Some (c\<lparr>lk_ttl := False\<rparr>, l\<lparr>threads := threads l @ [UnlockThread (lk_key c) Entering]\<rparr>) else None)"

text \<open>\<open>TryLock\<close>: a failed attempt on the mutex ends it, a successful one is checked against \<open>holders\<close>.\<close>

definition startTryLock :: "string \<Rightarrow> MemoryLocker \<Rightarrow> MemoryLocker" where
  "startTryLock key l = (let l1 = getOrCreate key l in l1\<lparr>threads := threads l1 @ [TryThread key Trying]\<rparr>)"

definition tryMutex :: "string \<Rightarrow> MemoryLocker \<Rightarrow> tryPC \<times> MemoryLocker" where
  "tryMutex key l = (case muLock key l of None \<Rightarrow> (TryReturned False, l) | Some l' \<Rightarrow> (Checking, l'))"

definition tryHold :: "string \<Rightarrow> MemoryLocker \<Rightarrow> tryPC \<times> MemoryLocker" where
  "tryHold key l = (if isHeld key l then (TryReturned False, muUnlock key l)
     else (TryReturned True, l\<lparr>holders := AList.update key True (holders l)\<rparr>))"

text \<open>\<open>Unlock\<close>: the entry in \<open>holders\<close> goes first, the mutex after it.\<close>

definition startUnlock :: "string \<Rightarrow> MemoryLocker \<Rightarrow> MemoryLocker" where
  "startUnlock key l = l\<lparr>threads := threads l @ [UnlockThread key Entering]\<rparr>"

definition unlockEntry :: "string \<Rightarrow> MemoryLocker \<Rightarrow> unlockPC \<times> MemoryLocker" where
  "unlockEntry key l = (if isHeld key l then (Unlocking, l\<lparr>holders := AList.delete key (holders l)\<rparr>)
     else (UnlockReturned False, l))"

section \<open>Interleaving\<close>

text \<open>What can be seen from outside: a caller now has the lock, or the lock was given up.\<close>

datatype lockEvent = Acquire string | Release string | Silent

definition putThread :: "nat \<Rightarrow> thread \<Rightarrow> MemoryLocker \<Rightarrow> MemoryLocker" where
  "putThread i t l = l\<lparr>threads := (threads l)[i := t]\<rparr>"

abbreviation runs :: "MemoryLocker \<Rightarrow> nat \<Rightarrow> thread \<Rightarrow> bool" where
  "runs l i t \<equiv> i < length (threads l) \<and> threads l ! i = t"

definition silentSteps :: "(lockCall \<Rightarrow> MemoryLocker \<Rightarrow> (lockCall \<times> MemoryLocker) option) set" where
  "silentSteps = {helperLock, helperSend, callerReceive, callerCancel, cleanerLook, cleanerRelease, ttlExpire}"

inductive lstep :: "MemoryLocker \<Rightarrow> lockEvent \<Rightarrow> MemoryLocker \<Rightarrow> bool" where
  call_lock: "lstep l Silent (startLock key ttl l)"
| call_try: "lstep l Silent (startTryLock key l)"
| call_unlock: "lstep l Silent (startUnlock key l)"
| lock_step: "runs l i (LockThread c) \<Longrightarrow> f \<in> silentSteps \<Longrightarrow> f c l = Some (c', l') \<Longrightarrow>
    lstep l Silent (putThread i (LockThread c') l')"
| lock_hold: "runs l i (LockThread c) \<Longrightarrow> callerHold c l = Some (c', l') \<Longrightarrow>
    lstep l (Acquire (lk_key c)) (putThread i (LockThread c') l')"
| try_mutex: "runs l i (TryThread key Trying) \<Longrightarrow> tryMutex key l = (pc, l') \<Longrightarrow>
    lstep l Silent (putThread i (TryThread key pc) l')"
| try_spurious: "runs l i (TryThread key Trying) \<Longrightarrow>
    lstep l Silent (putThread i (TryThread key (TryReturned False)) l)"
| try_hold: "runs l i (TryThread key Checking) \<Longrightarrow> tryHold key l = (pc, l') \<Longrightarrow>
    lstep l (if pc = TryReturned True then Acquire key else Silent) (putThread i (TryThread key pc) l')"
| unlock_entry: "runs l i (UnlockThread key Entering) \<Longrightarrow> unlockEntry key l = (pc, l') \<Longrightarrow>
    lstep l (if pc = Unlocking then Release key else Silent) (putThread i (UnlockThread key pc) l')"
| unlock_mutex: "runs l i (UnlockThread key Unlocking) \<Longrightarrow>
    lstep l Silent (putThread i (UnlockThread key (UnlockReturned True)) (muUnlock key l))"

text \<open>Runs with their events.\<close>

inductive lrun :: "MemoryLocker \<Rightarrow> lockEvent list \<Rightarrow> MemoryLocker \<Rightarrow> bool" where
  lrun_refl: "lrun l [] l"
| lrun_step: "lrun l es l' \<Longrightarrow> lstep l' e l'' \<Longrightarrow> lrun l (es @ [e]) l''"

section \<open>Who has a claim on a mutex\<close>

text \<open>
  A locked mutex has exactly one owner: a helper about to send, a message in a channel, a caller
  about to enter the key in \<open>holders\<close>, a cleaner or an \<open>Unlock\<close> about to release, a \<open>TryLock\<close>
  between its two looks, or the entry in \<open>holders\<close>.
\<close>

fun claim :: "string \<Rightarrow> thread \<Rightarrow> nat" where
  "claim k (LockThread c) = (if lk_key c = k then of_bool (lk_helper c = Sending) + of_bool (lk_locked c)
     + of_bool (lk_caller c = Received) + of_bool (lk_cleaner c = Releasing) else 0)"
| "claim k (TryThread key pc) = of_bool (key = k \<and> pc = Checking)"
| "claim k (UnlockThread key pc) = of_bool (key = k \<and> pc = Unlocking)"

definition claims :: "string \<Rightarrow> MemoryLocker \<Rightarrow> nat" where
  "claims k l = sum_list (map (claim k) (threads l)) + of_bool (isHeld k l)"

definition isLocked :: "string \<Rightarrow> MemoryLocker \<Rightarrow> bool" where
  "isLocked k l \<longleftrightarrow> map_of (locks l) k = Some True"

fun threadOK :: "thread \<Rightarrow> bool" where
  "threadOK (LockThread c) = (lk_cleaner c = NotStarted \<or> lk_caller c = Returned False)"
| "threadOK _ = True"

definition lockInv :: "MemoryLocker \<Rightarrow> bool" where
  "lockInv l \<longleftrightarrow> \<not> fatal l \<and> list_all threadOK (threads l) \<and> (\<forall>k. claims k l = of_bool (isLocked k l))"

lemma sum_list_put:
  fixes f :: "'a \<Rightarrow> nat"
  shows "i < length xs \<Longrightarrow> sum_list (map f (xs[i := y])) + f (xs ! i) = sum_list (map f xs) + f y"
proof (induction xs arbitrary: i)
  case (Cons x xs)
  then show ?case by (cases i) auto
qed simp

lemma claims_put:
  assumes "runs l i t" and "threads l' = threads l @ ts" and "sum_list (map (claim k) ts) = 0"
  shows "claims k (putThread i t' l') + claim k t + of_bool (isHeld k l) = claims k l + claim k t' + of_bool (isHeld k l')"
proof -
  have "i < length (threads l')" "threads l' ! i = t" using assms(1,2) by (auto simp: nth_append)
  then have "sum_list (map (claim k) ((threads l')[i := t'])) + claim k t = sum_list (map (claim k) (threads l')) + claim k t'"
    using sum_list_put by metis
  moreover have "isHeld k (putThread i t' l') = isHeld k l'" by (simp add: isHeld_def putThread_def)
  ultimately show ?thesis using assms(2,3) by (simp add: claims_def putThread_def)
qed

lemma claim_le: "runs l i t \<Longrightarrow> claim k t + of_bool (isHeld k l) \<le> claims k l"
  using sum_list_put [of i "threads l" "claim k" "UnlockThread [] Entering"] by (auto simp: claims_def)

lemma putHelper_simps [simp]:
  "fatal (putThread i t l) = fatal l" "locks (putThread i t l) = locks l" "isLocked k (putThread i t l) = isLocked k l"
  by (simp_all add: putThread_def isLocked_def)

text \<open>
  A step of one thread keeps the invariant when the change of its claims, and of \<open>holders\<close>,
  matches the change of the mutexes.
\<close>

lemma lockInv_put:
  assumes inv: "lockInv l" and t: "runs l i t" and "threads l' = threads l @ ts" "\<And>k. sum_list (map (claim k) ts) = 0"
    and "\<not> fatal l'" "threadOK t'" "list_all threadOK ts"
    and "\<And>k. of_bool (isLocked k l) + claim k t' + of_bool (isHeld k l')
           = of_bool (isLocked k l') + claim k t + (of_bool (isHeld k l) :: nat)"
  shows "lockInv (putThread i t' l')"
  unfolding lockInv_def
proof (intro conjI allI)
  fix k
  have "claims k l = of_bool (isLocked k l)" using inv by (simp add: lockInv_def)
  then show "claims k (putThread i t' l') = of_bool (isLocked k (putThread i t' l'))"
    using claims_put [OF t assms(3,4), where t' = t' and k = k] assms(8) [of k] by simp
  have "list_all threadOK (threads l)" using inv by (simp add: lockInv_def)
  then show "list_all threadOK (threads (putThread i t' l'))"
    using assms(3,6,7) by (auto simp: putThread_def list_all_iff dest!: subsetD [OF set_update_subset_insert])
qed (use assms(5) in simp)

text \<open>Who has a claim finds the mutex locked.\<close>

lemma claim_locked:
  assumes "lockInv l" and "runs l i t" and "0 < claim k t"
  shows "isLocked k l \<and> claim k t = 1 \<and> \<not> isHeld k l"
  using claim_le [OF assms(2), of k] assms(1,3) by (cases "isLocked k l"; cases "isHeld k l") (auto simp: lockInv_def)

lemma held_locked:
  assumes "lockInv l" and "isHeld k l"
  shows "isLocked k l"
  using assms by (cases "isLocked k l") (auto simp: lockInv_def claims_def dest!: spec [of _ k])

lemma muLock_Some: "muLock key l = Some l' \<longleftrightarrow> map_of (locks l) key = Some False \<and> l' = l\<lparr>locks := AList.update key True (locks l)\<rparr>"
  by (auto simp: muLock_def)

lemma muUnlock_locked: "isLocked key l \<Longrightarrow> muUnlock key l = l\<lparr>locks := AList.update key False (locks l)\<rparr>"
  by (simp add: muUnlock_def isLocked_def)

lemma isHeld_simps [simp]:
  "isHeld k (l\<lparr>locks := m\<rparr>) = isHeld k l" "isHeld k (l\<lparr>threads := ts\<rparr>) = isHeld k l"
  "isHeld k (l\<lparr>holders := AList.update j True (holders l)\<rparr>) = (k = j \<or> isHeld k l)"
  "isHeld k (l\<lparr>holders := AList.delete j (holders l)\<rparr>) = (k \<noteq> j \<and> isHeld k l)"
  "isLocked k (l\<lparr>locks := AList.update j b m\<rparr>) = (if k = j then b else map_of m k = Some True)"
  "isLocked k (l\<lparr>threads := ts\<rparr>) = isLocked k l" "isLocked k (l\<lparr>holders := h\<rparr>) = isLocked k l"
  by (auto simp: isHeld_def isLocked_def)

lemma lockInv_spawn:
  assumes "lockInv l" and "threads l' = threads l @ [t]" "\<And>k. claim k t = 0" "threadOK t" "holders l' = holders l"
    "fatal l' = fatal l" "\<And>k. isLocked k l' = isLocked k l"
  shows "lockInv l'"
  using assms by (simp add: lockInv_def claims_def isHeld_def)

lemma lockInv_lock_step:
  assumes inv: "lockInv l" and t: "runs l i (LockThread c)" and f: "f \<in> silentSteps \<or> f = callerHold" "f c l = Some (c', l')"
  shows "lockInv (putThread i (LockThread c') l')"
proof -
  have ok: "\<not> fatal l" "lk_cleaner c = NotStarted \<or> lk_caller c = Returned False"
    using inv t by (auto simp: lockInv_def list_all_length)
  note claim = claim_locked [OF inv t, of "lk_key c"]
  show ?thesis
    using f(1) unfolding silentSteps_def
  proof (elim disjE insertE emptyE)
    assume "f = helperLock"
    then show ?thesis using f(2) ok
      by (auto simp: helperLock_def muLock_Some split: if_splits intro!: lockInv_put [OF inv t, where ts = "[]"])
         (auto simp: isLocked_def)
  next
    assume f': "f = helperSend"
    with f(2) claim have "\<not> lk_locked c" by (auto simp: helperSend_def split: if_splits)
    with f' show ?thesis using f(2) ok
      by (auto simp: helperSend_def split: if_splits intro!: lockInv_put [OF inv t, where ts = "[]"])
  next
    assume "f = callerReceive"
    then show ?thesis using f(2) ok
      by (auto simp: callerReceive_def split: if_splits intro!: lockInv_put [OF inv t, where ts = "[]"])
  next
    assume "f = callerCancel"
    then show ?thesis using f(2) ok claim
      by (auto simp: callerCancel_def split: if_splits intro!: lockInv_put [OF inv t, where ts = "[]"])
  next
    assume "f = cleanerLook"
    then show ?thesis using f(2) ok
      by (auto simp: cleanerLook_def split: if_splits intro!: lockInv_put [OF inv t, where ts = "[]"])
  next
    assume f': "f = cleanerRelease"
    with f(2) claim have "isLocked (lk_key c) l" by (auto simp: cleanerRelease_def split: if_splits)
    with f' show ?thesis using f(2) ok
      by (auto simp: cleanerRelease_def muUnlock_locked split: if_splits intro!: lockInv_put [OF inv t, where ts = "[]"])
         (auto simp: isLocked_def)
  next
    assume "f = ttlExpire"
    then show ?thesis using f(2) ok
      by (auto simp: ttlExpire_def split: if_splits intro!: lockInv_put [OF inv t])
  next
    assume f': "f = callerHold"
    with f(2) claim have "\<not> isHeld (lk_key c) l" by (auto simp: callerHold_def split: if_splits)
    with f' show ?thesis using f(2) ok
      by (auto simp: callerHold_def split: if_splits intro!: lockInv_put [OF inv t, where ts = "[]"])
  qed
qed

lemma lockInv_step:
  assumes "lstep l e l'" and inv: "lockInv l"
  shows "lockInv l'"
proof -
  have ok: "\<not> fatal l" using inv by (simp add: lockInv_def)
  show ?thesis
    using assms(1)
  proof cases
    case (call_lock key ttl)
    then show ?thesis
      by (intro lockInv_spawn [OF inv])
         (auto simp: startLock_def getOrCreate_def Let_def isLocked_def)
  next
    case (call_try key)
    then show ?thesis
      by (intro lockInv_spawn [OF inv]) (auto simp: startTryLock_def getOrCreate_def Let_def isLocked_def)
  next
    case (call_unlock key)
    then show ?thesis by (intro lockInv_spawn [OF inv]) (auto simp: startUnlock_def)
  next
    case (lock_step i c f c' l1)
    then show ?thesis using lockInv_lock_step [OF inv] by blast
  next
    case (lock_hold i c c' l1)
    then show ?thesis using lockInv_lock_step [OF inv, where f = callerHold] by blast
  next
    case (try_mutex i key pc l1)
    then show ?thesis using ok
      by (auto simp: tryMutex_def muLock_Some split: option.splits intro!: lockInv_put [OF inv, where ts = "[]"])
         (auto simp: isLocked_def)
  next
    case (try_spurious i key)
    then show ?thesis using ok by (auto intro!: lockInv_put [OF inv, where ts = "[]"])
  next
    case (try_hold i key pc l1)
    then have "\<not> isHeld key l"
    using claim_locked [OF inv, where k = key and i = i and t = "TryThread key Checking"] by simp
    then show ?thesis using try_hold ok
      by (auto simp: tryHold_def intro!: lockInv_put [OF inv, where ts = "[]"])
  next
    case (unlock_entry i key pc l1)
    then show ?thesis using ok
      by (auto simp: unlockEntry_def split: if_splits intro!: lockInv_put [OF inv, where ts = "[]"])
  next
    case (unlock_mutex i key)
    then have "isLocked key l"
      using claim_locked [OF inv, where k = key and i = i and t = "UnlockThread key Unlocking"] by simp
    then show ?thesis using unlock_mutex ok
      by (auto simp: muUnlock_locked intro!: lockInv_put [OF inv, where ts = "[]"]) (auto simp: isLocked_def)
  qed
qed

lemma lockInv_run: "lrun l es l' \<Longrightarrow> lockInv l \<Longrightarrow> lockInv l'"
  by (induction rule: lrun.induct) (auto intro: lockInv_step)

lemma lockInv_new: "lockInv NewMemoryLocker"
  by (simp add: lockInv_def NewMemoryLocker_def claims_def isHeld_def isLocked_def)

section \<open>Mutual exclusion\<close>

lemma isHeld_put [simp]: "isHeld k (putThread i t l) = isHeld k l"
  by (simp add: putThread_def)

lemma isHeld_muUnlock [simp]: "isHeld k (muUnlock key l) = isHeld k l"
  by (auto simp: muUnlock_def isHeld_def)

lemma isHeld_silent: "f \<in> silentSteps \<Longrightarrow> f c l = Some (c', l') \<Longrightarrow> isHeld k l' = isHeld k l"
  by (auto simp: silentSteps_def helperLock_def helperSend_def callerReceive_def callerCancel_def cleanerLook_def
      cleanerRelease_def ttlExpire_def muLock_Some split: if_splits)

lemma isHeld_start [simp]:
  "isHeld k (startLock key ttl l) = isHeld k l" "isHeld k (startTryLock key l) = isHeld k l"
  "isHeld k (startUnlock key l) = isHeld k l"
  by (simp_all add: isHeld_def startLock_def startTryLock_def startUnlock_def getOrCreate_def Let_def)

text \<open>How the events change who holds a key.\<close>

lemma lstep_held:
  assumes "lstep l e l'" and inv: "lockInv l"
  shows "(e = Acquire k \<longrightarrow> \<not> isHeld k l \<and> isHeld k l') \<and> (e = Release k \<longrightarrow> isHeld k l \<and> \<not> isHeld k l')
    \<and> (e \<noteq> Acquire k \<and> e \<noteq> Release k \<longrightarrow> isHeld k l' = isHeld k l)"
  using assms(1)
proof cases
  case (lock_step i c f c' l1)
  then show ?thesis using isHeld_silent by auto
next
  case (lock_hold i c c' l1)
  then have "\<not> isHeld (lk_key c) l"
    using claim_locked [OF inv lock_hold(3), of "lk_key c"] by (auto simp: callerHold_def split: if_splits)
  then show ?thesis using lock_hold by (auto simp: callerHold_def split: if_splits)
next
  case (try_hold i key pc l1)
  then have "\<not> isHeld key l"
    using claim_locked [OF inv, where k = key and i = i and t = "TryThread key Checking"] by simp
  then show ?thesis using try_hold by (auto simp: tryHold_def)
qed (auto simp: tryMutex_def muLock_Some unlockEntry_def split: option.splits if_splits)

definition eventsOf :: "string \<Rightarrow> lockEvent list \<Rightarrow> lockEvent list" where
  "eventsOf k es = filter (\<lambda>e. e = Acquire k \<or> e = Release k) es"

lemma concat_replicate_Suc: "concat (replicate (Suc n) xs) = concat (replicate n xs) @ xs"
  by (induction n) auto

lemma lrun_alternates:
  assumes "lrun l es l'" and "lockInv l" and "\<not> isHeld k l"
  shows "\<exists>n. eventsOf k es = concat (replicate n [Acquire k, Release k]) @ (if isHeld k l' then [Acquire k] else [])"
  using assms
proof induction
  case (lrun_refl l)
  then show ?case by (intro exI [of _ 0]) (simp add: eventsOf_def)
next
  case (lrun_step l es l' e l'')
  then obtain n where n: "eventsOf k es = concat (replicate n [Acquire k, Release k]) @ (if isHeld k l' then [Acquire k] else [])"
    by blast
  have inv: "lockInv l'" using lockInv_run lrun_step by blast
  note held = lstep_held [OF lrun_step(2) inv, of k]
  show ?case
  proof (cases "e = Release k")
    case True
    then show ?thesis using n held
      by (intro exI [of _ "Suc n"]) (simp add: eventsOf_def concat_replicate_Suc del: replicate_Suc)
  next
    case False
    then show ?thesis using n held by (intro exI [of _ n]) (auto simp: eventsOf_def)
  qed
qed

section \<open>Properties\<close>

text \<open>C38. The memory locker excludes. In every interleaving of any calls of \<open>Lock\<close>, \<open>TryLock\<close>,
  \<open>LockWithTTL\<close> and \<open>Unlock\<close>, with cancellations at any time, successful acquisitions and releases of a key
  alternate, starting with an acquisition; and no mutex is ever unlocked that is not locked.\<close>

theorem locker_mutual_exclusion:
  assumes "lrun NewMemoryLocker es l"
  shows "(\<exists>n. eventsOf k es = concat (replicate n [Acquire k, Release k]) @ (if isHeld k l then [Acquire k] else []))
    \<and> \<not> fatal l"
proof -
  have "\<not> isHeld k NewMemoryLocker" by (simp add: isHeld_def NewMemoryLocker_def)
  moreover have "lockInv l" using lockInv_run [OF assms lockInv_new] .
  ultimately show ?thesis using lrun_alternates [OF assms lockInv_new] by (simp add: lockInv_def)
qed

lemma lrun_one: "lstep l e l' \<Longrightarrow> lrun l [e] l'"
  using lrun_step [OF lrun_refl] by fastforce

lemma lrun_more: "lrun l es l' \<Longrightarrow> lstep l' e l'' \<Longrightarrow> es' = es @ [e] \<Longrightarrow> lrun l es' l''"
  using lrun_step by blast

theorem locker_mutual_exclusion_witness:
  "\<exists>n. eventsOf ''k'' [Silent] = concat (replicate n [Acquire ''k'', Release ''k'']) @ []"
  using locker_mutual_exclusion [OF lrun_one [OF call_lock [of NewMemoryLocker "''k''" False]], of "''k''"]
  by (auto simp: isHeld_def NewMemoryLocker_def startLock_def getOrCreate_def)

text \<open>C39. A waiting call of \<open>Lock\<close> can go on when the mutex of its key is free: four steps of its own
  goroutines bring it to its successful return, with the key held.\<close>

theorem waiting_lock_proceeds:
  assumes t: "i < length (threads l)" "threads l ! i = LockThread c"
    and c: "lk_caller c = Selecting" "lk_helper c = Locking" and free: "map_of (locks l) (lk_key c) = Some False"
  shows "\<exists>l' c'. lrun l [Silent, Silent, Silent, Acquire (lk_key c)] l' \<and> i < length (threads l')
    \<and> threads l' ! i = LockThread c' \<and> lk_caller c' = Returned True \<and> isHeld (lk_key c) l'"
proof -
  define l1 where "l1 = putThread i (LockThread (c\<lparr>lk_helper := Sending\<rparr>)) (l\<lparr>locks := AList.update (lk_key c) True (locks l)\<rparr>)"
  define l2 where "l2 = putThread i (LockThread (c\<lparr>lk_helper := Finished, lk_locked := True\<rparr>)) l1"
  define l3 where "l3 = putThread i (LockThread (c\<lparr>lk_helper := Finished, lk_locked := False, lk_caller := Received\<rparr>)) l2"
  define l4 where "l4 = putThread i (LockThread (c\<lparr>lk_helper := Finished, lk_locked := False, lk_caller := Returned True\<rparr>))
    (l3\<lparr>holders := AList.update (lk_key c) True (holders l3)\<rparr>)"
  have s1: "lstep l Silent l1"
    unfolding l1_def using t c free by (intro lock_step [where f = helperLock and c = c]) (auto simp: silentSteps_def helperLock_def muLock_def)
  have s2: "lstep l1 Silent l2"
    unfolding l2_def using t by (intro lock_step [where f = helperSend and c = "c\<lparr>lk_helper := Sending\<rparr>"])
      (auto simp: silentSteps_def helperSend_def l1_def putThread_def)
  have s3: "lstep l2 Silent l3"
    unfolding l3_def using t c by (intro lock_step [where f = callerReceive and c = "c\<lparr>lk_helper := Finished, lk_locked := True\<rparr>"])
      (auto simp: silentSteps_def callerReceive_def l1_def l2_def putThread_def)
  have s4: "lstep l3 (Acquire (lk_key (c\<lparr>lk_helper := Finished, lk_locked := False, lk_caller := Received\<rparr>))) l4"
    unfolding l4_def using t by (intro lock_hold) (auto simp: callerHold_def l1_def l2_def l3_def putThread_def)
  have "lrun l [Silent, Silent, Silent, Acquire (lk_key c)] l4"
    using lrun_more [OF lrun_more [OF lrun_more [OF lrun_one [OF s1] s2 refl] s3 refl] s4 refl] by simp
  then show ?thesis
    using t by (intro exI [of _ l4] exI) (auto simp: l4_def l3_def l2_def l1_def putThread_def isHeld_def)
qed

theorem waiting_lock_proceeds_witness:
  "\<exists>l' c'. lrun (startLock ''k'' False NewMemoryLocker) [Silent, Silent, Silent, Acquire ''k''] l' \<and> 0 < length (threads l')
    \<and> threads l' ! 0 = LockThread c' \<and> lk_caller c' = Returned True \<and> isHeld ''k'' l'"
  using waiting_lock_proceeds [of 0 "startLock ''k'' False NewMemoryLocker"]
  by (simp add: startLock_def getOrCreate_def NewMemoryLocker_def)

text \<open>A call of \<open>Lock\<close> that was cancelled, whose cleaner has come and gone, and whose helper got the mutex.\<close>

definition abandoned :: "string \<Rightarrow> MemoryLocker \<Rightarrow> bool" where
  "abandoned k l \<longleftrightarrow> (\<exists>c. LockThread c \<in> set (threads l) \<and> lk_key c = k \<and> lk_caller c = Returned False
     \<and> lk_cleaner c = Ended \<and> (lk_helper c = Sending \<or> lk_locked c))"

lemma abandoned_step:
  assumes "lstep l e l'" and inv: "lockInv l" and "abandoned k l"
  shows "abandoned k l'"
proof -
  obtain i c where i: "i < length (threads l)" "threads l ! i = LockThread c" and c: "lk_key c = k"
      "lk_caller c = Returned False" "lk_cleaner c = Ended" "lk_helper c = Sending \<or> lk_locked c"
    using assms(3) unfolding abandoned_def by (metis in_set_conv_nth)
  have locked: "isLocked k l"
    using claim_locked [OF inv, of i "LockThread c" k] i c by auto
  have stays: "abandoned k (putThread j t l1)"
    if "threads l1 = threads l @ ts" "j = i \<longrightarrow> abandoned k (l1\<lparr>threads := [t]\<rparr>)" for j t l1 ts
  proof (cases "j = i")
    case True
    have "t \<in> set (threads (putThread j t l1))"
      using True that(1) i(1) by (auto simp: putThread_def intro!: set_update_memI)
    then show ?thesis using True that(2) by (auto simp: abandoned_def)
  next
    case False
    have "threads (putThread j t l1) ! i = LockThread c" "i < length (threads (putThread j t l1))"
      using False that(1) i by (auto simp: putThread_def nth_append)
    then show ?thesis using c unfolding abandoned_def by (metis nth_mem)
  qed
  have kept: "abandoned k l1" if "threads l1 = threads l @ ts" for l1 ts
    using assms(3) that by (auto simp: abandoned_def)
  show ?thesis
    using assms(1)
  proof cases
    case (lock_step j c1 f c' l1)
    have ext: "\<exists>ts. threads l1 = threads l @ ts"
      using lock_step(4,5) by (auto simp: silentSteps_def helperLock_def helperSend_def callerReceive_def callerCancel_def
          cleanerLook_def cleanerRelease_def ttlExpire_def muLock_Some muUnlock_def split: if_splits)
    moreover have "j = i \<longrightarrow> abandoned k (l1\<lparr>threads := [LockThread c']\<rparr>)"
      using lock_step(3-5) i(2) c locked
      by (auto simp: abandoned_def silentSteps_def helperLock_def helperSend_def callerReceive_def callerCancel_def
          cleanerLook_def cleanerRelease_def ttlExpire_def muLock_Some isLocked_def split: if_splits)
    ultimately show ?thesis using lock_step(2) stays by blast
  next
    case (lock_hold j c1 c' l1)
    then have "j \<noteq> i" "threads l1 = threads l @ []" using i(2) c(2) by (auto simp: callerHold_def split: if_splits)
    then show ?thesis using lock_hold(2) stays by blast
  next
    case (try_mutex j key pc l1)
    then show ?thesis using i(2)
      by (auto simp: tryMutex_def muLock_Some split: option.splits intro!: stays [where ts = "[]"])
  next
    case (try_hold j key pc l1)
    then show ?thesis using i(2)
      by (auto simp: tryHold_def muUnlock_def split: if_splits intro!: stays [where ts = "[]"])
  next
    case (unlock_entry j key pc l1)
    then show ?thesis using i(2)
      by (auto simp: unlockEntry_def split: if_splits intro!: stays [where ts = "[]"])
  next
    case (unlock_mutex j key)
    then show ?thesis using i(2) by (auto simp: muUnlock_def intro!: stays [where ts = "[]"])
  next
    case (try_spurious j key)
    then show ?thesis using i(2) by (auto intro!: stays [where ts = "[]"])
  qed (auto intro!: kept simp: startLock_def startTryLock_def startUnlock_def getOrCreate_def Let_def)
qed

lemma abandoned_forever:
  assumes "lrun l es l'" and "lockInv l" and "abandoned k l"
  shows "abandoned k l' \<and> Acquire k \<notin> set es"
  using assms
proof induction
  case (lrun_step l es l' e l'')
  then have a: "abandoned k l'" and inv: "lockInv l'" using lockInv_run by blast+
  have a': "abandoned k l''" and inv': "lockInv l''"
    using abandoned_step [OF lrun_step(2) inv a] lockInv_step [OF lrun_step(2) inv] .
  obtain c i where "runs l'' i (LockThread c)" "0 < claim k (LockThread c)"
    using a' unfolding abandoned_def by (fastforce simp: in_set_conv_nth)
  then have "\<not> isHeld k l''" using claim_locked [OF inv'] by blast
  then show ?case using a' lrun_step lstep_held [OF lrun_step(2) inv, of k] by auto
qed simp

text \<open>No run from here acquires the key.\<close>

definition neverAcquired :: "string \<Rightarrow> MemoryLocker \<Rightarrow> bool" where
  "neverAcquired k l \<longleftrightarrow> (\<forall>es l'. lrun l es l' \<longrightarrow> Acquire k \<notin> set es)"

text \<open>C40. A cancelled call of \<open>Lock\<close> can take its key away for good: there is a run (the call, its
  cancellation, the cleaner that finds nothing, and only then the helper's \<open>mu.Lock()\<close>) after which nobody
  ever acquires the key again, although nobody holds it.\<close>

theorem cancelled_lock_leaks:
  "\<exists>es l. lrun NewMemoryLocker es l \<and> \<not> isHeld k l \<and> neverAcquired k l"
proof -
  let ?c = "\<lparr>lk_key = k, lk_caller = Selecting, lk_helper = Locking, lk_locked = False, lk_cleaner = NotStarted, lk_ttl = False\<rparr>"
  let ?l0 = "startLock k False NewMemoryLocker"
  define l1 where "l1 = putThread 0 (LockThread (?c\<lparr>lk_caller := Returned False, lk_cleaner := Looking\<rparr>)) ?l0"
  define l2 where "l2 = putThread 0 (LockThread (?c\<lparr>lk_caller := Returned False, lk_cleaner := Ended\<rparr>)) l1"
  define l3 where "l3 = putThread 0 (LockThread (?c\<lparr>lk_caller := Returned False, lk_cleaner := Ended, lk_helper := Sending\<rparr>))
    (l2\<lparr>locks := AList.update k True (locks l2)\<rparr>)"
  have s0: "lstep NewMemoryLocker Silent ?l0" by (rule call_lock)
  have start: "threads ?l0 = [LockThread ?c]" "map_of (locks ?l0) k = Some False" "holders ?l0 = []"
    by (simp_all add: startLock_def getOrCreate_def NewMemoryLocker_def)
  have s1: "lstep ?l0 Silent l1"
    unfolding l1_def using start by (intro lock_step [where f = callerCancel and c = ?c]) (auto simp: silentSteps_def callerCancel_def)
  have s2: "lstep l1 Silent l2"
    unfolding l2_def using start
    by (intro lock_step [where f = cleanerLook and c = "?c\<lparr>lk_caller := Returned False, lk_cleaner := Looking\<rparr>"])
       (auto simp: silentSteps_def cleanerLook_def l1_def putThread_def)
  have s3: "lstep l2 Silent l3"
    unfolding l3_def using start
    by (intro lock_step [where f = helperLock and c = "?c\<lparr>lk_caller := Returned False, lk_cleaner := Ended\<rparr>"])
       (auto simp: silentSteps_def helperLock_def muLock_def l2_def l1_def putThread_def)
  have run: "lrun NewMemoryLocker [Silent, Silent, Silent, Silent] l3"
    using lrun_more [OF lrun_more [OF lrun_more [OF lrun_one [OF s0] s1 refl] s2 refl] s3 refl] by simp
  have "abandoned k l3" "\<not> isHeld k l3"
    using start by (auto simp: abandoned_def l3_def l2_def l1_def putThread_def isHeld_def)
  then show ?thesis
    using run abandoned_forever lockInv_run [OF run lockInv_new] unfolding neverAcquired_def by blast
qed

end
