(* ===== verification/Sql.thy ===== *)
theory Sql imports MemStore "HOL-Library.Multiset" begin

text \<open>
  What the SQL stores use of \<open>encoding/json\<close>, \<open>database/sql\<close> and of the SQL language: documents,
  the statements and queries they send, and a database as a parameter. The database engines are
  not part of the repository. A \<open>Database\<close> is any implementation of the calls of
  \<open>database/sql\<close> the stores make; the locale \<open>sql_database\<close> states what the documentation of SQL promises
  of it, with a reference semantics of statements over tables. The last section gives a database that
  keeps the promises.
\<close>

section \<open>JSON documents\<close>

text \<open>
  \<open>json.Marshal\<close> of the values a process variable takes, up to the text of the document, and
  \<open>json.Unmarshal\<close> into an \<open>any\<close>: every number comes back as a \<open>float64\<close> and every array as a \<open>[]any\<close>.
  As for \<open>gval\<close>, numbers are taken where \<open>float64\<close> is exact.
\<close>

datatype json =
    JNull
  | JBool bool
  | JNumber rat
  | JString string
  | JArray "json list"
  | JObject "(string \<times> json) list"

fun toJson :: "gval \<Rightarrow> json" where
  "toJson GNil = JNull"
| "toJson (GBool b) = JBool b"
| "toJson (GFloat f) = JNumber f"
| "toJson (GInt i) = JNumber (of_int i)"
| "toJson (GInt64 i) = JNumber (of_int i)"
| "toJson (GString s) = JString s"
| "toJson (GStrings ss) = JArray (map JString ss)"
| "toJson (GList vs) = JArray (map toJson vs)"
| "toJson (GMap kvs) = JObject (map (\<lambda>(k, v). (k, toJson v)) kvs)"

fun fromJson :: "json \<Rightarrow> gval" where
  "fromJson JNull = GNil"
| "fromJson (JBool b) = GBool b"
| "fromJson (JNumber f) = GFloat f"
| "fromJson (JString s) = GString s"
| "fromJson (JArray js) = GList (map fromJson js)"
| "fromJson (JObject kjs) = GMap (map (\<lambda>(k, j). (k, fromJson j)) kjs)"

text \<open>The same for a \<open>map[string]any\<close>; a nil map is written as \<open>null\<close> and reads as an empty one.\<close>

definition varsToJson :: "vars \<Rightarrow> json" where
  "varsToJson vs = JObject (map (\<lambda>(k, v). (k, toJson v)) vs)"

definition varsFromJson :: "json \<Rightarrow> vars option" where
  "varsFromJson j = (case j of
      JObject kjs \<Rightarrow> Some (map (\<lambda>(k, j). (k, fromJson j)) kjs)
    | JNull \<Rightarrow> Some []
    | _ \<Rightarrow> None)"

section \<open>Statements and queries\<close>

text \<open>
  The values of columns and of the arguments of a statement. A JSON document is kept as a document
  also where the column holds its text. \<open>SDef\<close> is the document of a process definition: its own
  fields and the records of its elements.
\<close>

datatype sqlVal =
    SNull
  | SText string
  | SInt int
  | SBool bool
  | STime int
  | SJson json
  | SDef ProcessDefinition "elementRecord list"

text \<open>
  The conditions the stores put after \<open>WHERE\<close>, all joined with \<open>AND\<close>: comparisons of a column with an argument,
  \<open>LIKE\<close>, a string member of a JSON column, and \<open>IN\<close> with a subquery of one condition.
\<close>

datatype cond =
    ColEq string sqlVal
  | ColNe string sqlVal
  | ColAtLeast string sqlVal
  | ColAtMost string sqlVal
  | ColBelow string sqlVal
  | ColLike string string
  | ColJson string string string
  | ColIn string string string cond

text \<open>\<open>col = ?\<close> and \<open>col = col + 1\<close>\<close>

datatype assign =
    SetTo string sqlVal
  | Increment string

datatype stmt =
    InsertInto string "string list" "sqlVal list"
  | Upsert string "string list" "sqlVal list"
  | UpdateSet string "assign list" "cond list"
  | DeleteFrom string "cond list"

datatype selection =
    Columns "string list"
  | CountAll

record query =
  q_select :: selection
  q_from :: string
  q_where :: "cond list"
  q_order :: "(string \<times> bool) option"
  q_limit :: "int option"
  q_offset :: int

definition selectFrom :: "string list \<Rightarrow> string \<Rightarrow> cond list \<Rightarrow> query" where
  "selectFrom cols t conds = \<lparr>q_select = Columns cols, q_from = t, q_where = conds,
     q_order = None, q_limit = None, q_offset = 0\<rparr>"

definition countFrom :: "string \<Rightarrow> cond list \<Rightarrow> query" where
  "countFrom t conds = (selectFrom [] t conds)\<lparr>q_select := CountAll\<rparr>"

text \<open>A call runs on the connection pool or on the transaction the context carries.\<close>

datatype callContext = OnPool | OnTx

type_synonym sqlRow = "(string \<times> sqlVal) list"
type_synonym sqlRows = "sqlVal list list"
type_synonym tables = "(string \<times> sqlRow list) list"

record 'db Database =
  db_exec :: "callContext \<Rightarrow> stmt \<Rightarrow> 'db \<Rightarrow> (string + int) \<times> 'db"
  db_query :: "callContext \<Rightarrow> query \<Rightarrow> 'db \<Rightarrow> (string + sqlRows) \<times> 'db"
  db_begin :: "'db \<Rightarrow> (string + unit) \<times> 'db"
  db_commit :: "'db \<Rightarrow> (string + unit) \<times> 'db"
  db_rollback :: "'db \<Rightarrow> 'db"

section \<open>Schemas\<close>

text \<open>
  Column types: text of bounded or unbounded length, integers of a width, which may also take a boolean,
  times kept to a number of nanoseconds, documents and binary data.
\<close>

datatype columnType =
    TextType "nat option"
  | IntType nat bool
  | TimeType int
  | JsonType
  | BlobType

datatype columnDefault =
    Required
  | Nullable
  | DefaultTo sqlVal
  | CurrentTime

record sqlColumn =
  co_name :: string
  co_type :: columnType
  co_default :: columnDefault

definition column :: "string \<Rightarrow> columnType \<Rightarrow> columnDefault \<Rightarrow> sqlColumn" where
  "column n t d = \<lparr>co_name = n, co_type = t, co_default = d\<rparr>"

record sqlTable =
  tb_columns :: "sqlColumn list"
  tb_key :: "string list"

text \<open>
  A schema also says when two texts are equal, and whether \<open>RowsAffected\<close> of an \<open>UPDATE\<close> counts the rows found or
  only the rows changed.
\<close>

record sqlSchema =
  sc_tables :: "(string \<times> sqlTable) list"
  sc_sameText :: "string \<Rightarrow> string \<Rightarrow> bool"
  sc_countsFound :: bool

section \<open>What a statement does\<close>

text \<open>
  The reference semantics. A statement is \<open>Done\<close>, or \<open>Refused\<close> with nothing changed, or the semantics says nothing
  about it (\<open>Unspecified\<close>): comparisons other than equality, conversions between kinds of values, updates of a key,
  negative limits.
\<close>

datatype 'a outcome = Done 'a | Refused | Unspecified

definition bindO :: "'a outcome \<Rightarrow> ('a \<Rightarrow> 'b outcome) \<Rightarrow> 'b outcome" where
  "bindO x f = (case x of Done a \<Rightarrow> f a | Refused \<Rightarrow> Refused | Unspecified \<Rightarrow> Unspecified)"

primrec mapO :: "('a \<Rightarrow> 'b outcome) \<Rightarrow> 'a list \<Rightarrow> 'b list outcome" where
  "mapO f [] = Done []"
| "mapO f (x # xs) = bindO (f x) (\<lambda>y. bindO (mapO f xs) (\<lambda>ys. Done (y # ys)))"

lemma bindO_simps [simp]:
  "bindO (Done a) f = f a"
  "bindO Refused f = Refused"
  "bindO Unspecified f = Unspecified"
  by (simp_all add: bindO_def)

definition rowsOf :: "tables \<Rightarrow> string \<Rightarrow> sqlRow list" where
  "rowsOf T t = (case map_of T t of None \<Rightarrow> [] | Some rs \<Rightarrow> rs)"

definition cell :: "sqlRow \<Rightarrow> string \<Rightarrow> sqlVal" where
  "cell r c = (case map_of r c of None \<Rightarrow> SNull | Some v \<Rightarrow> v)"

definition columnNamed :: "sqlTable \<Rightarrow> string \<Rightarrow> sqlColumn option" where
  "columnNamed tb c = find (\<lambda>co. co_name co = c) (tb_columns tb)"

text \<open>Putting a value into a column.\<close>

fun coerce :: "columnType \<Rightarrow> sqlVal \<Rightarrow> sqlVal outcome" where
  "coerce (TextType n) (SText s) =
     (case n of None \<Rightarrow> Done (SText s) | Some m \<Rightarrow> if length s \<le> m then Done (SText s) else Refused)"
| "coerce (TextType n) (SJson j) = Done (SJson j)"
| "coerce (IntType w b) (SInt i) =
     (if - (2 ^ (w - 1)) \<le> i \<and> i < 2 ^ (w - 1) then Done (SInt i) else Refused)"
| "coerce (IntType w b) (SBool x) = (if b then Done (SInt (if x then 1 else 0)) else Refused)"
| "coerce (TimeType u) (STime t) = Done (STime (t - t mod u))"
| "coerce JsonType (SJson j) = Done (SJson j)"
| "coerce BlobType (SDef d rs) = Done (SDef d rs)"
| "coerce _ _ = Unspecified"

text \<open>The value of a column in a new row.\<close>

definition columnValue :: "int \<Rightarrow> (string \<times> sqlVal) list \<Rightarrow> sqlColumn \<Rightarrow> (string \<times> sqlVal) outcome" where
  "columnValue now given co = bindO
     (case map_of given (co_name co) of
        None \<Rightarrow> (case co_default co of Required \<Rightarrow> Refused | Nullable \<Rightarrow> Done SNull
                  | DefaultTo v \<Rightarrow> Done v | CurrentTime \<Rightarrow> Done (STime now))
      | Some SNull \<Rightarrow> (if co_default co = Nullable then Done SNull else Refused)
      | Some v \<Rightarrow> coerce (co_type co) v)
     (\<lambda>v. Done (co_name co, v))"

definition newRow :: "int \<Rightarrow> sqlTable \<Rightarrow> string list \<Rightarrow> sqlVal list \<Rightarrow> sqlRow outcome" where
  "newRow now tb cols vals = mapO (columnValue now (zip cols vals)) (tb_columns tb)"

text \<open>Comparisons. \<open>NULL\<close> equals nothing, not even itself.\<close>

definition sameVal :: "sqlSchema \<Rightarrow> sqlVal \<Rightarrow> sqlVal \<Rightarrow> bool" where
  "sameVal sc v w = (case (v, w) of
      (SText a, SText b) \<Rightarrow> sc_sameText sc a b
    | (SNull, _) \<Rightarrow> False
    | (SInt i, SBool b) \<Rightarrow> i = (if b then 1 else 0)
    | _ \<Rightarrow> v = w)"

definition sameKey :: "sqlSchema \<Rightarrow> sqlTable \<Rightarrow> sqlRow \<Rightarrow> sqlRow \<Rightarrow> bool" where
  "sameKey sc tb r r' = list_all (\<lambda>c. sameVal sc (cell r c) (cell r' c)) (tb_key tb)"

fun valLess :: "sqlVal \<Rightarrow> sqlVal \<Rightarrow> bool" where
  "valLess (SInt i) (SInt j) = (i < j)"
| "valLess (STime i) (STime j) = (i < j)"
| "valLess _ _ = False"

text \<open>\<open>LIKE\<close> with its wildcards for any text and for one character.\<close>

fun likeText :: "string \<Rightarrow> string \<Rightarrow> bool" where
  "likeText [] s = (s = [])"
| "likeText (p # ps) [] = (p = CHR ''%'' \<and> likeText ps [])"
| "likeText (p # ps) (c # cs) =
     (if p = CHR ''%'' then likeText ps (c # cs) \<or> likeText (p # ps) cs
      else (p = CHR ''_'' \<or> p = c) \<and> likeText ps cs)"

fun condHolds :: "sqlSchema \<Rightarrow> tables \<Rightarrow> sqlRow \<Rightarrow> cond \<Rightarrow> bool" where
  "condHolds sc T r (ColEq c v) = sameVal sc (cell r c) v"
| "condHolds sc T r (ColNe c v) = (cell r c \<noteq> SNull \<and> \<not> sameVal sc (cell r c) v)"
| "condHolds sc T r (ColAtLeast c v) = (valLess v (cell r c) \<or> sameVal sc (cell r c) v)"
| "condHolds sc T r (ColAtMost c v) = (valLess (cell r c) v \<or> sameVal sc (cell r c) v)"
| "condHolds sc T r (ColBelow c v) = valLess (cell r c) v"
| "condHolds sc T r (ColLike c p) = (case cell r c of SText s \<Rightarrow> likeText p s | _ \<Rightarrow> False)"
| "condHolds sc T r (ColJson c f x) = (case cell r c of
     SJson (JObject kjs) \<Rightarrow> map_of kjs f = Some (JString x) | _ \<Rightarrow> False)"
| "condHolds sc T r (ColIn c d t p) =
     (\<exists>r'\<in>set (filter (\<lambda>r'. condHolds sc T r' p) (rowsOf T t)). sameVal sc (cell r c) (cell r' d))"

text \<open>A condition is refused when it names an unknown column or compares an integer column that takes no boolean with one.\<close>

fun refusesBool :: "columnType \<Rightarrow> sqlVal \<Rightarrow> bool" where
  "refusesBool (IntType w False) (SBool b) = True"
| "refusesBool _ _ = False"

fun condValid :: "sqlSchema \<Rightarrow> sqlTable \<Rightarrow> cond \<Rightarrow> bool" where
  "condValid sc tb (ColEq c v) = (case columnNamed tb c of None \<Rightarrow> False
     | Some co \<Rightarrow> \<not> refusesBool (co_type co) v)"
| "condValid sc tb (ColNe c v) = (columnNamed tb c \<noteq> None)"
| "condValid sc tb (ColAtLeast c v) = (columnNamed tb c \<noteq> None)"
| "condValid sc tb (ColAtMost c v) = (columnNamed tb c \<noteq> None)"
| "condValid sc tb (ColBelow c v) = (columnNamed tb c \<noteq> None)"
| "condValid sc tb (ColLike c p) = (columnNamed tb c \<noteq> None)"
| "condValid sc tb (ColJson c f x) = (columnNamed tb c \<noteq> None)"
| "condValid sc tb (ColIn c d t p) = (columnNamed tb c \<noteq> None \<and>
     (case map_of (sc_tables sc) t of None \<Rightarrow> False
      | Some tb' \<Rightarrow> columnNamed tb' d \<noteq> None \<and> condValid sc tb' p))"

text \<open>The conditions the semantics speaks about: equality of a column with a value of its kind.\<close>

fun sameKind :: "columnType \<Rightarrow> sqlVal \<Rightarrow> bool" where
  "sameKind (TextType n) (SText s) = True"
| "sameKind (IntType w b) (SInt i) = True"
| "sameKind _ _ = False"

definition kindAgrees :: "sqlTable \<Rightarrow> string \<Rightarrow> sqlVal \<Rightarrow> bool" where
  "kindAgrees tb c v = (case columnNamed tb c of None \<Rightarrow> False | Some co \<Rightarrow> sameKind (co_type co) v)"

fun condPlain :: "sqlTable \<Rightarrow> cond \<Rightarrow> bool" where
  "condPlain tb (ColEq c v) = kindAgrees tb c v"
| "condPlain tb (ColNe c v) = kindAgrees tb c v"
| "condPlain tb _ = False"

definition holdsAll :: "sqlSchema \<Rightarrow> tables \<Rightarrow> cond list \<Rightarrow> sqlRow \<Rightarrow> bool" where
  "holdsAll sc T conds r = list_all (condHolds sc T r) conds"

text \<open>\<open>INSERT\<close>: a row whose key is taken is refused, or replaced by an \<open>Upsert\<close>.\<close>

definition insertRow ::
  "sqlSchema \<Rightarrow> bool \<Rightarrow> string \<Rightarrow> sqlTable \<Rightarrow> sqlRow \<Rightarrow> tables \<Rightarrow> (int \<times> tables) outcome" where
  "insertRow sc replace t tb r T = (let rs = rowsOf T t in
     if replace then Done (1, AList.update t (filter (\<lambda>r'. \<not> sameKey sc tb r r') rs @ [r]) T)
     else if list_ex (sameKey sc tb r) rs then Refused
     else Done (1, AList.update t (rs @ [r]) T))"

definition runInsert ::
  "int \<Rightarrow> sqlSchema \<Rightarrow> bool \<Rightarrow> string \<Rightarrow> string list \<Rightarrow> sqlVal list \<Rightarrow> tables \<Rightarrow> (int \<times> tables) outcome" where
  "runInsert now sc replace t cols vals T = (case map_of (sc_tables sc) t of
       None \<Rightarrow> Refused
     | Some tb \<Rightarrow>
         if \<not> list_all (\<lambda>c. columnNamed tb c \<noteq> None) cols \<or> length cols \<noteq> length vals then Refused
         else bindO (newRow now tb cols vals) (\<lambda>r. insertRow sc replace t tb r T))"

text \<open>\<open>UPDATE\<close>\<close>

fun assigned :: "assign \<Rightarrow> string" where
  "assigned (SetTo c v) = c"
| "assigned (Increment c) = c"

fun assignValue :: "sqlColumn \<Rightarrow> sqlRow \<Rightarrow> assign \<Rightarrow> sqlVal outcome" where
  "assignValue co r (SetTo c SNull) = (if co_default co = Nullable then Done SNull else Refused)"
| "assignValue co r (SetTo c v) = coerce (co_type co) v"
| "assignValue co r (Increment c) =
     (case cell r c of SInt i \<Rightarrow> coerce (co_type co) (SInt (i + 1)) | _ \<Rightarrow> Unspecified)"

definition updateCell :: "sqlTable \<Rightarrow> assign list \<Rightarrow> sqlRow \<Rightarrow> sqlColumn \<Rightarrow> (string \<times> sqlVal) outcome" where
  "updateCell tb asg r co = (case find (\<lambda>a. assigned a = co_name co) asg of
       None \<Rightarrow> Done (co_name co, cell r (co_name co))
     | Some a \<Rightarrow> bindO (assignValue co r a) (\<lambda>v. Done (co_name co, v)))"

definition updateRow :: "sqlSchema \<Rightarrow> tables \<Rightarrow> sqlTable \<Rightarrow> assign list \<Rightarrow> cond list \<Rightarrow> sqlRow \<Rightarrow> sqlRow outcome" where
  "updateRow sc T tb asg conds r =
     (if holdsAll sc T conds r then mapO (updateCell tb asg r) (tb_columns tb) else Done r)"

definition runUpdate ::
  "sqlSchema \<Rightarrow> string \<Rightarrow> assign list \<Rightarrow> cond list \<Rightarrow> tables \<Rightarrow> (int \<times> tables) outcome" where
  "runUpdate sc t asg conds T = (case map_of (sc_tables sc) t of
       None \<Rightarrow> Refused
     | Some tb \<Rightarrow>
         if \<not> list_all (\<lambda>a. columnNamed tb (assigned a) \<noteq> None) asg \<or> \<not> list_all (condValid sc tb) conds then Refused
         else if list_ex (\<lambda>a. assigned a \<in> set (tb_key tb)) asg \<or> \<not> list_all (condPlain tb) conds then Unspecified
         else let rs = rowsOf T t in
           bindO (mapO (updateRow sc T tb asg conds) rs) (\<lambda>rs'.
             Done (int (length (filter (\<lambda>(r, r'). holdsAll sc T conds r \<and> (sc_countsFound sc \<or> r \<noteq> r')) (zip rs rs'))),
                   AList.update t rs' T)))"

text \<open>\<open>DELETE\<close>\<close>

definition runDelete :: "sqlSchema \<Rightarrow> string \<Rightarrow> cond list \<Rightarrow> tables \<Rightarrow> (int \<times> tables) outcome" where
  "runDelete sc t conds T = (case map_of (sc_tables sc) t of
       None \<Rightarrow> Refused
     | Some tb \<Rightarrow>
         if \<not> list_all (condValid sc tb) conds then Refused
         else if \<not> list_all (condPlain tb) conds then Unspecified
         else let rs = rowsOf T t in
           Done (int (length (filter (holdsAll sc T conds) rs)),
                 AList.update t (filter (\<lambda>r. \<not> holdsAll sc T conds r) rs) T))"

primrec runStmt :: "int \<Rightarrow> sqlSchema \<Rightarrow> stmt \<Rightarrow> tables \<Rightarrow> (int \<times> tables) outcome" where
  "runStmt now sc (InsertInto t cols vals) = runInsert now sc False t cols vals"
| "runStmt now sc (Upsert t cols vals) = runInsert now sc True t cols vals"
| "runStmt now sc (UpdateSet t asg conds) = runUpdate sc t asg conds"
| "runStmt now sc (DeleteFrom t conds) = runDelete sc t conds"

text \<open>The rows a query selects.\<close>

definition selectionColumns :: "selection \<Rightarrow> string list" where
  "selectionColumns sel = (case sel of Columns cols \<Rightarrow> cols | CountAll \<Rightarrow> [])"

definition runQuery :: "sqlSchema \<Rightarrow> query \<Rightarrow> tables \<Rightarrow> sqlRow list outcome" where
  "runQuery sc q T = (case map_of (sc_tables sc) (q_from q) of
       None \<Rightarrow> Refused
     | Some tb \<Rightarrow>
         if \<not> list_all (\<lambda>c. columnNamed tb c \<noteq> None) (selectionColumns (q_select q))
            \<or> \<not> list_all (condValid sc tb) (q_where q)
            \<or> (case q_order q of None \<Rightarrow> False | Some (c, desc) \<Rightarrow> columnNamed tb c = None)
         then Refused
         else if \<not> list_all (condPlain tb) (q_where q) \<or> q_offset q < 0
            \<or> (case q_limit q of None \<Rightarrow> False | Some n \<Rightarrow> n < 0)
         then Unspecified
         else Done (filter (holdsAll sc T (q_where q)) (rowsOf T (q_from q))))"

text \<open>
  What a query may answer: the selected rows in any order, or sorted where the query asks for it, cut to the window
  it asks for. Only the order of integers is specified.
\<close>

definition inOrder :: "query \<Rightarrow> sqlRow list \<Rightarrow> bool" where
  "inOrder q rs = (case q_order q of None \<Rightarrow> True
     | Some (c, desc) \<Rightarrow> sorted_wrt (\<lambda>r r'. case (cell r c, cell r' c) of
           (SInt i, SInt j) \<Rightarrow> (if desc then j \<le> i else i \<le> j) | _ \<Rightarrow> True) rs)"

definition window :: "query \<Rightarrow> 'a list \<Rightarrow> 'a list" where
  "window q rs = (let rs' = drop (nat (q_offset q)) rs in
     case q_limit q of None \<Rightarrow> rs' | Some n \<Rightarrow> take (nat n) rs')"

definition answers :: "query \<Rightarrow> sqlRow list \<Rightarrow> sqlRows \<Rightarrow> bool" where
  "answers q rs res \<longleftrightarrow> (case q_select q of
       CountAll \<Rightarrow> res = [[SInt (int (length rs))]]
     | Columns cols \<Rightarrow> (\<exists>rs'. mset rs' = mset rs \<and> inOrder q rs'
         \<and> res = map (\<lambda>r. map (cell r) cols) (window q rs')))"

section \<open>The promises of a database\<close>

text \<open>
  A connection is idle, or inside a transaction that began on some tables, or inside one that an error has aborted.
\<close>

datatype phase = Idle | Within tables | Aborted tables

definition usable :: "callContext \<Rightarrow> phase \<Rightarrow> bool" where
  "usable c p \<longleftrightarrow> (case p of Idle \<Rightarrow> c = OnPool | Within T \<Rightarrow> c = OnTx | Aborted T \<Rightarrow> False)"

text \<open>An error may abort the transaction it happens in.\<close>

definition afterError :: "phase \<Rightarrow> phase \<Rightarrow> bool" where
  "afterError p p' \<longleftrightarrow> p' = p \<or> (case p of Within T \<Rightarrow> p' = Aborted T | _ \<Rightarrow> False)"

text \<open>
  \<open>contents\<close> and \<open>phase\<close> say which tables a connection sees and where it stands. The laws are about statements that
  the database finishes or refuses; failures of the machine are left out. An aborted transaction takes no statement and
  cannot be committed.
\<close>

locale sql_database =
  fixes D :: "'db Database"
    and sc :: sqlSchema
    and contents :: "'db \<Rightarrow> tables"
    and phase :: "'db \<Rightarrow> phase"
  assumes exec: "usable c (phase s) \<Longrightarrow> db_exec D c st s = (r, s') \<Longrightarrow>
      afterError (phase s) (phase s') \<and> (\<exists>now. case runStmt now sc st (contents s) of
          Done (n, T) \<Rightarrow> r = Inr n \<and> contents s' = T \<and> phase s' = phase s
        | Refused \<Rightarrow> isl r \<and> contents s' = contents s
        | Unspecified \<Rightarrow> True)"
    and query: "usable c (phase s) \<Longrightarrow> db_query D c q s = (a, s') \<Longrightarrow>
      afterError (phase s) (phase s') \<and> (case runQuery sc q (contents s) of
          Done rs \<Rightarrow> (\<exists>res. a = Inr res \<and> answers q rs res) \<and> contents s' = contents s \<and> phase s' = phase s
        | Refused \<Rightarrow> isl a \<and> contents s' = contents s
        | Unspecified \<Rightarrow> True)"
    and exec_aborted: "phase s = Aborted T \<Longrightarrow> db_exec D OnTx st s = (r, s') \<Longrightarrow> isl r \<and> phase s' = Aborted T"
    and query_aborted: "phase s = Aborted T \<Longrightarrow> db_query D OnTx q s = (a, s') \<Longrightarrow> isl a \<and> phase s' = Aborted T"
    and commit_aborted: "phase s = Aborted T \<Longrightarrow> db_commit D s = (b, s') \<Longrightarrow> isl b \<and> contents s' = T \<and> phase s' = Idle"
    and start: "phase s = Idle \<Longrightarrow> db_begin D s = (b, s') \<Longrightarrow>
      b = Inr () \<and> contents s' = contents s \<and> phase s' = Within (contents s)"
    and commit: "phase s = Within T \<Longrightarrow> db_commit D s = (b, s') \<Longrightarrow>
      b = Inr () \<and> contents s' = contents s \<and> phase s' = Idle"
    and rollback: "phase s = Within T \<or> phase s = Aborted T \<Longrightarrow>
      contents (db_rollback D s) = T \<and> phase (db_rollback D s) = Idle"
begin

lemma exec_refused:
  assumes "usable c (phase s)" and "\<And>now. runStmt now sc st (contents s) = Refused"
  shows "\<exists>e s'. db_exec D c st s = (Inl e, s') \<and> contents s' = contents s"
proof -
  obtain r s' where rs: "db_exec D c st s = (r, s')" by fastforce
  then have "isl r \<and> contents s' = contents s" using exec [OF assms(1) rs] assms(2) by auto
  with rs show ?thesis by (cases r) auto
qed

lemma exec_done:
  assumes "usable c (phase s)" and "\<And>now. runStmt now sc st (contents s) = Done (n, f now)"
  shows "\<exists>now s'. db_exec D c st s = (Inr n, s') \<and> contents s' = f now \<and> phase s' = phase s"
proof -
  obtain r s' where rs: "db_exec D c st s = (r, s')" by fastforce
  then show ?thesis using exec [OF assms(1) rs] assms(2) by auto
qed

lemma query_done:
  assumes "usable c (phase s)" and "runQuery sc q (contents s) = Done rs"
  shows "\<exists>res s'. db_query D c q s = (Inr res, s') \<and> answers q rs res \<and> contents s' = contents s \<and> phase s' = phase s"
proof -
  obtain a s' where as: "db_query D c q s = (a, s')" by fastforce
  then show ?thesis using query [OF assms(1) as] assms(2) by auto
qed

lemma query_refused:
  assumes "usable c (phase s)" and "runQuery sc q (contents s) = Refused"
  shows "\<exists>e s'. db_query D c q s = (Inl e, s') \<and> contents s' = contents s"
proof -
  obtain a s' where as: "db_query D c q s = (a, s')" by fastforce
  then have "isl a \<and> contents s' = contents s" using query [OF assms(1) as] assms(2) by auto
  with as show ?thesis by (cases a) auto
qed

end

section \<open>A database\<close>

text \<open>The reference semantics run as a database: the promises can be kept.\<close>

record memoryDb =
  md_tables :: tables
  md_phase :: phase

definition rank :: "bool \<Rightarrow> sqlVal \<Rightarrow> int" where
  "rank desc v = (case v of SInt i \<Rightarrow> if desc then - i else i | STime t \<Rightarrow> if desc then - t else t | _ \<Rightarrow> 0)"

definition sortRows :: "query \<Rightarrow> sqlRow list \<Rightarrow> sqlRow list" where
  "sortRows q rs = (case q_order q of None \<Rightarrow> rs | Some (c, desc) \<Rightarrow> sort_key (\<lambda>r. rank desc (cell r c)) rs)"

definition answerOf :: "query \<Rightarrow> sqlRow list \<Rightarrow> sqlRows" where
  "answerOf q rs = (case q_select q of
       CountAll \<Rightarrow> [[SInt (int (length rs))]]
     | Columns cols \<Rightarrow> map (\<lambda>r. map (cell r) cols) (window q (sortRows q rs)))"

primrec isAborted :: "phase \<Rightarrow> bool" where
  "isAborted Idle = False"
| "isAborted (Within T) = False"
| "isAborted (Aborted T) = True"

lemma isAborted_iff: "isAborted p \<longleftrightarrow> (\<exists>T. p = Aborted T)"
  by (cases p) simp_all

lemma usable_alive: "usable c p \<Longrightarrow> \<not> isAborted p"
  by (cases p) (simp_all add: usable_def)

definition memoryDatabase :: "int \<Rightarrow> sqlSchema \<Rightarrow> memoryDb Database" where
  "memoryDatabase now sc =
     \<lparr>db_exec = (\<lambda>c st s. case runStmt now sc st (md_tables s) of
        Done (n, T) \<Rightarrow> (if isAborted (md_phase s) then (Inl ''aborted'', s) else (Inr n, s\<lparr>md_tables := T\<rparr>))
      | _ \<Rightarrow> (Inl ''refused'', s)),
      db_query = (\<lambda>c q s. case runQuery sc q (md_tables s) of
        Done rs \<Rightarrow> (if isAborted (md_phase s) then (Inl ''aborted'', s) else (Inr (answerOf q rs), s))
      | _ \<Rightarrow> (Inl ''refused'', s)),
      db_begin = (\<lambda>s. (Inr (), s\<lparr>md_phase := Within (md_tables s)\<rparr>)),
      db_commit = (\<lambda>s. case md_phase s of
        Aborted T \<Rightarrow> (Inl ''aborted'', \<lparr>md_tables = T, md_phase = Idle\<rparr>) | _ \<Rightarrow> (Inr (), s\<lparr>md_phase := Idle\<rparr>)),
      db_rollback = (\<lambda>s. case md_phase s of
        Idle \<Rightarrow> s | Within T \<Rightarrow> \<lparr>md_tables = T, md_phase = Idle\<rparr> | Aborted T \<Rightarrow> \<lparr>md_tables = T, md_phase = Idle\<rparr>)\<rparr>"

lemma sortRows_inOrder: "inOrder q (sortRows q rs)"
proof (cases "q_order q")
  case None
  then show ?thesis by (simp add: inOrder_def)
next
  case (Some cd)
  obtain c desc where cd: "cd = (c, desc)" by (cases cd)
  let ?f = "\<lambda>r. rank desc (cell r c)"
  have "sorted_wrt (\<lambda>r r'. ?f r \<le> ?f r') (sort_key ?f rs)"
    using sorted_sort_key [of ?f rs] by (simp add: sorted_wrt_map)
  then have "sorted_wrt (\<lambda>r r'. case (cell r c, cell r' c) of
           (SInt i, SInt j) \<Rightarrow> (if desc then j \<le> i else i \<le> j) | _ \<Rightarrow> True) (sort_key ?f rs)"
    by (rule sorted_wrt_mono_rel [rotated]) (auto simp: rank_def split: sqlVal.splits if_splits)
  then show ?thesis by (simp add: inOrder_def sortRows_def Some cd)
qed

lemma mset_sortRows: "mset (sortRows q rs) = mset rs"
  by (simp add: sortRows_def split: option.split prod.split)

lemma answers_answerOf: "answers q rs (answerOf q rs)"
  using sortRows_inOrder [of q rs] mset_sortRows [of q rs]
  by (auto simp: answers_def answerOf_def split: selection.splits)

interpretation memoryDatabase: sql_database "memoryDatabase now sc" sc md_tables md_phase for now sc
proof unfold_locales
  show "afterError (md_phase s) (md_phase s') \<and> (\<exists>now'. case runStmt now' sc st (md_tables s) of
          Done (n, T) \<Rightarrow> r = Inr n \<and> md_tables s' = T \<and> md_phase s' = md_phase s
        | Refused \<Rightarrow> isl r \<and> md_tables s' = md_tables s
        | Unspecified \<Rightarrow> True)"
    if "usable c (md_phase s)" "db_exec (memoryDatabase now sc) c st s = (r, s')" for c st s r s'
    using that(2) usable_alive [OF that(1)]
    by (intro conjI exI [of _ now]) (auto simp: memoryDatabase_def afterError_def split: outcome.splits prod.splits)
  show "afterError (md_phase s) (md_phase s') \<and> (case runQuery sc q (md_tables s) of
          Done rs \<Rightarrow> (\<exists>res. a = Inr res \<and> answers q rs res) \<and> md_tables s' = md_tables s \<and> md_phase s' = md_phase s
        | Refused \<Rightarrow> isl a \<and> md_tables s' = md_tables s
        | Unspecified \<Rightarrow> True)"
    if "usable c (md_phase s)" "db_query (memoryDatabase now sc) c q s = (a, s')" for c q s a s'
    using that(2) usable_alive [OF that(1)]
    by (auto simp: memoryDatabase_def afterError_def answers_answerOf split: outcome.splits)
qed (auto simp: memoryDatabase_def split: outcome.splits phase.splits)

end
