(* ===== verification/SqlStore.thy ===== *)
theory SqlStore imports Sql begin

text \<open>
  The SQL stores, storage/sqlstore/sql_store.go, storage/pgstore/pg_store.go and
  storage/mysqlstore/mysql_store.go. The three files have the same functions with the same statements; what
  differs is a \<open>dialect\<close>: the name of the key column, the order of the arguments of
  \<open>CreateActivityInstance\<close> and the literal \<open>fired\<close> is compared with, besides the schemas. The operations below
  follow the SQLite file and take the store, its database and its dialect, as an argument. The texts of the statements are
  \<open>stmt\<close> and \<open>query\<close> values with the arguments in place.
\<close>

section \<open>Errors, calls, scanning\<close>

text \<open>
  \<open>RowNotFound\<close> wraps \<open>storage.ErrNotFound\<close>, \<open>DbFailed\<close> an error of the database, \<open>BadRow\<close> an error of \<open>Scan\<close> or
  \<open>json.Unmarshal\<close>. A state text that is none of the constants, which no operation writes, is a \<open>BadRow\<close> here.
\<close>

datatype sqlError =
    RowNotFound string
  | DbFailed string
  | BadRow
  | UnknownElement ElementType
  | CallerError string

type_synonym ('db, 'a) sqlM = "('db, sqlError, 'a) sem"

record dialect =
  dl_key :: string
  dl_activityArgs :: "ActivityInstance \<Rightarrow> sqlVal list"
  dl_notFired :: sqlVal

record 'db SqlStore =
  db :: "'db Database"
  dialect :: dialect

definition execContext :: "'db SqlStore \<Rightarrow> callContext \<Rightarrow> stmt \<Rightarrow> ('db, int) sqlM" where
  "execContext S c st = (\<lambda>s. case db_exec (db S) c st s of
      (Inl e, s') \<Rightarrow> (Inl (DbFailed e), s') | (Inr n, s') \<Rightarrow> (Inr n, s'))"

definition queryContext :: "'db SqlStore \<Rightarrow> callContext \<Rightarrow> query \<Rightarrow> ('db, sqlRows) sqlM" where
  "queryContext S c q = (\<lambda>s. case db_query (db S) c q s of
      (Inl e, s') \<Rightarrow> (Inl (DbFailed e), s') | (Inr rows, s') \<Rightarrow> (Inr rows, s'))"

definition scanM :: "sqlError + 'a \<Rightarrow> ('db, 'a) sqlM" where
  "scanM r = (\<lambda>s. (r, s))"

text \<open>\<open>queryRowContext(...).Scan(...)\<close>: the first row, or \<open>sql.ErrNoRows\<close>, which the caller turns into \<open>ErrNotFound\<close>.\<close>

definition queryRowContext ::
  "'db SqlStore \<Rightarrow> callContext \<Rightarrow> query \<Rightarrow> string \<Rightarrow> (sqlVal list \<Rightarrow> sqlError + 'a) \<Rightarrow> ('db, 'a) sqlM" where
  "queryRowContext S c q i scan = bindM (queryContext S c q) (\<lambda>rows. case rows of
      [] \<Rightarrow> throwM (RowNotFound i) | row # _ \<Rightarrow> scanM (scan row))"

text \<open>\<open>for rows.Next() { ... }\<close>: the first row that does not scan ends the loop with its error.\<close>

primrec scanRows :: "(sqlVal list \<Rightarrow> sqlError + 'a) \<Rightarrow> sqlRows \<Rightarrow> sqlError + 'a list" where
  "scanRows scan [] = Inr []"
| "scanRows scan (row # rows) = (case scan row of
      Inl e \<Rightarrow> Inl e
    | Inr x \<Rightarrow> (case scanRows scan rows of Inl e \<Rightarrow> Inl e | Inr xs \<Rightarrow> Inr (x # xs)))"

definition queryRows ::
  "'db SqlStore \<Rightarrow> callContext \<Rightarrow> query \<Rightarrow> (sqlVal list \<Rightarrow> sqlError + 'a) \<Rightarrow> ('db, 'a list) sqlM" where
  "queryRows S c q scan = bindM (queryContext S c q) (\<lambda>rows. scanM (scanRows scan rows))"

text \<open>A statement whose \<open>RowsAffected\<close> must not be zero, and one whose count is not looked at.\<close>

definition execOne :: "'db SqlStore \<Rightarrow> callContext \<Rightarrow> stmt \<Rightarrow> string \<Rightarrow> ('db, unit) sqlM" where
  "execOne S c st i = bindM (execContext S c st) (\<lambda>n. requireM (n \<noteq> 0) (RowNotFound i))"

definition execAny :: "'db SqlStore \<Rightarrow> callContext \<Rightarrow> stmt \<Rightarrow> ('db, unit) sqlM" where
  "execAny S c st = bindM (execContext S c st) (\<lambda>_. returnM ())"

text \<open>
  \<open>RunInTransaction\<close>: a nested call joins the running transaction; otherwise the function runs in a new one, which is rolled back
  when it returns an error.
\<close>

definition sqlRunInTransaction ::
  "'db SqlStore \<Rightarrow> callContext \<Rightarrow> (callContext \<Rightarrow> ('db, unit) sqlM) \<Rightarrow> ('db, unit) sqlM" where
  "sqlRunInTransaction S c fn =
     (if c = OnTx then fn c
      else (\<lambda>s. case db_begin (db S) s of
          (Inl e, s') \<Rightarrow> (Inl (DbFailed e), s')
        | (Inr _, s') \<Rightarrow> (case fn OnTx s' of
            (Inl err, s'') \<Rightarrow> (Inl err, db_rollback (db S) s'')
          | (Inr _, s'') \<Rightarrow> (case db_commit (db S) s'' of
              (Inl e, s3) \<Rightarrow> (Inl (DbFailed e), s3) | (Inr _, s3) \<Rightarrow> (Inr (), s3)))))"

text \<open>Column values of pointers to times, and back.\<close>

definition timeVal :: "int option \<Rightarrow> sqlVal" where
  "timeVal t = (case t of None \<Rightarrow> SNull | Some i \<Rightarrow> STime i)"

definition scanTime :: "sqlVal \<Rightarrow> sqlError + int option" where
  "scanTime v = (case v of SNull \<Rightarrow> Inr None | STime t \<Rightarrow> Inr (Some t) | _ \<Rightarrow> Inl BadRow)"

definition scanBool :: "sqlVal \<Rightarrow> sqlError + bool" where
  "scanBool v = (case v of
      SBool b \<Rightarrow> Inr b
    | SInt i \<Rightarrow> (if i = 0 then Inr False else if i = 1 then Inr True else Inl BadRow)
    | _ \<Rightarrow> Inl BadRow)"

text \<open>The document of a \<open>variables\<close> column; an empty text is skipped.\<close>

definition scanVars :: "sqlVal \<Rightarrow> sqlError + vars" where
  "scanVars v = (case v of
      SJson j \<Rightarrow> (case varsFromJson j of Some vs \<Rightarrow> Inr vs | None \<Rightarrow> Inl BadRow)
    | SText s \<Rightarrow> (if s = '''' then Inr [] else Inl BadRow)
    | _ \<Rightarrow> Inl BadRow)"

definition bindE :: "sqlError + 'a \<Rightarrow> ('a \<Rightarrow> sqlError + 'b) \<Rightarrow> sqlError + 'b" where
  "bindE x f = (case x of Inl e \<Rightarrow> Inl e | Inr a \<Rightarrow> f a)"

lemma bindE_simps [simp]: "bindE (Inl e) f = Inl e" "bindE (Inr a) f = f a"
  by (simp_all add: bindE_def)

definition orBadRow :: "'a option \<Rightarrow> sqlError + 'a" where
  "orBadRow x = (case x of None \<Rightarrow> Inl BadRow | Some a \<Rightarrow> Inr a)"

text \<open>The Go string types behind the states.\<close>

definition piStateOf :: "string \<Rightarrow> ProcessInstanceState option" where
  "piStateOf s = find (\<lambda>x. piStateString x = s) [Running, Suspended, Completed, Terminated, Rejected]"

definition actStateOf :: "string \<Rightarrow> ActivityInstanceState option" where
  "actStateOf s = find (\<lambda>x. actStateString x = s) [ActivityActive, ActivityUnclaimed, ActivityCompleted]"

fun tokStateString :: "TokenState \<Rightarrow> string" where
  "tokStateString TokenActive = ''active''"
| "tokStateString TokenConsumed = ''consumed''"

definition tokStateOf :: "string \<Rightarrow> TokenState option" where
  "tokStateOf s = find (\<lambda>x. tokStateString x = s) [TokenActive, TokenConsumed]"

definition elementTypeOf :: "string \<Rightarrow> ElementType" where
  "elementTypeOf s = (case find (\<lambda>x. elementTypeString x = s)
       [ElementTypeStartEvent, ElementTypeEndEvent, ElementTypeUserTask, ElementTypeServiceTask,
        ElementTypeExclusiveGateway, ElementTypeParallelGateway, ElementTypeInclusiveGateway,
        ElementTypeBoundaryEvent, ElementTypeIntermediateCatchEvent, ElementTypeIntermediateThrowEvent,
        ElementTypeCallActivity] of
     None \<Rightarrow> ElementTypeOther s | Some t \<Rightarrow> t)"

section \<open>Process definitions\<close>

definition serializeProcessDefinition :: "order \<Rightarrow> ProcessDefinition \<Rightarrow> sqlVal" where
  "serializeProcessDefinition ord def = SDef (def\<lparr>pd_Elements := []\<rparr>) (MarshalJSON ord def)"

definition deserializeProcessDefinition :: "sqlVal list \<Rightarrow> sqlError + ProcessDefinition" where
  "deserializeProcessDefinition row = (case row of
      [SDef def recs] \<Rightarrow> (case UnmarshalJSON recs of
          Inl t \<Rightarrow> Inl (UnknownElement t) | Inr els \<Rightarrow> Inr (def\<lparr>pd_Elements := els\<rparr>))
    | _ \<Rightarrow> Inl BadRow)"

definition sqlCreateProcessDefinition ::
  "'db SqlStore \<Rightarrow> callContext \<Rightarrow> order \<Rightarrow> ProcessDefinition \<Rightarrow> ('db, unit) sqlM" where
  "sqlCreateProcessDefinition S c ord def = execAny S c
     (InsertInto ''process_definitions'' [''id'', ''name'', dl_key (dialect S), ''version'', ''data'']
       [SText (pd_ID def), SText (pd_Name def), SText (pd_Key def), SInt (pd_Version def),
        serializeProcessDefinition ord def])"

definition sqlGetProcessDefinition :: "'db SqlStore \<Rightarrow> callContext \<Rightarrow> string \<Rightarrow> ('db, ProcessDefinition) sqlM" where
  "sqlGetProcessDefinition S c i = queryRowContext S c
     (selectFrom [''data''] ''process_definitions'' [ColEq ''id'' (SText i)]) i deserializeProcessDefinition"

definition sqlGetProcessDefinitionByKeyVersion ::
  "'db SqlStore \<Rightarrow> callContext \<Rightarrow> string \<Rightarrow> int \<Rightarrow> ('db, ProcessDefinition) sqlM" where
  "sqlGetProcessDefinitionByKeyVersion S c key version = queryRowContext S c
     (selectFrom [''data''] ''process_definitions''
        [ColEq (dl_key (dialect S)) (SText key), ColEq ''version'' (SInt version)])
     key deserializeProcessDefinition"

definition sqlListProcessDefinitions :: "'db SqlStore \<Rightarrow> callContext \<Rightarrow> ('db, ProcessDefinition list) sqlM" where
  "sqlListProcessDefinitions S c = queryRows S c
     (selectFrom [''data''] ''process_definitions'' []) deserializeProcessDefinition"

definition sqlDeleteProcessDefinition :: "'db SqlStore \<Rightarrow> callContext \<Rightarrow> string \<Rightarrow> ('db, unit) sqlM" where
  "sqlDeleteProcessDefinition S c i =
     execOne S c (DeleteFrom ''process_definitions'' [ColEq ''id'' (SText i)]) i"

definition sqlGetLatestProcessDefinitionByKey ::
  "'db SqlStore \<Rightarrow> callContext \<Rightarrow> string \<Rightarrow> ('db, ProcessDefinition) sqlM" where
  "sqlGetLatestProcessDefinitionByKey S c key = queryRowContext S c
     ((selectFrom [''data''] ''process_definitions'' [ColEq (dl_key (dialect S)) (SText key)])
        \<lparr>q_order := Some (''version'', True), q_limit := Some 1\<rparr>)
     key deserializeProcessDefinition"

section \<open>Process instances\<close>

definition instanceColumns :: "string list" where
  "instanceColumns = [''id'', ''business_key'', ''def_id'', ''state'', ''variables'', ''started_at'', ''ended_at'',
     ''parent_process_instance_id'', ''parent_activity_id'']"

text \<open>The loop body of \<open>scanProcessInstances\<close>; the tenant is not read.\<close>

definition scanProcessInstance :: "sqlVal list \<Rightarrow> sqlError + ProcessInstance" where
  "scanProcessInstance row = (case row of
     [SText i, SText businessKey, SText defID, SText state, vars, STime startedAt, ended, SText parentPI, SText parentAct] \<Rightarrow>
       bindE (scanTime ended) (\<lambda>endedAt.
       bindE (scanVars vars) (\<lambda>vs.
       bindE (orBadRow (piStateOf state)) (\<lambda>st.
         Inr \<lparr>pi_ID = i, pi_ProcessDefinitionID = defID, pi_TenantID = '''', pi_BusinessKey = businessKey,
           pi_State = st, pi_Variables = vs, pi_StartedAt = startedAt, pi_EndedAt = endedAt,
           pi_ParentProcessInstanceID = parentPI, pi_ParentActivityID = parentAct\<rparr>)))
   | _ \<Rightarrow> Inl BadRow)"

definition sqlCreateProcessInstance :: "'db SqlStore \<Rightarrow> callContext \<Rightarrow> ProcessInstance \<Rightarrow> ('db, unit) sqlM" where
  "sqlCreateProcessInstance S c p = execAny S c
     (InsertInto ''process_instances''
       [''id'', ''def_id'', ''business_key'', ''tenant_id'', ''state'', ''variables'', ''started_at'',
        ''parent_process_instance_id'', ''parent_activity_id'']
       [SText (pi_ID p), SText (pi_ProcessDefinitionID p), SText (pi_BusinessKey p), SText (pi_TenantID p),
        SText (piStateString (pi_State p)), SJson (varsToJson (pi_Variables p)), STime (pi_StartedAt p),
        SText (pi_ParentProcessInstanceID p), SText (pi_ParentActivityID p)])"

definition sqlUpdateProcessInstance :: "'db SqlStore \<Rightarrow> callContext \<Rightarrow> ProcessInstance \<Rightarrow> ('db, unit) sqlM" where
  "sqlUpdateProcessInstance S c p = execOne S c
     (UpdateSet ''process_instances''
       [SetTo ''state'' (SText (piStateString (pi_State p))), SetTo ''variables'' (SJson (varsToJson (pi_Variables p))),
        SetTo ''ended_at'' (timeVal (pi_EndedAt p))]
       [ColEq ''id'' (SText (pi_ID p))]) (pi_ID p)"

text \<open>\<open>GetProcessInstance\<close> selects the same columns but the identifier, which it takes from its argument.\<close>

definition sqlGetProcessInstance :: "'db SqlStore \<Rightarrow> callContext \<Rightarrow> string \<Rightarrow> ('db, ProcessInstance) sqlM" where
  "sqlGetProcessInstance S c i = queryRowContext S c
     (selectFrom (tl instanceColumns) ''process_instances'' [ColEq ''id'' (SText i)]) i
     (\<lambda>row. scanProcessInstance (SText i # row))"

definition sqlListProcessInstances :: "'db SqlStore \<Rightarrow> callContext \<Rightarrow> string \<Rightarrow> ('db, ProcessInstance list) sqlM" where
  "sqlListProcessInstances S c defID = queryRows S c
     (selectFrom instanceColumns ''process_instances'' [ColEq ''def_id'' (SText defID)]) scanProcessInstance"

definition sqlListCompletedProcessInstances ::
  "'db SqlStore \<Rightarrow> callContext \<Rightarrow> int \<Rightarrow> ('db, ProcessInstance list) sqlM" where
  "sqlListCompletedProcessInstances S c limit = queryRows S c
     ((selectFrom instanceColumns ''process_instances'' [ColEq ''state'' (SText ''completed'')])
        \<lparr>q_order := Some (''ended_at'', True), q_limit := Some limit\<rparr>) scanProcessInstance"

section \<open>Activity instances\<close>

definition activityColumns :: "string list" where
  "activityColumns = [''id'', ''process_instance_id'', ''activity_id'', ''activity_type'', ''assignee'', ''adhoc_parent_id'',
     ''state'', ''claim_time'', ''completed_time'', ''multi_instance_loop'', ''loop_counter'', ''expire_time'', ''term_mode'',
     ''lock_version'']"

text \<open>The loop body of \<open>scanActivityInstances\<close>; the tenant is not read.\<close>

definition scanActivityInstance :: "sqlVal list \<Rightarrow> sqlError + ActivityInstance" where
  "scanActivityInstance row = (case row of
     [SText i, SText piID, SText activityID, SText activityType, SText assignee, SText adhocParent, SText state,
      claim, completed, SText loopID, SInt loopCounter, expire, SInt termMode, SInt lockVersion] \<Rightarrow>
       bindE (scanTime claim) (\<lambda>claimTime.
       bindE (scanTime completed) (\<lambda>completedTime.
       bindE (scanTime expire) (\<lambda>expireTime.
       bindE (orBadRow (actStateOf state)) (\<lambda>st.
         Inr \<lparr>ai_ID = i, ai_ProcessInstanceID = piID, ai_TenantID = '''', ai_ActivityID = activityID,
           ai_ActivityType = elementTypeOf activityType, ai_State = st, ai_Assignee = assignee,
           ai_ClaimTime = claimTime, ai_CompletedTime = completedTime, ai_MultiInstanceLoopID = loopID,
           ai_LoopCounter = loopCounter, ai_AdhocParentID = adhocParent, ai_LockVersion = lockVersion,
           ai_ExpireTime = expireTime, ai_TermMode = termMode\<rparr>))))
   | _ \<Rightarrow> Inl BadRow)"

text \<open>The claim and completion times and the lock version are left to the defaults of the columns.\<close>

definition sqlCreateActivityInstance :: "'db SqlStore \<Rightarrow> callContext \<Rightarrow> ActivityInstance \<Rightarrow> ('db, unit) sqlM" where
  "sqlCreateActivityInstance S c ai = execAny S c
     (InsertInto ''activity_instances''
       [''id'', ''process_instance_id'', ''tenant_id'', ''activity_id'', ''activity_type'', ''assignee'', ''adhoc_parent_id'',
        ''state'', ''multi_instance_loop'', ''loop_counter'', ''expire_time'', ''term_mode'']
       (dl_activityArgs (dialect S) ai))"

definition sqlUpdateActivityInstance :: "'db SqlStore \<Rightarrow> callContext \<Rightarrow> ActivityInstance \<Rightarrow> ('db, unit) sqlM" where
  "sqlUpdateActivityInstance S c ai = execOne S c
     (UpdateSet ''activity_instances''
       [SetTo ''state'' (SText (actStateString (ai_State ai))), SetTo ''assignee'' (SText (ai_Assignee ai)),
        SetTo ''adhoc_parent_id'' (SText (ai_AdhocParentID ai)), SetTo ''claim_time'' (timeVal (ai_ClaimTime ai)),
        SetTo ''completed_time'' (timeVal (ai_CompletedTime ai)),
        SetTo ''multi_instance_loop'' (SText (ai_MultiInstanceLoopID ai)),
        SetTo ''loop_counter'' (SInt (ai_LoopCounter ai)), SetTo ''expire_time'' (timeVal (ai_ExpireTime ai)),
        SetTo ''term_mode'' (SInt (ai_TermMode ai)), Increment ''lock_version'']
       [ColEq ''id'' (SText (ai_ID ai)), ColEq ''lock_version'' (SInt (ai_LockVersion ai))]) (ai_ID ai)"

definition sqlGetActivityInstance :: "'db SqlStore \<Rightarrow> callContext \<Rightarrow> string \<Rightarrow> ('db, ActivityInstance) sqlM" where
  "sqlGetActivityInstance S c i = queryRowContext S c
     (selectFrom activityColumns ''activity_instances'' [ColEq ''id'' (SText i)]) i scanActivityInstance"

definition sqlListActiveActivities :: "'db SqlStore \<Rightarrow> callContext \<Rightarrow> string \<Rightarrow> ('db, ActivityInstance list) sqlM" where
  "sqlListActiveActivities S c piID = queryRows S c
     (selectFrom activityColumns ''activity_instances''
        [ColEq ''process_instance_id'' (SText piID), ColEq ''state'' (SText ''active'')]) scanActivityInstance"

definition sqlListActivitiesByProcessInstance ::
  "'db SqlStore \<Rightarrow> callContext \<Rightarrow> string \<Rightarrow> ('db, ActivityInstance list) sqlM" where
  "sqlListActivitiesByProcessInstance S c piID = queryRows S c
     (selectFrom activityColumns ''activity_instances'' [ColEq ''process_instance_id'' (SText piID)]) scanActivityInstance"

definition sqlListActivitiesByLoopID ::
  "'db SqlStore \<Rightarrow> callContext \<Rightarrow> string \<Rightarrow> string \<Rightarrow> ('db, ActivityInstance list) sqlM" where
  "sqlListActivitiesByLoopID S c piID loopID = queryRows S c
     (selectFrom activityColumns ''activity_instances''
        [ColEq ''process_instance_id'' (SText piID), ColEq ''multi_instance_loop'' (SText loopID)]) scanActivityInstance"

section \<open>Tokens\<close>

definition tokenColumns :: "string list" where
  "tokenColumns = [''id'', ''process_instance_id'', ''current_element_id'', ''state'', ''lock_version'', ''created_at'']"

text \<open>The loop body of \<open>scanTokens\<close>; the tenant has no column.\<close>

definition scanToken :: "sqlVal list \<Rightarrow> sqlError + Token" where
  "scanToken row = (case row of
     [SText i, SText piID, SText elemID, SText state, SInt lockVersion, STime createdAt] \<Rightarrow>
       bindE (orBadRow (tokStateOf state)) (\<lambda>st.
         Inr \<lparr>tok_ID = i, tok_ProcessInstanceID = piID, tok_TenantID = '''', tok_CurrentElementID = elemID,
           tok_State = st, tok_LockVersion = lockVersion, tok_CreatedAt = createdAt\<rparr>)
   | _ \<Rightarrow> Inl BadRow)"

text \<open>The creation time is left to the default of its column.\<close>

definition sqlCreateToken :: "'db SqlStore \<Rightarrow> callContext \<Rightarrow> Token \<Rightarrow> ('db, unit) sqlM" where
  "sqlCreateToken S c t = execAny S c
     (InsertInto ''tokens'' [''id'', ''process_instance_id'', ''current_element_id'', ''state'']
       [SText (tok_ID t), SText (tok_ProcessInstanceID t), SText (tok_CurrentElementID t),
        SText (tokStateString (tok_State t))])"

definition sqlUpdateToken :: "'db SqlStore \<Rightarrow> callContext \<Rightarrow> Token \<Rightarrow> ('db, unit) sqlM" where
  "sqlUpdateToken S c t = execOne S c
     (UpdateSet ''tokens''
       [SetTo ''current_element_id'' (SText (tok_CurrentElementID t)),
        SetTo ''state'' (SText (tokStateString (tok_State t))), Increment ''lock_version'']
       [ColEq ''id'' (SText (tok_ID t)), ColEq ''lock_version'' (SInt (tok_LockVersion t))]) (tok_ID t)"

definition sqlGetToken :: "'db SqlStore \<Rightarrow> callContext \<Rightarrow> string \<Rightarrow> ('db, Token) sqlM" where
  "sqlGetToken S c i = queryRowContext S c
     (selectFrom tokenColumns ''tokens'' [ColEq ''id'' (SText i)]) i scanToken"

definition sqlListActiveTokens :: "'db SqlStore \<Rightarrow> callContext \<Rightarrow> string \<Rightarrow> ('db, Token list) sqlM" where
  "sqlListActiveTokens S c piID = queryRows S c
     (selectFrom tokenColumns ''tokens''
        [ColEq ''process_instance_id'' (SText piID), ColEq ''state'' (SText ''active'')]) scanToken"

definition sqlDeleteToken :: "'db SqlStore \<Rightarrow> callContext \<Rightarrow> string \<Rightarrow> ('db, unit) sqlM" where
  "sqlDeleteToken S c i = execOne S c (DeleteFrom ''tokens'' [ColEq ''id'' (SText i)]) i"

section \<open>Variables\<close>

definition sqlSetVariable :: "'db SqlStore \<Rightarrow> callContext \<Rightarrow> string \<Rightarrow> string \<Rightarrow> gval \<Rightarrow> ('db, unit) sqlM" where
  "sqlSetVariable S c piID name v = execAny S c
     (Upsert ''variables'' [''process_instance_id'', ''name'', ''value'']
       [SText piID, SText name, SJson (toJson v)])"

definition scanValue :: "sqlVal \<Rightarrow> sqlError + gval" where
  "scanValue v = (case v of SJson j \<Rightarrow> Inr (fromJson j) | _ \<Rightarrow> Inl BadRow)"

definition sqlGetVariable :: "'db SqlStore \<Rightarrow> callContext \<Rightarrow> string \<Rightarrow> string \<Rightarrow> ('db, gval) sqlM" where
  "sqlGetVariable S c piID name = queryRowContext S c
     (selectFrom [''value''] ''variables'' [ColEq ''process_instance_id'' (SText piID), ColEq ''name'' (SText name)])
     name (\<lambda>row. case row of [v] \<Rightarrow> scanValue v | _ \<Rightarrow> Inl BadRow)"

definition scanNamed :: "sqlVal list \<Rightarrow> sqlError + (string \<times> gval)" where
  "scanNamed row = (case row of
     [SText name, v] \<Rightarrow> bindE (scanValue v) (\<lambda>x. Inr (name, x)) | _ \<Rightarrow> Inl BadRow)"

definition sqlGetAllVariables :: "'db SqlStore \<Rightarrow> callContext \<Rightarrow> string \<Rightarrow> ('db, vars) sqlM" where
  "sqlGetAllVariables S c piID = bindM
     (queryRows S c (selectFrom [''name'', ''value''] ''variables'' [ColEq ''process_instance_id'' (SText piID)]) scanNamed)
     (\<lambda>kvs. returnM (fold (\<lambda>(k, v). AList.update k v) kvs []))"

definition sqlDeleteVariable :: "'db SqlStore \<Rightarrow> callContext \<Rightarrow> string \<Rightarrow> string \<Rightarrow> ('db, unit) sqlM" where
  "sqlDeleteVariable S c piID name = execOne S c
     (DeleteFrom ''variables'' [ColEq ''process_instance_id'' (SText piID), ColEq ''name'' (SText name)]) name"

section \<open>History\<close>

definition historyColumns :: "string list" where
  "historyColumns = [''id'', ''process_instance_id'', ''activity_id'', ''activity_type'', ''variables'', ''started_at'', ''completed_at'']"

text \<open>The loop that reads history drops an error of \<open>json.Unmarshal\<close>.\<close>

definition scanHistory :: "sqlVal list \<Rightarrow> sqlError + HistoricActivityInstance" where
  "scanHistory row = (case row of
     [SText i, SText piID, SText actID, SText actType, vars, STime startedAt, STime completedAt] \<Rightarrow>
       Inr \<lparr>hai_ID = i, hai_ProcessInstanceID = piID, hai_TenantID = '''', hai_ActivityID = actID,
         hai_ActivityType = elementTypeOf actType,
         hai_Variables = (case scanVars vars of Inr vs \<Rightarrow> vs | Inl _ \<Rightarrow> []),
         hai_StartedAt = startedAt, hai_CompletedAt = completedAt\<rparr>
   | _ \<Rightarrow> Inl BadRow)"

definition sqlCreateHistoricActivityInstance ::
  "'db SqlStore \<Rightarrow> callContext \<Rightarrow> HistoricActivityInstance \<Rightarrow> ('db, unit) sqlM" where
  "sqlCreateHistoricActivityInstance S c h = execAny S c
     (InsertInto ''historic_activity_instances'' historyColumns
       [SText (hai_ID h), SText (hai_ProcessInstanceID h), SText (hai_ActivityID h),
        SText (elementTypeString (hai_ActivityType h)), SJson (varsToJson (hai_Variables h)),
        STime (hai_StartedAt h), STime (hai_CompletedAt h)])"

definition sqlListHistoricByProcessInstance ::
  "'db SqlStore \<Rightarrow> callContext \<Rightarrow> string \<Rightarrow> ('db, HistoricActivityInstance list) sqlM" where
  "sqlListHistoricByProcessInstance S c piID = queryRows S c
     (selectFrom historyColumns ''historic_activity_instances'' [ColEq ''process_instance_id'' (SText piID)]) scanHistory"

section \<open>Queries\<close>

text \<open>
  \<open>if q.X != "" { where += ... }\<close> for each field; then \<open>SELECT COUNT(*)\<close>, and unless that is zero the page.
\<close>

definition whenSet :: "string \<Rightarrow> cond \<Rightarrow> cond list" where
  "whenSet x p = (if x \<noteq> '''' then [p] else [])"

definition whenTime :: "int option \<Rightarrow> (sqlVal \<Rightarrow> cond) \<Rightarrow> cond list" where
  "whenTime t p = (case t of None \<Rightarrow> [] | Some i \<Rightarrow> [p (STime i)])"

definition scanCount :: "sqlVal list \<Rightarrow> sqlError + int" where
  "scanCount row = (case row of [SInt n] \<Rightarrow> Inr n | _ \<Rightarrow> Inl BadRow)"

definition queryPage ::
  "'db SqlStore \<Rightarrow> callContext \<Rightarrow> string list \<Rightarrow> string \<Rightarrow> cond list \<Rightarrow> string \<times> bool \<Rightarrow> int \<Rightarrow> int
    \<Rightarrow> (sqlVal list \<Rightarrow> sqlError + 'a) \<Rightarrow> ('db, 'a list \<times> int) sqlM" where
  "queryPage S c cols t conds order limit offset scan =
     bindM (queryRowContext S c (countFrom t conds) t scanCount) (\<lambda>count.
       if count = 0 then returnM ([], 0)
       else bindM (queryRows S c
              ((selectFrom cols t conds)\<lparr>q_order := Some order, q_limit := Some limit, q_offset := offset\<rparr>) scan)
            (\<lambda>xs. returnM (xs, count)))"

definition sqlQueryDefinitions ::
  "'db SqlStore \<Rightarrow> callContext \<Rightarrow> DefQuery \<Rightarrow> ('db, ProcessDefinition list \<times> int) sqlM" where
  "sqlQueryDefinitions S c q = queryPage S c [''data''] ''process_definitions''
     (whenSet (dq_Key q) (ColEq (dl_key (dialect S)) (SText (dq_Key q)))
      @ (if 0 < dq_Version q then [ColEq ''version'' (SInt (dq_Version q))] else [])
      @ whenSet (dq_TenantID q) (ColEq ''tenant_id'' (SText (dq_TenantID q)))
      @ whenSet (dq_Name q) (ColLike ''name'' (''%'' @ dq_Name q @ ''%'')))
     (''version'', True) (dq_Limit q) (dq_Offset q) deserializeProcessDefinition"

definition sqlQueryProcessInstances ::
  "'db SqlStore \<Rightarrow> callContext \<Rightarrow> InstQuery \<Rightarrow> ('db, ProcessInstance list \<times> int) sqlM" where
  "sqlQueryProcessInstances S c q = queryPage S c instanceColumns ''process_instances''
     (whenSet (iq_DefID q) (ColEq ''def_id'' (SText (iq_DefID q)))
      @ whenSet (iq_State q) (ColEq ''state'' (SText (iq_State q)))
      @ whenSet (iq_DefKey q)
          (ColIn ''def_id'' ''id'' ''process_definitions'' (ColEq (dl_key (dialect S)) (SText (iq_DefKey q))))
      @ whenSet (iq_TenantID q) (ColEq ''tenant_id'' (SText (iq_TenantID q)))
      @ whenSet (iq_Initiator q) (ColJson ''variables'' ''initiator'' (iq_Initiator q))
      @ whenTime (iq_StartAfter q) (ColAtLeast ''started_at'')
      @ whenTime (iq_StartBefore q) (ColAtMost ''started_at''))
     (''started_at'', True) (iq_Limit q) (iq_Offset q) scanProcessInstance"

definition sqlQueryActivities ::
  "'db SqlStore \<Rightarrow> callContext \<Rightarrow> ActQuery \<Rightarrow> ('db, ActivityInstance list \<times> int) sqlM" where
  "sqlQueryActivities S c q = queryPage S c activityColumns ''activity_instances''
     (whenSet (aq_ProcessInstanceID q) (ColEq ''process_instance_id'' (SText (aq_ProcessInstanceID q)))
      @ whenSet (aq_Assignee q) (ColEq ''assignee'' (SText (aq_Assignee q)))
      @ whenSet (aq_ActivityID q) (ColEq ''activity_id'' (SText (aq_ActivityID q)))
      @ whenSet (aq_ActivityType q) (ColEq ''activity_type'' (SText (aq_ActivityType q)))
      @ whenSet (aq_State q) (ColEq ''state'' (SText (aq_State q)))
      @ whenSet (aq_TenantID q) (ColEq ''tenant_id'' (SText (aq_TenantID q)))
      @ (case aq_IsSign q of None \<Rightarrow> []
         | Some b \<Rightarrow> [if b then ColNe ''adhoc_parent_id'' (SText '''') else ColEq ''adhoc_parent_id'' (SText '''')]))
     (''claim_time'', False) (aq_Limit q) (aq_Offset q) scanActivityInstance"

definition sqlQueryHistoricActivities ::
  "'db SqlStore \<Rightarrow> callContext \<Rightarrow> HistQuery \<Rightarrow> ('db, HistoricActivityInstance list \<times> int) sqlM" where
  "sqlQueryHistoricActivities S c q = queryPage S c historyColumns ''historic_activity_instances''
     (whenSet (hq_ProcessInstanceID q) (ColEq ''process_instance_id'' (SText (hq_ProcessInstanceID q)))
      @ whenSet (hq_ActivityID q) (ColEq ''activity_id'' (SText (hq_ActivityID q)))
      @ whenSet (hq_Assignee q) (ColJson ''variables'' ''assignee'' (hq_Assignee q))
      @ whenSet (hq_TenantID q) (ColEq ''tenant_id'' (SText (hq_TenantID q)))
      @ whenTime (hq_CompletedAfter q) (ColAtLeast ''completed_at'')
      @ whenTime (hq_CompletedBefore q) (ColAtMost ''completed_at''))
     (''completed_at'', True) (hq_Limit q) (hq_Offset q) scanHistory"

section \<open>Timer jobs and signal subscriptions\<close>

definition timerColumns :: "string list" where
  "timerColumns = [''id'', ''process_instance_id'', ''element_id'', ''due_at'', ''fired'']"

definition scanTimerJob :: "sqlVal list \<Rightarrow> sqlError + TimerJob" where
  "scanTimerJob row = (case row of
     [SText i, SText piID, SText elemID, STime due, fired] \<Rightarrow>
       bindE (scanBool fired) (\<lambda>b. Inr \<lparr>tj_ID = i, tj_ProcessInstanceID = piID, tj_TenantID = '''',
         tj_ElementID = elemID, tj_DueAt = due, tj_Fired = b\<rparr>)
   | _ \<Rightarrow> Inl BadRow)"

definition sqlCreateTimerJob :: "'db SqlStore \<Rightarrow> callContext \<Rightarrow> TimerJob \<Rightarrow> ('db, unit) sqlM" where
  "sqlCreateTimerJob S c job = execAny S c (InsertInto ''timer_jobs'' timerColumns
     [SText (tj_ID job), SText (tj_ProcessInstanceID job), SText (tj_ElementID job), STime (tj_DueAt job), SBool (tj_Fired job)])"

definition sqlUpdateTimerJob :: "'db SqlStore \<Rightarrow> callContext \<Rightarrow> TimerJob \<Rightarrow> ('db, unit) sqlM" where
  "sqlUpdateTimerJob S c job = execAny S c (UpdateSet ''timer_jobs''
     [SetTo ''due_at'' (STime (tj_DueAt job)), SetTo ''fired'' (SBool (tj_Fired job))] [ColEq ''id'' (SText (tj_ID job))])"

definition sqlListDueTimerJobs :: "'db SqlStore \<Rightarrow> callContext \<Rightarrow> int \<Rightarrow> ('db, TimerJob list) sqlM" where
  "sqlListDueTimerJobs S c before = queryRows S c (selectFrom timerColumns ''timer_jobs''
     [ColEq ''fired'' (dl_notFired (dialect S)), ColBelow ''due_at'' (STime before)]) scanTimerJob"

definition sqlDeleteTimerJob :: "'db SqlStore \<Rightarrow> callContext \<Rightarrow> string \<Rightarrow> ('db, unit) sqlM" where
  "sqlDeleteTimerJob S c i = execAny S c (DeleteFrom ''timer_jobs'' [ColEq ''id'' (SText i)])"

definition sqlDeleteTimerJobsByInstance :: "'db SqlStore \<Rightarrow> callContext \<Rightarrow> string \<Rightarrow> ('db, unit) sqlM" where
  "sqlDeleteTimerJobsByInstance S c piID = execAny S c (DeleteFrom ''timer_jobs'' [ColEq ''process_instance_id'' (SText piID)])"

definition subscriptionColumns :: "string list" where
  "subscriptionColumns = [''id'', ''process_instance_id'', ''element_id'', ''signal_ref'']"

definition scanSubscription :: "sqlVal list \<Rightarrow> sqlError + SignalSubscription" where
  "scanSubscription row = (case row of
     [SText i, SText piID, SText elemID, SText ref] \<Rightarrow>
       Inr \<lparr>ss_ID = i, ss_ProcessInstanceID = piID, ss_TenantID = '''', ss_ElementID = elemID, ss_SignalRef = ref\<rparr>
   | _ \<Rightarrow> Inl BadRow)"

definition sqlCreateSignalSubscription :: "'db SqlStore \<Rightarrow> callContext \<Rightarrow> SignalSubscription \<Rightarrow> ('db, unit) sqlM" where
  "sqlCreateSignalSubscription S c sub = execAny S c (InsertInto ''signal_subscriptions'' subscriptionColumns
     [SText (ss_ID sub), SText (ss_ProcessInstanceID sub), SText (ss_ElementID sub), SText (ss_SignalRef sub)])"

definition sqlListSignalSubscriptions :: "'db SqlStore \<Rightarrow> callContext \<Rightarrow> string \<Rightarrow> ('db, SignalSubscription list) sqlM" where
  "sqlListSignalSubscriptions S c ref = queryRows S c
     (selectFrom subscriptionColumns ''signal_subscriptions'' [ColEq ''signal_ref'' (SText ref)]) scanSubscription"

definition sqlDeleteSignalSubscription :: "'db SqlStore \<Rightarrow> callContext \<Rightarrow> string \<Rightarrow> ('db, unit) sqlM" where
  "sqlDeleteSignalSubscription S c i = execAny S c (DeleteFrom ''signal_subscriptions'' [ColEq ''id'' (SText i)])"

definition sqlDeleteSubscriptionsByInstance :: "'db SqlStore \<Rightarrow> callContext \<Rightarrow> string \<Rightarrow> ('db, unit) sqlM" where
  "sqlDeleteSubscriptionsByInstance S c piID = execAny S c
     (DeleteFrom ''signal_subscriptions'' [ColEq ''process_instance_id'' (SText piID)])"

end
