(* ===== verification/SqlDialects.thy ===== *)
theory SqlDialects imports SqlStore begin

text \<open>
  The three SQL stores: what \<open>init\<close> creates, the dialect of each, and the operations of the PostgreSQL and the MySQL store,
  which are those of \<open>SqlStore\<close> in their dialect.
\<close>

text \<open>The columns most tables share.\<close>

definition texts :: "columnType \<Rightarrow> string list \<Rightarrow> sqlColumn list" where
  "texts t names = map (\<lambda>n. column n t Required) names"

definition emptyTexts :: "columnType \<Rightarrow> string list \<Rightarrow> sqlColumn list" where
  "emptyTexts t names = map (\<lambda>n. column n t (DefaultTo (SText ''''))) names"

definition tableWith :: "string list \<Rightarrow> sqlColumn list \<Rightarrow> sqlTable" where
  "tableWith k cols = \<lparr>tb_columns = cols, tb_key = k\<rparr>"

section \<open>SQLite\<close>

text \<open>
  Integers of 64 bits, which also take a boolean; texts of any length; times to the nanosecond.
\<close>

definition sqliteSchema :: sqlSchema where
  "sqliteSchema = (let text = TextType None; int = IntType 64 True; time = TimeType 1 in
   \<lparr>sc_tables =
      [(''process_definitions'', tableWith [''id'']
          (texts text [''id''] @ emptyTexts text [''name'', ''key'']
           @ [column ''version'' int (DefaultTo (SInt 1)), column ''data'' BlobType Required,
              column ''created_at'' time CurrentTime])),
       (''process_instances'', tableWith [''id'']
          (texts text [''id'', ''def_id''] @ emptyTexts text [''business_key'', ''tenant_id'']
           @ [column ''state'' text (DefaultTo (SText ''running'')),
              column ''variables'' text (DefaultTo (SJson (JObject []))),
              column ''started_at'' time Required, column ''ended_at'' time Nullable]
           @ emptyTexts text [''parent_process_instance_id'', ''parent_activity_id''])),
       (''activity_instances'', tableWith [''id'']
          (texts text [''id'', ''process_instance_id''] @ emptyTexts text [''tenant_id'']
           @ texts text [''activity_id'', ''activity_type''] @ emptyTexts text [''assignee'', ''adhoc_parent_id'']
           @ [column ''state'' text (DefaultTo (SText ''active'')),
              column ''claim_time'' time Nullable, column ''completed_time'' time Nullable]
           @ emptyTexts text [''multi_instance_loop'']
           @ [column ''loop_counter'' int (DefaultTo (SInt 0)), column ''expire_time'' time Nullable,
              column ''lock_version'' int (DefaultTo (SInt 0)), column ''term_mode'' int (DefaultTo (SInt 0))])),
       (''tokens'', tableWith [''id'']
          (texts text [''id'', ''process_instance_id'', ''current_element_id'']
           @ [column ''lock_version'' int (DefaultTo (SInt 0)),
              column ''state'' text (DefaultTo (SText ''active'')), column ''created_at'' time CurrentTime])),
       (''variables'', tableWith [''process_instance_id'', ''name'']
          (texts text [''process_instance_id'', ''name''] @ emptyTexts text [''value''])),
       (''historic_activity_instances'', tableWith [''id'']
          (texts text [''id'', ''process_instance_id'', ''activity_id'', ''activity_type'']
           @ [column ''variables'' text (DefaultTo (SJson (JObject []))),
              column ''started_at'' time Nullable, column ''completed_at'' time Nullable])),
       (''timer_jobs'', tableWith [''id'']
          (texts text [''id'', ''process_instance_id'', ''element_id'']
           @ [column ''due_at'' time Required, column ''fired'' int (DefaultTo (SInt 0))])),
       (''signal_subscriptions'', tableWith [''id'']
          (texts text [''id'', ''process_instance_id'', ''element_id'', ''signal_ref'']))],
    sc_sameText = (=), sc_countsFound = True\<rparr>)"

definition sqliteActivityArgs :: "ActivityInstance \<Rightarrow> sqlVal list" where
  "sqliteActivityArgs ai = [SText (ai_ID ai), SText (ai_ProcessInstanceID ai), SText (ai_TenantID ai),
     SText (ai_ActivityID ai), SText (elementTypeString (ai_ActivityType ai)), SText (ai_Assignee ai),
     SText (ai_AdhocParentID ai), SText (actStateString (ai_State ai)), SText (ai_MultiInstanceLoopID ai),
     SInt (ai_LoopCounter ai), timeVal (ai_ExpireTime ai), SInt (ai_TermMode ai)]"

definition sqliteDialect :: dialect where
  "sqliteDialect = \<lparr>dl_key = ''key'', dl_activityArgs = sqliteActivityArgs, dl_notFired = SInt 0\<rparr>"

definition sqliteStore :: "'db Database \<Rightarrow> 'db SqlStore" where
  "sqliteStore D = \<lparr>db = D, dialect = sqliteDialect\<rparr>"

section \<open>PostgreSQL\<close>

text \<open>
  Integers of 32 bits that take no boolean, times to the microsecond, documents as JSONB. There is no
  \<open>tenant_id\<close> among the columns of the process instances.
\<close>

definition pgSchema :: sqlSchema where
  "pgSchema = (let text = TextType None; int = IntType 32 False; time = TimeType 1000 in
   \<lparr>sc_tables =
      [(''process_definitions'', tableWith [''id'']
          (texts text [''id''] @ emptyTexts text [''name'', ''key'']
           @ [column ''version'' int (DefaultTo (SInt 1)), column ''data'' BlobType Required,
              column ''created_at'' time CurrentTime])),
       (''process_instances'', tableWith [''id'']
          (texts text [''id'', ''def_id''] @ emptyTexts text [''business_key'']
           @ [column ''state'' text (DefaultTo (SText ''running'')),
              column ''variables'' JsonType (DefaultTo (SJson (JObject []))),
              column ''started_at'' time Required, column ''ended_at'' time Nullable]
           @ emptyTexts text [''parent_process_instance_id'', ''parent_activity_id''])),
       (''activity_instances'', tableWith [''id'']
          (texts text [''id'', ''process_instance_id''] @ emptyTexts text [''tenant_id'']
           @ texts text [''activity_id'', ''activity_type''] @ emptyTexts text [''assignee'', ''adhoc_parent_id'']
           @ [column ''state'' text (DefaultTo (SText ''active'')),
              column ''claim_time'' time Nullable, column ''completed_time'' time Nullable]
           @ emptyTexts text [''multi_instance_loop'']
           @ [column ''loop_counter'' int (DefaultTo (SInt 0)), column ''expire_time'' time Nullable,
              column ''lock_version'' int (DefaultTo (SInt 0)), column ''term_mode'' int (DefaultTo (SInt 0))])),
       (''tokens'', tableWith [''id'']
          (texts text [''id'', ''process_instance_id'', ''current_element_id'']
           @ [column ''lock_version'' int (DefaultTo (SInt 0)),
              column ''state'' text (DefaultTo (SText ''active'')), column ''created_at'' time CurrentTime])),
       (''variables'', tableWith [''process_instance_id'', ''name'']
          (texts text [''process_instance_id'', ''name''] @ [column ''value'' JsonType (DefaultTo (SJson JNull))])),
       (''historic_activity_instances'', tableWith [''id'']
          (texts text [''id'', ''process_instance_id'', ''activity_id'', ''activity_type'']
           @ [column ''variables'' JsonType (DefaultTo (SJson (JObject []))),
              column ''started_at'' time Nullable, column ''completed_at'' time Nullable])),
       (''timer_jobs'', tableWith [''id'']
          (texts text [''id'', ''process_instance_id'', ''element_id'']
           @ [column ''due_at'' time Required, column ''fired'' int (DefaultTo (SInt 0))])),
       (''signal_subscriptions'', tableWith [''id'']
          (texts text [''id'', ''process_instance_id'', ''element_id'', ''signal_ref'']))],
    sc_sameText = (=), sc_countsFound = True\<rparr>)"

text \<open>The tenant comes after the identifier and the type of the activity, but its column comes before theirs.\<close>

definition pgActivityArgs :: "ActivityInstance \<Rightarrow> sqlVal list" where
  "pgActivityArgs ai = [SText (ai_ID ai), SText (ai_ProcessInstanceID ai), SText (ai_ActivityID ai),
     SText (elementTypeString (ai_ActivityType ai)), SText (ai_TenantID ai), SText (ai_Assignee ai),
     SText (ai_AdhocParentID ai), SText (actStateString (ai_State ai)), SText (ai_MultiInstanceLoopID ai),
     SInt (ai_LoopCounter ai), timeVal (ai_ExpireTime ai), SInt (ai_TermMode ai)]"

definition pgDialect :: dialect where
  "pgDialect = \<lparr>dl_key = ''key'', dl_activityArgs = pgActivityArgs, dl_notFired = SBool False\<rparr>"

definition pgStore :: "'db Database \<Rightarrow> 'db SqlStore" where
  "pgStore D = \<lparr>db = D, dialect = pgDialect\<rparr>"

definition pgRunInTransaction :: "'db Database \<Rightarrow> callContext \<Rightarrow> (callContext \<Rightarrow> ('db, unit) sqlM) \<Rightarrow> ('db, unit) sqlM" where
  "pgRunInTransaction D = sqlRunInTransaction (pgStore D)"

definition pgCreateProcessDefinition :: "'db Database \<Rightarrow> callContext \<Rightarrow> order \<Rightarrow> ProcessDefinition \<Rightarrow> ('db, unit) sqlM" where
  "pgCreateProcessDefinition D = sqlCreateProcessDefinition (pgStore D)"

definition pgGetProcessDefinition :: "'db Database \<Rightarrow> callContext \<Rightarrow> string \<Rightarrow> ('db, ProcessDefinition) sqlM" where
  "pgGetProcessDefinition D = sqlGetProcessDefinition (pgStore D)"

definition pgGetProcessDefinitionByKeyVersion :: "'db Database \<Rightarrow> callContext \<Rightarrow> string \<Rightarrow> int \<Rightarrow> ('db, ProcessDefinition) sqlM" where
  "pgGetProcessDefinitionByKeyVersion D = sqlGetProcessDefinitionByKeyVersion (pgStore D)"

definition pgListProcessDefinitions :: "'db Database \<Rightarrow> callContext \<Rightarrow> ('db, ProcessDefinition list) sqlM" where
  "pgListProcessDefinitions D = sqlListProcessDefinitions (pgStore D)"

definition pgDeleteProcessDefinition :: "'db Database \<Rightarrow> callContext \<Rightarrow> string \<Rightarrow> ('db, unit) sqlM" where
  "pgDeleteProcessDefinition D = sqlDeleteProcessDefinition (pgStore D)"

definition pgGetLatestProcessDefinitionByKey :: "'db Database \<Rightarrow> callContext \<Rightarrow> string \<Rightarrow> ('db, ProcessDefinition) sqlM" where
  "pgGetLatestProcessDefinitionByKey D = sqlGetLatestProcessDefinitionByKey (pgStore D)"

definition pgCreateProcessInstance :: "'db Database \<Rightarrow> callContext \<Rightarrow> ProcessInstance \<Rightarrow> ('db, unit) sqlM" where
  "pgCreateProcessInstance D = sqlCreateProcessInstance (pgStore D)"

definition pgUpdateProcessInstance :: "'db Database \<Rightarrow> callContext \<Rightarrow> ProcessInstance \<Rightarrow> ('db, unit) sqlM" where
  "pgUpdateProcessInstance D = sqlUpdateProcessInstance (pgStore D)"

definition pgGetProcessInstance :: "'db Database \<Rightarrow> callContext \<Rightarrow> string \<Rightarrow> ('db, ProcessInstance) sqlM" where
  "pgGetProcessInstance D = sqlGetProcessInstance (pgStore D)"

definition pgListProcessInstances :: "'db Database \<Rightarrow> callContext \<Rightarrow> string \<Rightarrow> ('db, ProcessInstance list) sqlM" where
  "pgListProcessInstances D = sqlListProcessInstances (pgStore D)"

definition pgListCompletedProcessInstances :: "'db Database \<Rightarrow> callContext \<Rightarrow> int \<Rightarrow> ('db, ProcessInstance list) sqlM" where
  "pgListCompletedProcessInstances D = sqlListCompletedProcessInstances (pgStore D)"

definition pgCreateActivityInstance :: "'db Database \<Rightarrow> callContext \<Rightarrow> ActivityInstance \<Rightarrow> ('db, unit) sqlM" where
  "pgCreateActivityInstance D = sqlCreateActivityInstance (pgStore D)"

definition pgUpdateActivityInstance :: "'db Database \<Rightarrow> callContext \<Rightarrow> ActivityInstance \<Rightarrow> ('db, unit) sqlM" where
  "pgUpdateActivityInstance D = sqlUpdateActivityInstance (pgStore D)"

definition pgGetActivityInstance :: "'db Database \<Rightarrow> callContext \<Rightarrow> string \<Rightarrow> ('db, ActivityInstance) sqlM" where
  "pgGetActivityInstance D = sqlGetActivityInstance (pgStore D)"

definition pgListActiveActivities :: "'db Database \<Rightarrow> callContext \<Rightarrow> string \<Rightarrow> ('db, ActivityInstance list) sqlM" where
  "pgListActiveActivities D = sqlListActiveActivities (pgStore D)"

definition pgListActivitiesByProcessInstance :: "'db Database \<Rightarrow> callContext \<Rightarrow> string \<Rightarrow> ('db, ActivityInstance list) sqlM" where
  "pgListActivitiesByProcessInstance D = sqlListActivitiesByProcessInstance (pgStore D)"

definition pgListActivitiesByLoopID :: "'db Database \<Rightarrow> callContext \<Rightarrow> string \<Rightarrow> string \<Rightarrow> ('db, ActivityInstance list) sqlM" where
  "pgListActivitiesByLoopID D = sqlListActivitiesByLoopID (pgStore D)"

definition pgCreateToken :: "'db Database \<Rightarrow> callContext \<Rightarrow> Token \<Rightarrow> ('db, unit) sqlM" where
  "pgCreateToken D = sqlCreateToken (pgStore D)"

definition pgUpdateToken :: "'db Database \<Rightarrow> callContext \<Rightarrow> Token \<Rightarrow> ('db, unit) sqlM" where
  "pgUpdateToken D = sqlUpdateToken (pgStore D)"

definition pgGetToken :: "'db Database \<Rightarrow> callContext \<Rightarrow> string \<Rightarrow> ('db, Token) sqlM" where
  "pgGetToken D = sqlGetToken (pgStore D)"

definition pgListActiveTokens :: "'db Database \<Rightarrow> callContext \<Rightarrow> string \<Rightarrow> ('db, Token list) sqlM" where
  "pgListActiveTokens D = sqlListActiveTokens (pgStore D)"

definition pgDeleteToken :: "'db Database \<Rightarrow> callContext \<Rightarrow> string \<Rightarrow> ('db, unit) sqlM" where
  "pgDeleteToken D = sqlDeleteToken (pgStore D)"

definition pgSetVariable :: "'db Database \<Rightarrow> callContext \<Rightarrow> string \<Rightarrow> string \<Rightarrow> gval \<Rightarrow> ('db, unit) sqlM" where
  "pgSetVariable D = sqlSetVariable (pgStore D)"

definition pgGetVariable :: "'db Database \<Rightarrow> callContext \<Rightarrow> string \<Rightarrow> string \<Rightarrow> ('db, gval) sqlM" where
  "pgGetVariable D = sqlGetVariable (pgStore D)"

definition pgGetAllVariables :: "'db Database \<Rightarrow> callContext \<Rightarrow> string \<Rightarrow> ('db, vars) sqlM" where
  "pgGetAllVariables D = sqlGetAllVariables (pgStore D)"

definition pgDeleteVariable :: "'db Database \<Rightarrow> callContext \<Rightarrow> string \<Rightarrow> string \<Rightarrow> ('db, unit) sqlM" where
  "pgDeleteVariable D = sqlDeleteVariable (pgStore D)"

definition pgCreateHistoricActivityInstance :: "'db Database \<Rightarrow> callContext \<Rightarrow> HistoricActivityInstance \<Rightarrow> ('db, unit) sqlM" where
  "pgCreateHistoricActivityInstance D = sqlCreateHistoricActivityInstance (pgStore D)"

definition pgListHistoricByProcessInstance :: "'db Database \<Rightarrow> callContext \<Rightarrow> string \<Rightarrow> ('db, HistoricActivityInstance list) sqlM" where
  "pgListHistoricByProcessInstance D = sqlListHistoricByProcessInstance (pgStore D)"

definition pgQueryDefinitions :: "'db Database \<Rightarrow> callContext \<Rightarrow> DefQuery \<Rightarrow> ('db, ProcessDefinition list \<times> int) sqlM" where
  "pgQueryDefinitions D = sqlQueryDefinitions (pgStore D)"

definition pgQueryProcessInstances :: "'db Database \<Rightarrow> callContext \<Rightarrow> InstQuery \<Rightarrow> ('db, ProcessInstance list \<times> int) sqlM" where
  "pgQueryProcessInstances D = sqlQueryProcessInstances (pgStore D)"

definition pgQueryActivities :: "'db Database \<Rightarrow> callContext \<Rightarrow> ActQuery \<Rightarrow> ('db, ActivityInstance list \<times> int) sqlM" where
  "pgQueryActivities D = sqlQueryActivities (pgStore D)"

definition pgQueryHistoricActivities :: "'db Database \<Rightarrow> callContext \<Rightarrow> HistQuery \<Rightarrow> ('db, HistoricActivityInstance list \<times> int) sqlM" where
  "pgQueryHistoricActivities D = sqlQueryHistoricActivities (pgStore D)"

definition pgCreateTimerJob :: "'db Database \<Rightarrow> callContext \<Rightarrow> TimerJob \<Rightarrow> ('db, unit) sqlM" where
  "pgCreateTimerJob D = sqlCreateTimerJob (pgStore D)"

definition pgUpdateTimerJob :: "'db Database \<Rightarrow> callContext \<Rightarrow> TimerJob \<Rightarrow> ('db, unit) sqlM" where
  "pgUpdateTimerJob D = sqlUpdateTimerJob (pgStore D)"

definition pgListDueTimerJobs :: "'db Database \<Rightarrow> callContext \<Rightarrow> int \<Rightarrow> ('db, TimerJob list) sqlM" where
  "pgListDueTimerJobs D = sqlListDueTimerJobs (pgStore D)"

definition pgDeleteTimerJob :: "'db Database \<Rightarrow> callContext \<Rightarrow> string \<Rightarrow> ('db, unit) sqlM" where
  "pgDeleteTimerJob D = sqlDeleteTimerJob (pgStore D)"

definition pgDeleteTimerJobsByInstance :: "'db Database \<Rightarrow> callContext \<Rightarrow> string \<Rightarrow> ('db, unit) sqlM" where
  "pgDeleteTimerJobsByInstance D = sqlDeleteTimerJobsByInstance (pgStore D)"

definition pgCreateSignalSubscription :: "'db Database \<Rightarrow> callContext \<Rightarrow> SignalSubscription \<Rightarrow> ('db, unit) sqlM" where
  "pgCreateSignalSubscription D = sqlCreateSignalSubscription (pgStore D)"

definition pgListSignalSubscriptions :: "'db Database \<Rightarrow> callContext \<Rightarrow> string \<Rightarrow> ('db, SignalSubscription list) sqlM" where
  "pgListSignalSubscriptions D = sqlListSignalSubscriptions (pgStore D)"

definition pgDeleteSignalSubscription :: "'db Database \<Rightarrow> callContext \<Rightarrow> string \<Rightarrow> ('db, unit) sqlM" where
  "pgDeleteSignalSubscription D = sqlDeleteSignalSubscription (pgStore D)"

definition pgDeleteSubscriptionsByInstance :: "'db Database \<Rightarrow> callContext \<Rightarrow> string \<Rightarrow> ('db, unit) sqlM" where
  "pgDeleteSubscriptionsByInstance D = sqlDeleteSubscriptionsByInstance (pgStore D)"

section \<open>MySQL\<close>

text \<open>
  Texts of at most 255 or 50 characters, compared without regard to case (here for ASCII letters), integers of 32 bits,
  a \<open>TINYINT(1)\<close> for booleans, times to the microsecond; \<open>RowsAffected\<close> counts the rows that changed. The process
  instances have no \<open>tenant_id\<close>, the activity instances and the tokens no \<open>lock_version\<close>.
\<close>

definition mysqlSchema :: sqlSchema where
  "mysqlSchema = (let text = TextType (Some 255); word = TextType (Some 50); int = IntType 32 True; time = TimeType 1000 in
   \<lparr>sc_tables =
      [(''process_definitions'', tableWith [''id'']
          (texts text [''id''] @ emptyTexts text [''name'', ''key_col'']
           @ [column ''version'' int (DefaultTo (SInt 1)), column ''data'' BlobType Required,
              column ''created_at'' time CurrentTime])),
       (''process_instances'', tableWith [''id'']
          (texts text [''id'', ''def_id''] @ emptyTexts text [''business_key'']
           @ [column ''state'' word (DefaultTo (SText ''running'')), column ''variables'' JsonType Required,
              column ''started_at'' time Required, column ''ended_at'' time Nullable]
           @ emptyTexts text [''parent_process_instance_id'', ''parent_activity_id''])),
       (''activity_instances'', tableWith [''id'']
          (texts text [''id'', ''process_instance_id''] @ emptyTexts text [''tenant_id'']
           @ texts text [''activity_id''] @ texts word [''activity_type'']
           @ emptyTexts text [''assignee'', ''adhoc_parent_id'']
           @ [column ''state'' word (DefaultTo (SText ''active'')),
              column ''claim_time'' time Nullable, column ''completed_time'' time Nullable]
           @ emptyTexts text [''multi_instance_loop'']
           @ [column ''loop_counter'' int (DefaultTo (SInt 0)), column ''expire_time'' time Nullable,
              column ''term_mode'' int (DefaultTo (SInt 0))])),
       (''tokens'', tableWith [''id'']
          (texts text [''id'', ''process_instance_id'', ''current_element_id'']
           @ [column ''state'' word (DefaultTo (SText ''active'')), column ''created_at'' time CurrentTime])),
       (''variables'', tableWith [''process_instance_id'', ''name'']
          (texts text [''process_instance_id'', ''name''] @ [column ''value'' JsonType Required])),
       (''historic_activity_instances'', tableWith [''id'']
          (texts text [''id'', ''process_instance_id'', ''activity_id''] @ texts word [''activity_type'']
           @ [column ''variables'' JsonType Required,
              column ''started_at'' time Nullable, column ''completed_at'' time Nullable])),
       (''timer_jobs'', tableWith [''id'']
          (texts text [''id'', ''process_instance_id'', ''element_id'']
           @ [column ''due_at'' time Required, column ''fired'' (IntType 8 True) (DefaultTo (SInt 0))])),
       (''signal_subscriptions'', tableWith [''id'']
          (texts text [''id'', ''process_instance_id'', ''element_id'', ''signal_ref'']))],
    sc_sameText = (\<lambda>a b. asciiLower a = asciiLower b), sc_countsFound = False\<rparr>)"

definition mysqlActivityArgs :: "ActivityInstance \<Rightarrow> sqlVal list" where
  "mysqlActivityArgs ai = [SText (ai_ID ai), SText (ai_ProcessInstanceID ai), SText (ai_ActivityID ai),
     SText (elementTypeString (ai_ActivityType ai)), SText (ai_TenantID ai), SText (ai_Assignee ai),
     SText (ai_AdhocParentID ai), SText (actStateString (ai_State ai)), SText (ai_MultiInstanceLoopID ai),
     SInt (ai_LoopCounter ai), timeVal (ai_ExpireTime ai), SInt (ai_TermMode ai)]"

definition mysqlDialect :: dialect where
  "mysqlDialect = \<lparr>dl_key = ''key_col'', dl_activityArgs = mysqlActivityArgs, dl_notFired = SInt 0\<rparr>"

definition mysqlStore :: "'db Database \<Rightarrow> 'db SqlStore" where
  "mysqlStore D = \<lparr>db = D, dialect = mysqlDialect\<rparr>"

definition mysqlRunInTransaction :: "'db Database \<Rightarrow> callContext \<Rightarrow> (callContext \<Rightarrow> ('db, unit) sqlM) \<Rightarrow> ('db, unit) sqlM" where
  "mysqlRunInTransaction D = sqlRunInTransaction (mysqlStore D)"

definition mysqlCreateProcessDefinition :: "'db Database \<Rightarrow> callContext \<Rightarrow> order \<Rightarrow> ProcessDefinition \<Rightarrow> ('db, unit) sqlM" where
  "mysqlCreateProcessDefinition D = sqlCreateProcessDefinition (mysqlStore D)"

definition mysqlGetProcessDefinition :: "'db Database \<Rightarrow> callContext \<Rightarrow> string \<Rightarrow> ('db, ProcessDefinition) sqlM" where
  "mysqlGetProcessDefinition D = sqlGetProcessDefinition (mysqlStore D)"

definition mysqlGetProcessDefinitionByKeyVersion :: "'db Database \<Rightarrow> callContext \<Rightarrow> string \<Rightarrow> int \<Rightarrow> ('db, ProcessDefinition) sqlM" where
  "mysqlGetProcessDefinitionByKeyVersion D = sqlGetProcessDefinitionByKeyVersion (mysqlStore D)"

definition mysqlListProcessDefinitions :: "'db Database \<Rightarrow> callContext \<Rightarrow> ('db, ProcessDefinition list) sqlM" where
  "mysqlListProcessDefinitions D = sqlListProcessDefinitions (mysqlStore D)"

definition mysqlDeleteProcessDefinition :: "'db Database \<Rightarrow> callContext \<Rightarrow> string \<Rightarrow> ('db, unit) sqlM" where
  "mysqlDeleteProcessDefinition D = sqlDeleteProcessDefinition (mysqlStore D)"

definition mysqlGetLatestProcessDefinitionByKey :: "'db Database \<Rightarrow> callContext \<Rightarrow> string \<Rightarrow> ('db, ProcessDefinition) sqlM" where
  "mysqlGetLatestProcessDefinitionByKey D = sqlGetLatestProcessDefinitionByKey (mysqlStore D)"

definition mysqlCreateProcessInstance :: "'db Database \<Rightarrow> callContext \<Rightarrow> ProcessInstance \<Rightarrow> ('db, unit) sqlM" where
  "mysqlCreateProcessInstance D = sqlCreateProcessInstance (mysqlStore D)"

definition mysqlUpdateProcessInstance :: "'db Database \<Rightarrow> callContext \<Rightarrow> ProcessInstance \<Rightarrow> ('db, unit) sqlM" where
  "mysqlUpdateProcessInstance D = sqlUpdateProcessInstance (mysqlStore D)"

definition mysqlGetProcessInstance :: "'db Database \<Rightarrow> callContext \<Rightarrow> string \<Rightarrow> ('db, ProcessInstance) sqlM" where
  "mysqlGetProcessInstance D = sqlGetProcessInstance (mysqlStore D)"

definition mysqlListProcessInstances :: "'db Database \<Rightarrow> callContext \<Rightarrow> string \<Rightarrow> ('db, ProcessInstance list) sqlM" where
  "mysqlListProcessInstances D = sqlListProcessInstances (mysqlStore D)"

definition mysqlListCompletedProcessInstances :: "'db Database \<Rightarrow> callContext \<Rightarrow> int \<Rightarrow> ('db, ProcessInstance list) sqlM" where
  "mysqlListCompletedProcessInstances D = sqlListCompletedProcessInstances (mysqlStore D)"

definition mysqlCreateActivityInstance :: "'db Database \<Rightarrow> callContext \<Rightarrow> ActivityInstance \<Rightarrow> ('db, unit) sqlM" where
  "mysqlCreateActivityInstance D = sqlCreateActivityInstance (mysqlStore D)"

definition mysqlUpdateActivityInstance :: "'db Database \<Rightarrow> callContext \<Rightarrow> ActivityInstance \<Rightarrow> ('db, unit) sqlM" where
  "mysqlUpdateActivityInstance D = sqlUpdateActivityInstance (mysqlStore D)"

definition mysqlGetActivityInstance :: "'db Database \<Rightarrow> callContext \<Rightarrow> string \<Rightarrow> ('db, ActivityInstance) sqlM" where
  "mysqlGetActivityInstance D = sqlGetActivityInstance (mysqlStore D)"

definition mysqlListActiveActivities :: "'db Database \<Rightarrow> callContext \<Rightarrow> string \<Rightarrow> ('db, ActivityInstance list) sqlM" where
  "mysqlListActiveActivities D = sqlListActiveActivities (mysqlStore D)"

definition mysqlListActivitiesByProcessInstance :: "'db Database \<Rightarrow> callContext \<Rightarrow> string \<Rightarrow> ('db, ActivityInstance list) sqlM" where
  "mysqlListActivitiesByProcessInstance D = sqlListActivitiesByProcessInstance (mysqlStore D)"

definition mysqlListActivitiesByLoopID :: "'db Database \<Rightarrow> callContext \<Rightarrow> string \<Rightarrow> string \<Rightarrow> ('db, ActivityInstance list) sqlM" where
  "mysqlListActivitiesByLoopID D = sqlListActivitiesByLoopID (mysqlStore D)"

definition mysqlCreateToken :: "'db Database \<Rightarrow> callContext \<Rightarrow> Token \<Rightarrow> ('db, unit) sqlM" where
  "mysqlCreateToken D = sqlCreateToken (mysqlStore D)"

definition mysqlUpdateToken :: "'db Database \<Rightarrow> callContext \<Rightarrow> Token \<Rightarrow> ('db, unit) sqlM" where
  "mysqlUpdateToken D = sqlUpdateToken (mysqlStore D)"

definition mysqlGetToken :: "'db Database \<Rightarrow> callContext \<Rightarrow> string \<Rightarrow> ('db, Token) sqlM" where
  "mysqlGetToken D = sqlGetToken (mysqlStore D)"

definition mysqlListActiveTokens :: "'db Database \<Rightarrow> callContext \<Rightarrow> string \<Rightarrow> ('db, Token list) sqlM" where
  "mysqlListActiveTokens D = sqlListActiveTokens (mysqlStore D)"

definition mysqlDeleteToken :: "'db Database \<Rightarrow> callContext \<Rightarrow> string \<Rightarrow> ('db, unit) sqlM" where
  "mysqlDeleteToken D = sqlDeleteToken (mysqlStore D)"

definition mysqlSetVariable :: "'db Database \<Rightarrow> callContext \<Rightarrow> string \<Rightarrow> string \<Rightarrow> gval \<Rightarrow> ('db, unit) sqlM" where
  "mysqlSetVariable D = sqlSetVariable (mysqlStore D)"

definition mysqlGetVariable :: "'db Database \<Rightarrow> callContext \<Rightarrow> string \<Rightarrow> string \<Rightarrow> ('db, gval) sqlM" where
  "mysqlGetVariable D = sqlGetVariable (mysqlStore D)"

definition mysqlGetAllVariables :: "'db Database \<Rightarrow> callContext \<Rightarrow> string \<Rightarrow> ('db, vars) sqlM" where
  "mysqlGetAllVariables D = sqlGetAllVariables (mysqlStore D)"

definition mysqlDeleteVariable :: "'db Database \<Rightarrow> callContext \<Rightarrow> string \<Rightarrow> string \<Rightarrow> ('db, unit) sqlM" where
  "mysqlDeleteVariable D = sqlDeleteVariable (mysqlStore D)"

definition mysqlCreateHistoricActivityInstance :: "'db Database \<Rightarrow> callContext \<Rightarrow> HistoricActivityInstance \<Rightarrow> ('db, unit) sqlM" where
  "mysqlCreateHistoricActivityInstance D = sqlCreateHistoricActivityInstance (mysqlStore D)"

definition mysqlListHistoricByProcessInstance :: "'db Database \<Rightarrow> callContext \<Rightarrow> string \<Rightarrow> ('db, HistoricActivityInstance list) sqlM" where
  "mysqlListHistoricByProcessInstance D = sqlListHistoricByProcessInstance (mysqlStore D)"

definition mysqlQueryDefinitions :: "'db Database \<Rightarrow> callContext \<Rightarrow> DefQuery \<Rightarrow> ('db, ProcessDefinition list \<times> int) sqlM" where
  "mysqlQueryDefinitions D = sqlQueryDefinitions (mysqlStore D)"

definition mysqlQueryProcessInstances :: "'db Database \<Rightarrow> callContext \<Rightarrow> InstQuery \<Rightarrow> ('db, ProcessInstance list \<times> int) sqlM" where
  "mysqlQueryProcessInstances D = sqlQueryProcessInstances (mysqlStore D)"

definition mysqlQueryActivities :: "'db Database \<Rightarrow> callContext \<Rightarrow> ActQuery \<Rightarrow> ('db, ActivityInstance list \<times> int) sqlM" where
  "mysqlQueryActivities D = sqlQueryActivities (mysqlStore D)"

definition mysqlQueryHistoricActivities :: "'db Database \<Rightarrow> callContext \<Rightarrow> HistQuery \<Rightarrow> ('db, HistoricActivityInstance list \<times> int) sqlM" where
  "mysqlQueryHistoricActivities D = sqlQueryHistoricActivities (mysqlStore D)"

definition mysqlCreateTimerJob :: "'db Database \<Rightarrow> callContext \<Rightarrow> TimerJob \<Rightarrow> ('db, unit) sqlM" where
  "mysqlCreateTimerJob D = sqlCreateTimerJob (mysqlStore D)"

definition mysqlUpdateTimerJob :: "'db Database \<Rightarrow> callContext \<Rightarrow> TimerJob \<Rightarrow> ('db, unit) sqlM" where
  "mysqlUpdateTimerJob D = sqlUpdateTimerJob (mysqlStore D)"

definition mysqlListDueTimerJobs :: "'db Database \<Rightarrow> callContext \<Rightarrow> int \<Rightarrow> ('db, TimerJob list) sqlM" where
  "mysqlListDueTimerJobs D = sqlListDueTimerJobs (mysqlStore D)"

definition mysqlDeleteTimerJob :: "'db Database \<Rightarrow> callContext \<Rightarrow> string \<Rightarrow> ('db, unit) sqlM" where
  "mysqlDeleteTimerJob D = sqlDeleteTimerJob (mysqlStore D)"

definition mysqlDeleteTimerJobsByInstance :: "'db Database \<Rightarrow> callContext \<Rightarrow> string \<Rightarrow> ('db, unit) sqlM" where
  "mysqlDeleteTimerJobsByInstance D = sqlDeleteTimerJobsByInstance (mysqlStore D)"

definition mysqlCreateSignalSubscription :: "'db Database \<Rightarrow> callContext \<Rightarrow> SignalSubscription \<Rightarrow> ('db, unit) sqlM" where
  "mysqlCreateSignalSubscription D = sqlCreateSignalSubscription (mysqlStore D)"

definition mysqlListSignalSubscriptions :: "'db Database \<Rightarrow> callContext \<Rightarrow> string \<Rightarrow> ('db, SignalSubscription list) sqlM" where
  "mysqlListSignalSubscriptions D = sqlListSignalSubscriptions (mysqlStore D)"

definition mysqlDeleteSignalSubscription :: "'db Database \<Rightarrow> callContext \<Rightarrow> string \<Rightarrow> ('db, unit) sqlM" where
  "mysqlDeleteSignalSubscription D = sqlDeleteSignalSubscription (mysqlStore D)"

definition mysqlDeleteSubscriptionsByInstance :: "'db Database \<Rightarrow> callContext \<Rightarrow> string \<Rightarrow> ('db, unit) sqlM" where
  "mysqlDeleteSubscriptionsByInstance D = sqlDeleteSubscriptionsByInstance (mysqlStore D)"

end
