(* ===== verification/SqlLaws.thy ===== *)
theory SqlLaws imports SqlDialects begin

text \<open>
  The SQL stores over a database that keeps its promises. The rows of a table are the images of a list of entities; each
  operation is computed on that list and compared with the operation on a Go map of the memory store. The locale
  \<open>sqlite_entity\<close> holds this for one table of SQLite; the theories that follow interpret it for the tables one by one.
\<close>

declare runStmt.simps [simp del]

section \<open>Statements over tables of entities\<close>

lemma mapO_Done: "(\<And>x. x \<in> set xs \<Longrightarrow> f x = Done (g x)) \<Longrightarrow> mapO f xs = Done (map g xs)"
  by (induction xs) auto

lemma rowsOf_update [simp]: "rowsOf (AList.update t rs T) t' = (if t' = t then rs else rowsOf T t')"
  by (simp add: rowsOf_def)

lemma runInsert_value:
  assumes "map_of (sc_tables sc) t = Some tb" and "list_all (\<lambda>c. columnNamed tb c \<noteq> None) cols"
    and "length cols = length vals" and "newRow now tb cols vals = Done r"
  shows "runInsert now sc False t cols vals T =
     (if list_ex (sameKey sc tb r) (rowsOf T t) then Refused else Done (1, AList.update t (rowsOf T t @ [r]) T))"
  using assms by (simp add: runInsert_def insertRow_def Let_def)

lemma runUpsert_value:
  assumes "map_of (sc_tables sc) t = Some tb" and "list_all (\<lambda>c. columnNamed tb c \<noteq> None) cols"
    and "length cols = length vals" and "newRow now tb cols vals = Done r"
  shows "runInsert now sc True t cols vals T =
     Done (1, AList.update t (filter (\<lambda>r'. \<not> sameKey sc tb r r') (rowsOf T t) @ [r]) T)"
  using assms by (simp add: runInsert_def insertRow_def Let_def)

lemma zip_map_filter: "length (filter (\<lambda>(x, y). P x) (zip xs (map f xs))) = length (filter P xs)"
  by (induction xs) auto

lemma runUpdate_value:
  assumes tb: "map_of (sc_tables sc) t = Some tb" and rs: "rowsOf T t = map f xs"
    and known: "list_all (\<lambda>a. columnNamed tb (assigned a) \<noteq> None) asg" "list_all (condValid sc tb) conds"
    and plain: "\<not> list_ex (\<lambda>a. assigned a \<in> set (tb_key tb)) asg" "list_all (condPlain tb) conds"
    and found: "sc_countsFound sc"
    and P: "\<And>x. x \<in> set xs \<Longrightarrow> holdsAll sc T conds (f x) = P x"
    and g: "\<And>x. x \<in> set xs \<Longrightarrow> P x \<Longrightarrow> mapO (updateCell tb asg (f x)) (tb_columns tb) = Done (f (g x))"
  shows "runUpdate sc t asg conds T =
     Done (int (length (filter P xs)), AList.update t (map f (map (\<lambda>x. if P x then g x else x) xs)) T)"
proof -
  have "mapO (updateRow sc T tb asg conds) (map f xs) = Done (map f (map (\<lambda>x. if P x then g x else x) xs))"
    using P g by (induction xs) (auto simp: updateRow_def)
  moreover have "length (filter (\<lambda>(r, r'). holdsAll sc T conds r) (zip (map f xs) (map f (map (\<lambda>x. if P x then g x else x) xs))))
      = length (filter P xs)"
    using P by (induction xs) auto
  ultimately show ?thesis
    using tb rs known plain found by (simp add: runUpdate_def Let_def comp_def)
qed

lemma runDelete_value:
  assumes "map_of (sc_tables sc) t = Some tb" and rs: "rowsOf T t = map f xs"
    and "list_all (condValid sc tb) conds" and "list_all (condPlain tb) conds"
    and P: "\<And>x. x \<in> set xs \<Longrightarrow> holdsAll sc T conds (f x) = P x"
  shows "runDelete sc t conds T =
     Done (int (length (filter P xs)), AList.update t (map f (filter (\<lambda>x. \<not> P x) xs)) T)"
proof -
  have "filter (holdsAll sc T conds) (map f xs) = map f (filter P xs)"
    "filter (\<lambda>r. \<not> holdsAll sc T conds r) (map f xs) = map f (filter (\<lambda>x. \<not> P x) xs)"
    using P by (induction xs) auto
  then show ?thesis using assms by (simp add: runDelete_def Let_def)
qed

lemma runQuery_value:
  assumes "map_of (sc_tables sc) t = Some tb" and "rowsOf T t = map f xs"
    and "list_all (\<lambda>c. columnNamed tb c \<noteq> None) cols"
    and "list_all (condValid sc tb) conds" and "list_all (condPlain tb) conds"
    and P: "\<And>x. x \<in> set xs \<Longrightarrow> holdsAll sc T conds (f x) = P x"
  shows "runQuery sc (selectFrom cols t conds) T = Done (map f (filter P xs))"
proof -
  have "filter (holdsAll sc T conds) (map f xs) = map f (filter P xs)"
    using P by (induction xs) auto
  then show ?thesis using assms by (simp add: runQuery_def selectFrom_def selectionColumns_def)
qed

lemma answers_select:
  "answers (selectFrom cols t conds) rs res \<longleftrightarrow> (\<exists>rs'. mset rs' = mset rs \<and> res = map (\<lambda>r. map (cell r) cols) rs')"
  by (simp add: answers_def selectFrom_def inOrder_def window_def)

lemma scanRows_value: "(\<And>r. r \<in> set rs \<Longrightarrow> scan (k r) = Inr (h r)) \<Longrightarrow> scanRows scan (map k rs) = Inr (map h rs)"
  by (induction rs) auto

lemma mset_map_obtain:
  assumes "mset rs' = mset (map f ys)"
  obtains ys' where "mset ys' = mset ys" and "rs' = map f ys'"
proof -
  have "\<exists>ys'. mset ys' = mset ys \<and> rs' = map f ys'" using assms
  proof (induction rs' arbitrary: ys)
    case (Cons r rs')
    then have "r \<in># mset (map f ys)" by (metis list.set_intros(1) set_mset_mset)
    then obtain y where y: "y \<in> set ys" "r = f y" by auto
    then obtain zs where zs: "mset ys = add_mset y (mset zs)"
      by (metis ex_mset insert_DiffM set_mset_mset)
    with Cons.prems y have "mset rs' = mset (map f zs)" by simp
    from Cons.IH [OF this] obtain ys' where "mset ys' = mset zs" "rs' = map f ys'" by blast
    with zs y show ?case by (intro exI [of _ "y # ys'"]) simp
  qed simp
  with that show ?thesis by blast
qed

section \<open>Calls of a store on a database that keeps its promises\<close>

text \<open>After the call the tables are \<open>T\<close>, and the connection stands where it stood.\<close>

definition leaves :: "('db \<Rightarrow> tables) \<Rightarrow> ('db \<Rightarrow> phase) \<Rightarrow> 'db \<Rightarrow> tables \<Rightarrow> 'db \<Rightarrow> bool" where
  "leaves contents phase s T s' \<longleftrightarrow> contents s' = T \<and> phase s' = phase s"

context sql_database
begin

lemma execContext_done:
  assumes "db S = D" and "usable c (phase s)" and "\<And>now. runStmt now sc st (contents s) = Done (n, f now)"
  shows "\<exists>now s'. execContext S c st s = (Inr n, s') \<and> leaves contents phase s (f now) s'"
  using exec_done [OF assms(2,3)] assms(1) by (auto simp: execContext_def leaves_def)

lemma execContext_refused:
  assumes "db S = D" and "usable c (phase s)" and "\<And>now. runStmt now sc st (contents s) = Refused"
  shows "\<exists>e s'. execContext S c st s = (Inl (DbFailed e), s') \<and> contents s' = contents s"
  using exec_refused [OF assms(2,3)] assms(1) by (auto simp: execContext_def)

lemma execAny_done:
  assumes "db S = D" and "usable c (phase s)" and "\<And>now. runStmt now sc st (contents s) = Done (n, f now)"
  shows "\<exists>now s'. execAny S c st s = (Inr (), s') \<and> leaves contents phase s (f now) s'"
  using execContext_done [OF assms] by (auto simp: execAny_def bindM_Inr returnM_def)

lemma execAny_refused:
  assumes "db S = D" and "usable c (phase s)" and "\<And>now. runStmt now sc st (contents s) = Refused"
  shows "\<exists>e s'. execAny S c st s = (Inl (DbFailed e), s') \<and> contents s' = contents s"
  using execContext_refused [OF assms] by (auto simp: execAny_def bindM_Inl)

lemma execOne_done:
  assumes "db S = D" and "usable c (phase s)" and "\<And>now. runStmt now sc st (contents s) = Done (n, f now)"
  shows "\<exists>now s'. execOne S c st i s = (if n = 0 then Inl (RowNotFound i) else Inr (), s') \<and> leaves contents phase s (f now) s'"
  using execContext_done [OF assms] by (auto simp: execOne_def bindM_Inr requireM_def returnM_def throwM_def)

lemma execOne_refused:
  assumes "db S = D" and "usable c (phase s)" and "\<And>now. runStmt now sc st (contents s) = Refused"
  shows "\<exists>e s'. execOne S c st i s = (Inl (DbFailed e), s') \<and> contents s' = contents s"
  using execContext_refused [OF assms] by (auto simp: execOne_def bindM_Inl)

lemma queryContext_done:
  assumes "db S = D" and "usable c (phase s)"
    and "runQuery sc (selectFrom cols t conds) (contents s) = Done (map f ys)"
  shows "\<exists>ys' s'. mset ys' = mset ys \<and> leaves contents phase s (contents s) s'
     \<and> queryContext S c (selectFrom cols t conds) s = (Inr (map (\<lambda>y. map (cell (f y)) cols) ys'), s')"
proof -
  obtain res s' rs' where q: "db_query D c (selectFrom cols t conds) s = (Inr res, s')"
    and rs': "mset rs' = mset (map f ys)" "res = map (\<lambda>r. map (cell r) cols) rs'"
    and s': "contents s' = contents s" "phase s' = phase s"
    using query_done [OF assms(2,3)] by (auto simp: answers_select)
  obtain ys' where "mset ys' = mset ys" "rs' = map f ys'" using rs'(1) by (rule mset_map_obtain)
  then show ?thesis using q rs'(2) s' assms(1) by (auto simp: queryContext_def leaves_def)
qed

lemma queryContext_refused:
  assumes "db S = D" and "usable c (phase s)" and "runQuery sc q (contents s) = Refused"
  shows "\<exists>e s'. queryContext S c q s = (Inl (DbFailed e), s') \<and> contents s' = contents s"
  using query_refused [OF assms(2,3)] assms(1) by (auto simp: queryContext_def)

lemma queryRows_done:
  assumes "db S = D" and "usable c (phase s)"
    and "runQuery sc (selectFrom cols t conds) (contents s) = Done (map f ys)"
    and scan: "\<And>y. y \<in> set ys \<Longrightarrow> scan (map (cell (f y)) cols) = Inr (h y)"
  shows "\<exists>ys' s'. mset ys' = mset ys \<and> leaves contents phase s (contents s) s'
     \<and> queryRows S c (selectFrom cols t conds) scan s = (Inr (map h ys'), s')"
proof -
  obtain ys' s' where ys': "mset ys' = mset ys" "leaves contents phase s (contents s) s'"
    "queryContext S c (selectFrom cols t conds) s = (Inr (map (\<lambda>y. map (cell (f y)) cols) ys'), s')"
    using queryContext_done [OF assms(1-3)] by blast
  have "scanRows scan (map (\<lambda>y. map (cell (f y)) cols) ys') = Inr (map h ys')"
    by (rule scanRows_value) (use scan ys'(1) in \<open>metis mset_eq_setD\<close>)
  with ys' show ?thesis by (auto simp: queryRows_def bindM_Inr scanM_def)
qed

lemma queryRow_done:
  assumes "db S = D" and "usable c (phase s)"
    and "runQuery sc (selectFrom cols t conds) (contents s) = Done (map f ys)"
    and scan: "\<And>y. y \<in> set ys \<Longrightarrow> scan (map (cell (f y)) cols) = Inr (h y)"
    and one: "ys = (case hit of None \<Rightarrow> [] | Some y \<Rightarrow> [y])"
  shows "\<exists>s'. leaves contents phase s (contents s) s' \<and> queryRowContext S c (selectFrom cols t conds) i scan s
     = (case hit of None \<Rightarrow> Inl (RowNotFound i) | Some y \<Rightarrow> Inr (h y), s')"
proof -
  obtain ys' s' where ys': "mset ys' = mset ys" "leaves contents phase s (contents s) s'"
    "queryContext S c (selectFrom cols t conds) s = (Inr (map (\<lambda>y. map (cell (f y)) cols) ys'), s')"
    using queryContext_done [OF assms(1-3)] by blast
  have "ys' = ys" using ys'(1) one by (auto split: option.splits)
  with ys' scan one show ?thesis
    by (auto simp: queryRowContext_def bindM_Inr scanM_def throwM_def split: option.splits)
qed

lemma queryRow_refused:
  assumes "db S = D" and "usable c (phase s)" and "runQuery sc q (contents s) = Refused"
  shows "\<exists>e s'. queryRowContext S c q i scan s = (Inl (DbFailed e), s') \<and> contents s' = contents s"
  using queryContext_refused [OF assms] by (auto simp: queryRowContext_def bindM_Inl)

lemma queryRows_refused:
  assumes "db S = D" and "usable c (phase s)" and "runQuery sc q (contents s) = Refused"
  shows "\<exists>e s'. queryRows S c q scan s = (Inl (DbFailed e), s') \<and> contents s' = contents s"
  using queryContext_refused [OF assms] by (auto simp: queryRows_def bindM_Inl)

end

lemma sqlite_simps [simp]:
  "sc_sameText sqliteSchema = (=)" "sc_countsFound sqliteSchema"
  "db (sqliteStore D) = D" "dialect (sqliteStore D) = sqliteDialect"
  by (simp_all add: sqliteSchema_def sqliteStore_def Let_def)

lemma filter_none: "i \<notin> f ` set xs \<Longrightarrow> filter (\<lambda>x. f x = i) xs = []"
  by (induction xs) auto

lemma filter_one:
  "distinct (map f xs) \<Longrightarrow> filter (\<lambda>x. f x = i) xs = (case find (\<lambda>x. f x = i) xs of None \<Rightarrow> [] | Some x \<Rightarrow> [x])"
  by (induction xs) (use filter_none [where f = f] in auto)

section \<open>SQLite against the memory store\<close>

text \<open>
  A list of entities with different identifiers against a Go map of such entities: they agree up to \<open>kept\<close>, the part
  of an entity that both stores keep.
\<close>

definition byId :: "('v \<Rightarrow> string) \<Rightarrow> 'v list \<Rightarrow> string \<Rightarrow> 'v option" where
  "byId idOf xs = map_of (map (\<lambda>x. (idOf x, x)) xs)"

definition agree :: "('v \<Rightarrow> string) \<Rightarrow> ('v \<Rightarrow> 'v) \<Rightarrow> 'v gomap \<Rightarrow> 'v list \<Rightarrow> bool" where
  "agree idOf kept m xs \<longleftrightarrow> distinct (map fst m) \<and> distinct (map idOf xs)
     \<and> (\<forall>i. map_option kept (map_of m i) = map_option kept (byId idOf xs i))"

locale entity_agreement =
  fixes idOf :: "'v \<Rightarrow> string" and kept :: "'v \<Rightarrow> 'v"
  assumes id_kept: "idOf (kept x) = idOf x"
begin

lemma byId_None: "byId idOf xs i = None \<longleftrightarrow> i \<notin> idOf ` set xs"
  by (simp add: byId_def map_of_eq_None_iff image_image)

lemma byId_Some: "distinct (map idOf xs) \<Longrightarrow> byId idOf xs i = Some x \<longleftrightarrow> x \<in> set xs \<and> idOf x = i"
  by (auto simp: byId_def comp_def)

lemma agree_None: "agree idOf kept m xs \<Longrightarrow> map_of m i = None \<longleftrightarrow> i \<notin> idOf ` set xs"
  by (metis agree_def byId_None map_option_is_None)

lemma agree_Some:
  assumes "agree idOf kept m xs" and "map_of m i = Some v"
  obtains x where "x \<in> set xs" and "idOf x = i" and "kept x = kept v" and "byId idOf xs i = Some x"
proof -
  have "map_option kept (byId idOf xs i) = Some (kept v)" using assms by (metis agree_def option.map(2))
  then obtain x where "byId idOf xs i = Some x" "kept x = kept v" by auto
  then show ?thesis using that assms(1) byId_Some [of xs i x] by (auto simp: agree_def)
qed

lemma agree_id: "agree idOf kept m xs \<Longrightarrow> map_of m i = Some v \<Longrightarrow> idOf v = i"
  by (metis agree_Some id_kept)

lemma find_filter: "agree idOf kept m xs \<Longrightarrow> filter (\<lambda>x. idOf x = i) xs = (case byId idOf xs i of None \<Rightarrow> [] | Some x \<Rightarrow> [x])"
proof -
  assume "agree idOf kept m xs"
  moreover have "find (\<lambda>x. idOf x = i) xs = byId idOf xs i" by (induction xs) (auto simp: byId_def)
  ultimately show ?thesis by (simp add: agree_def filter_one)
qed

lemma agree_append:
  assumes "agree idOf kept m xs" and "idOf x \<notin> idOf ` set xs" and "kept x = kept v"
  shows "agree idOf kept (AList.update (idOf v) v m) (xs @ [x])"
proof -
  have id: "idOf v = idOf x" using assms(3) by (metis id_kept)
  have "byId idOf xs (idOf x) = None" using assms(2) by (simp add: byId_None)
  then have "byId idOf (xs @ [x]) i = (if i = idOf x then Some x else byId idOf xs i)" for i
    by (auto simp: byId_def map_add_def split: option.splits)
  then show ?thesis
    using assms id by (auto simp: agree_def distinct_update)
qed

lemma agree_change:
  assumes "agree idOf kept m xs" and y: "y \<in> set xs" "P y" and only: "\<And>x. x \<in> set xs \<Longrightarrow> P x \<Longrightarrow> x = y"
    and g: "idOf (g y) = idOf y" and v: "kept (g y) = kept v"
  shows "agree idOf kept (AList.update (idOf v) v m) (map (\<lambda>x. if P x then g x else x) xs)"
proof -
  have id: "idOf (if P x then g x else x) = idOf x" if "x \<in> set xs" for x
    using that only g by auto
  then have ids: "map idOf (map (\<lambda>x. if P x then g x else x) xs) = map idOf xs" by simp
  have "idOf v = idOf y" using v g by (metis id_kept)
  moreover have "byId idOf (map (\<lambda>x. if P x then g x else x) xs) i = (if i = idOf y then Some (g y) else byId idOf xs i)" for i
  proof -
    have d: "distinct (map idOf xs)" using assms(1) by (simp add: agree_def)
    show ?thesis
    proof (cases "byId idOf xs i")
      case None
      then have i: "i \<notin> idOf ` set xs" by (simp add: byId_None)
      then have "i \<notin> set (map idOf (map (\<lambda>x. if P x then g x else x) xs))" unfolding ids by simp
      then have "byId idOf (map (\<lambda>x. if P x then g x else x) xs) i = None" by (simp add: byId_None del: map_map)
      moreover have "i \<noteq> idOf y" using i y(1) by blast
      ultimately show ?thesis using None by simp
    next
      case (Some x)
      then have x: "x \<in> set xs" "idOf x = i" using d by (simp_all add: byId_Some)
      have "distinct (map idOf (map (\<lambda>x. if P x then g x else x) xs))" unfolding ids by (rule d)
      moreover have "(if P x then g x else x) \<in> set (map (\<lambda>x. if P x then g x else x) xs)" using x(1) by simp
      ultimately have "byId idOf (map (\<lambda>x. if P x then g x else x) xs) i = Some (if P x then g x else x)"
        using x id [OF x(1)] by (simp only: byId_Some simp_thms)
      moreover have "P x \<longleftrightarrow> i = idOf y"
      proof
        assume "i = idOf y"
        then have "x = y" using x y(1) d by (auto simp: distinct_map inj_on_def)
        with y(2) show "P x" by simp
      qed (use x only in auto)
      ultimately show ?thesis using Some only [OF x(1)] by (cases "P x") simp_all
    qed
  qed
  ultimately show ?thesis
    using assms(1) v ids by (auto simp: agree_def distinct_update simp del: map_map)
qed

lemma agree_delete:
  assumes "agree idOf kept m xs"
  shows "agree idOf kept (AList.delete i m) (filter (\<lambda>x. idOf x \<noteq> i) xs)"
proof -
  have d: "distinct (map idOf xs)" using assms by (simp add: agree_def)
  have "byId idOf (filter (\<lambda>x. idOf x \<noteq> i) xs) j = (if j = i then None else byId idOf xs j)" for j
    by (induction xs) (auto simp: byId_def)
  then show ?thesis
    using assms d by (auto simp: agree_def distinct_delete distinct_map_filter)
qed

lemma agree_values:
  assumes a: "agree idOf kept m xs" and "fair_order ord" and P: "\<And>x. P (kept x) = P x"
  shows "mset (map kept (mvalues ord P m)) = mset (map kept (filter P xs))"
proof -
  let ?L = "mvalues ord P m"
  have L: "set ?L = {v. P v \<and> (\<exists>k. map_of m k = Some v)}"
    using a assms(2) by (simp add: agree_def set_mvalues)
  have inj: "distinct (map idOf ?L)"
  proof -
    have keys: "map idOf (map snd (mrange ord m)) = map fst (mrange ord m)"
      using agree_id [OF a] by (auto simp: mrange_def split: option.splits)
    have "distinct (map idOf (map snd (mrange ord m)))"
      unfolding keys using a assms(2) by (simp add: agree_def mrange_keys_distinct)
    then show ?thesis by (simp add: mvalues_def distinct_map_filter)
  qed
  have "distinct (map kept ?L)"
    using inj id_kept by (metis (mono_tags, lifting) distinct_map inj_on_def)
  moreover have "distinct (map kept (filter P xs))"
    using a id_kept by (metis (mono_tags, lifting) agree_def distinct_map distinct_map_filter inj_on_def)
  moreover have "kept ` set ?L = kept ` set (filter P xs)"
  proof (intro set_eqI iffI; elim imageE)
    fix z v assume v: "z = kept v" "v \<in> set ?L"
    then obtain k where "map_of m k = Some v" "P v" by (auto simp: L)
    then obtain x where "x \<in> set xs" "kept x = kept v" using agree_Some [OF a, of k v] by blast
    moreover have "P x" using \<open>P v\<close> \<open>kept x = kept v\<close> P by metis
    ultimately show "z \<in> kept ` set (filter P xs)" using \<open>x \<in> set xs\<close> \<open>kept x = kept v\<close> v(1) by (intro image_eqI [of _ _ x]) simp_all
  next
    fix z x assume x: "z = kept x" "x \<in> set (filter P xs)"
    then have "byId idOf xs (idOf x) = Some x" using a byId_Some by (auto simp: agree_def)
    then obtain v where "map_of m (idOf x) = Some v" "kept v = kept x"
      using a by (metis agree_def map_option_eq_Some)
    moreover have "P v" using x(2) \<open>kept v = kept x\<close> P [of v] P [of x] by simp
    ultimately have "v \<in> set ?L" unfolding L by blast
    then show "z \<in> kept ` set ?L" using x(1) \<open>kept v = kept x\<close> by (intro image_eqI [of _ _ v]) simp_all
  qed
  ultimately show ?thesis
    using set_eq_iff_mset_eq_distinct [of "map kept ?L" "map kept (filter P xs)"] by (simp only: list.set_map simp_thms)
qed

end

text \<open>A store that fails, fails in both; one that succeeds, succeeds in both with results that correspond.\<close>

definition sameOutcome :: "('a \<Rightarrow> 'b \<Rightarrow> bool) \<Rightarrow> 'e + 'a \<Rightarrow> 'f + 'b \<Rightarrow> bool" where
  "sameOutcome R r r' \<longleftrightarrow> (case r of
      Inl e \<Rightarrow> isl r'
    | Inr a \<Rightarrow> (case r' of Inl e \<Rightarrow> False | Inr b \<Rightarrow> R a b))"

text \<open>The rows of a table and a Go map: the rows are those of a list of entities that agrees with the map.\<close>

definition rowsAgree ::
  "string \<Rightarrow> ('v \<Rightarrow> sqlRow) \<Rightarrow> ('v \<Rightarrow> bool) \<Rightarrow> ('v \<Rightarrow> string) \<Rightarrow> ('v \<Rightarrow> 'v) \<Rightarrow> tables \<Rightarrow> 'v gomap \<Rightarrow> bool" where
  "rowsAgree t rowOf keeps idOf kept T m \<longleftrightarrow>
     (\<exists>xs. rowsOf T t = map rowOf xs \<and> list_all keeps xs \<and> agree idOf kept m xs)"

text \<open>The same after a call that was made on the tables \<open>T0\<close>, with all other tables as they were.\<close>

definition agreeFrom ::
  "string \<Rightarrow> ('v \<Rightarrow> sqlRow) \<Rightarrow> ('v \<Rightarrow> bool) \<Rightarrow> ('v \<Rightarrow> string) \<Rightarrow> ('v \<Rightarrow> 'v) \<Rightarrow> (Store \<Rightarrow> 'v gomap)
    \<Rightarrow> tables \<Rightarrow> tables \<Rightarrow> Store \<Rightarrow> bool" where
  "agreeFrom t rowOf keeps idOf kept table T0 T M \<longleftrightarrow>
     rowsAgree t rowOf keeps idOf kept T (table M) \<and> (\<forall>t'. t' \<noteq> t \<longrightarrow> rowsOf T t' = rowsOf T0 t')"

text \<open>
  The two stores after a call: outcomes that correspond, contents that agree, and a connection that can go on unless
  there was an error.
\<close>

definition corresponds ::
  "('a \<Rightarrow> 'b \<Rightarrow> bool) \<Rightarrow> (tables \<Rightarrow> Store \<Rightarrow> bool) \<Rightarrow> ('db \<Rightarrow> tables) \<Rightarrow> ('db \<Rightarrow> phase) \<Rightarrow> 'db
    \<Rightarrow> (sqlError + 'a) \<times> 'db \<Rightarrow> (err + 'b) \<times> Store \<Rightarrow> bool" where
  "corresponds R rel contents phase s p q \<longleftrightarrow> sameOutcome R (fst p) (fst q)
     \<and> rel (contents (snd p)) (snd q) \<and> (isl (fst p) \<or> phase (snd p) = phase s)"

text \<open>Results as lists of entities, compared by what both stores keep and without regard to order.\<close>

definition sameKept :: "('v \<Rightarrow> 'v) \<Rightarrow> 'v list \<Rightarrow> 'v list \<Rightarrow> bool" where
  "sameKept kept xs ys \<longleftrightarrow> mset (map kept xs) = mset (map kept ys)"

definition noneOf :: "('s, 'e, unit) sem \<Rightarrow> ('s, 'e, 'v list) sem" where
  "noneOf m = bindM m (\<lambda>_. returnM [])"

definition oneOf :: "('s, 'e, 'v) sem \<Rightarrow> ('s, 'e, 'v list) sem" where
  "oneOf m = bindM m (\<lambda>x. returnM [x])"

lemma corresponds_noneOf:
  assumes "corresponds (\<lambda>_ _. True) rel contents phase s (f s) (g M)"
  shows "corresponds (sameKept kept) rel contents phase s (noneOf f s) (noneOf g M)"
  using assms by (cases "f s"; cases "g M")
    (auto simp: corresponds_def noneOf_def bindM_def returnM_def sameOutcome_def sameKept_def split: sum.splits)

context entity_agreement
begin

lemma create_corresponds:
  assumes rows: "list_all keeps xs" and ag: "agree idOf kept (table M) xs"
    and sql_taken: "idOf v \<in> idOf ` set xs \<Longrightarrow>
      \<exists>e s'. p = (Inl e, s') \<and> contents s' = contents s"
    and sql_fresh: "idOf v \<notin> idOf ` set xs \<Longrightarrow>
      \<exists>x s'. p = (Inr (), s') \<and> leaves contents phase s (AList.update t (map rowOf (xs @ [x])) (contents s)) s'
        \<and> keeps x \<and> kept x = kept v"
    and old: "rowsOf (contents s) t = map rowOf xs"
    and mem: "q = (if map_of (table M) (idOf v) \<noteq> None then (Inl e, M) else (Inr (), M'))"
      "table M' = AList.update (idOf v) v (table M)"
  shows "corresponds (\<lambda>_ _. True) (agreeFrom t rowOf keeps idOf kept table (contents s)) contents phase s p q"
proof (cases "idOf v \<in> idOf ` set xs")
  case True
  then have "q = (Inl e, M)" using agree_None [OF ag] mem(1) by simp
  then show ?thesis using sql_taken [OF True] rows ag old by (auto simp: corresponds_def sameOutcome_def agreeFrom_def rowsAgree_def)
next
  case False
  then have q: "q = (Inr (), M')" using agree_None [OF ag] mem(1) by simp
  obtain x s' where x: "p = (Inr (), s')" "contents s' = AList.update t (map rowOf (xs @ [x])) (contents s)"
    "phase s' = phase s" "keeps x" "kept x = kept v"
    using sql_fresh [OF False] by (auto simp: leaves_def)
  then have "idOf x = idOf v" by (metis id_kept)
  then have "agree idOf kept (table M') (xs @ [x])" unfolding mem(2) using ag False x(5) by (intro agree_append) simp_all
  then have "agreeFrom t rowOf keeps idOf kept table (contents s) (contents s') M'"
    using rows x(2,4) by (auto simp: agreeFrom_def rowsAgree_def intro!: exI [of _ "xs @ [x]"])
  then show ?thesis using q x(1,3) by (simp add: corresponds_def sameOutcome_def)
qed

lemma update_corresponds:
  fixes versionOf :: "'v \<Rightarrow> int"
  defines "P v \<equiv> \<lambda>u. idOf u = idOf v \<and> versionOf u = versionOf v"
  assumes old: "rowsOf (contents s) t = map rowOf xs" and rows: "list_all keeps xs" and ag: "agree idOf kept (table M) xs"
    and sql: "p = (if length (filter (P v) xs) = 0 then Inl e0 else Inr (), s')"
      "leaves contents phase s (AList.update t (map rowOf (map (\<lambda>u. if P v u then g u else u) xs)) (contents s)) s'"
    and version: "\<And>x. versionOf (kept x) = versionOf x"
    and g: "\<And>u. idOf (g u) = idOf u" "\<And>u. keeps u \<Longrightarrow> keeps (g u)"
    and v': "\<And>u w. P v u \<Longrightarrow> map_of (table M) (idOf v) = Some w \<Longrightarrow> kept u = kept w \<Longrightarrow> kept (g u) = kept v'" "idOf v' = idOf v"
    and mem: "map_of (table M) (idOf v) = None \<Longrightarrow> \<exists>e. q = (Inl e, M)"
      "\<And>w. map_of (table M) (idOf v) = Some w \<Longrightarrow> versionOf v \<noteq> versionOf w \<Longrightarrow> \<exists>e. q = (Inl e, M)"
      "\<And>w. map_of (table M) (idOf v) = Some w \<Longrightarrow> versionOf v = versionOf w \<Longrightarrow>
        \<exists>M'. q = (Inr (), M') \<and> table M' = AList.update (idOf v) v' (table M)"
  shows "corresponds (\<lambda>_ _. True) (agreeFrom t rowOf keeps idOf kept table (contents s)) contents phase s p q"
proof (cases "\<exists>u\<in>set xs. P v u")
  case True
  then obtain y where y: "y \<in> set xs" "P v y" by blast
  then have p: "p = (Inr (), s')" using sql(1) by (auto simp: filter_empty_conv)
  have d: "distinct (map idOf xs)" using ag by (simp add: agree_def)
  have only: "x = y" if "x \<in> set xs" "P v x" for x
    using that y d unfolding P_def by (metis distinct_map inj_onD)
  have "byId idOf xs (idOf v) = Some y" using y d unfolding P_def by (simp add: byId_Some)
  then obtain w where w: "map_of (table M) (idOf v) = Some w" "kept w = kept y"
    using ag by (metis agree_def map_option_eq_Some)
  have "versionOf w = versionOf v" using w(2) y(2) version unfolding P_def by metis
  then obtain M' where q: "q = (Inr (), M')" "table M' = AList.update (idOf v) v' (table M)" using mem(3) w(1) by metis
  have "agree idOf kept (AList.update (idOf v') v' (table M)) (map (\<lambda>u. if P v u then g u else u) xs)"
    by (rule agree_change [where P = "P v" and g = g and y = y, OF ag y only g(1)]) (use v'(1) y w in simp_all)
  moreover have "list_all keeps (map (\<lambda>u. if P v u then g u else u) xs)" using rows g(2) by (auto simp: list_all_iff)
  moreover have "contents s' = AList.update t (map rowOf (map (\<lambda>u. if P v u then g u else u) xs)) (contents s)" "phase s' = phase s"
    using sql(2) by (simp_all only: leaves_def)
  ultimately have "agreeFrom t rowOf keeps idOf kept table (contents s) (contents s') M'" "phase s' = phase s"
    unfolding agreeFrom_def rowsAgree_def q(2) v'(2) by (auto intro!: exI [of _ "map (\<lambda>u. if P v u then g u else u) xs"] simp del: map_map)
  then show ?thesis using p q(1) by (simp add: corresponds_def sameOutcome_def)
next
  case False
  then have "(\<lambda>u. if P v u then g u else u) u = u" if "u \<in> set xs" for u using that by auto
  then have same: "map (\<lambda>u. if P v u then g u else u) xs = xs" by (simp add: map_idI)
  have p: "p = (Inl e0, s')" using sql(1) False by (simp add: filter_empty_conv)
  have "\<exists>e. q = (Inl e, M)"
  proof (cases "map_of (table M) (idOf v)")
    case (Some w)
    then obtain x where "x \<in> set xs" "idOf x = idOf v" "kept x = kept w" using agree_Some [OF ag Some] by blast
    moreover then have "versionOf x = versionOf w" using version by metis
    ultimately have "versionOf v \<noteq> versionOf w" using False unfolding P_def by auto
    with Some show ?thesis by (rule mem(2))
  qed (rule mem(1))
  moreover have "agreeFrom t rowOf keeps idOf kept table (contents s) (contents s') M"
    using sql(2) rows ag unfolding same agreeFrom_def rowsAgree_def by (auto simp: leaves_def)
  ultimately show ?thesis using p by (auto simp: corresponds_def sameOutcome_def)
qed

lemma get_corresponds:
  assumes old: "rowsOf (contents s) t = map rowOf xs" and rows: "list_all keeps xs" and ag: "agree idOf kept (table M) xs"
    and sql: "f s = (case byId idOf xs i of None \<Rightarrow> Inl e0 | Some x \<Rightarrow> Inr (rd x), s')" "leaves contents phase s (contents s) s'"
    and rd: "\<And>x v. kept x = kept v \<Longrightarrow> shown (rd x) = shown (wr v)"
    and mem: "h M = (case map_of (table M) i of None \<Rightarrow> Inl e | Some v \<Rightarrow> Inr (wr v), M)"
  shows "corresponds (sameKept shown) (agreeFrom t rowOf keeps idOf kept table (contents s)) contents phase s
           (oneOf f s) (oneOf h M)"
proof -
  have "map_option kept (byId idOf xs i) = map_option kept (map_of (table M) i)"
    using ag by (simp add: agree_def)
  moreover have "agreeFrom t rowOf keeps idOf kept table (contents s) (contents s') M"
    using sql(2) old rows ag by (auto simp: agreeFrom_def rowsAgree_def leaves_def)
  ultimately show ?thesis using sql mem
    by (cases "byId idOf xs i"; cases "map_of (table M) i")
       (auto simp: corresponds_def oneOf_def bindM_Inr bindM_Inl returnM_def sameOutcome_def leaves_def sameKept_def intro: rd)
qed

lemma mset_map_same:
  assumes "mset (map f xs) = mset (map f ys)" and "\<And>x y. f x = f y \<Longrightarrow> g x = h y"
  shows "mset (map g xs) = mset (map h ys)"
proof -
  have "g x = (\<lambda>z. h (SOME y. f y = z)) (f x)" "h x = (\<lambda>z. h (SOME y. f y = z)) (f x)" for x
    using someI [of "\<lambda>y. f y = f x" x] assms(2) by metis+
  then have "map g xs = map (\<lambda>z. h (SOME y. f y = z)) (map f xs)" "map h ys = map (\<lambda>z. h (SOME y. f y = z)) (map f ys)"
    by simp_all
  then show ?thesis using assms(1) by (metis mset_map)
qed

lemma list_corresponds:
  assumes old: "rowsOf (contents s) t = map rowOf xs" and rows: "list_all keeps xs" and ag: "agree idOf kept (table M) xs"
    and sql: "mset ys = mset (filter P xs)" "leaves contents phase s (contents s) s'"
    and ord: "fair_order ord" and P: "\<And>x. P (kept x) = P x"
    and rd: "\<And>x v. kept x = kept v \<Longrightarrow> shown (rd x) = shown (wr v)"
  shows "corresponds (sameKept shown) (agreeFrom t rowOf keeps idOf kept table (contents s)) contents phase s
           (Inr (map rd ys), s') (Inr (map wr (mvalues ord P (table M))), M)"
proof -
  have "mset (map kept (mvalues ord P (table M))) = mset (map kept (filter P xs))"
    using ag ord P by (rule agree_values)
  moreover have "mset (map kept ys) = mset (map kept (filter P xs))" using sql(1) by simp
  ultimately have "mset (map kept ys) = mset (map kept (mvalues ord P (table M)))" by simp
  then have "mset (map (shown \<circ> rd) ys) = mset (map (shown \<circ> wr) (mvalues ord P (table M)))"
    by (rule mset_map_same) (simp add: rd)
  then have "sameKept shown (map rd ys) (map wr (mvalues ord P (table M)))" by (simp add: sameKept_def comp_def)
  moreover have "agreeFrom t rowOf keeps idOf kept table (contents s) (contents s') M"
    using sql(2) old rows ag by (auto simp: agreeFrom_def rowsAgree_def leaves_def)
  ultimately show ?thesis using sql(2) by (simp add: corresponds_def sameOutcome_def leaves_def)
qed

lemma delete_corresponds:
  assumes old: "rowsOf (contents s) t = map rowOf xs" and rows: "list_all keeps xs" and ag: "agree idOf kept (table M) xs"
    and sql: "p = (if length (filter (\<lambda>x. idOf x = i) xs) = 0 then Inl e0 else Inr (), s')"
      "leaves contents phase s (AList.update t (map rowOf (filter (\<lambda>x. idOf x \<noteq> i) xs)) (contents s)) s'"
    and mem: "q = (if map_of (table M) i = None then (Inl e, M) else (Inr (), M'))" "table M' = AList.delete i (table M)"
  shows "corresponds (\<lambda>_ _. True) (agreeFrom t rowOf keeps idOf kept table (contents s)) contents phase s p q"
proof (cases "i \<in> idOf ` set xs")
  case False
  then have "filter (\<lambda>x. idOf x = i) xs = []" and same: "filter (\<lambda>x. idOf x \<noteq> i) xs = xs"
    by (auto simp: filter_empty_conv intro: filter_True)
  then have "p = (Inl e0, s')" and "agreeFrom t rowOf keeps idOf kept table (contents s) (contents s') M"
    using sql rows ag by (auto simp: leaves_def agreeFrom_def rowsAgree_def)
  then show ?thesis using mem agree_None [OF ag] False by (simp add: corresponds_def sameOutcome_def)
next
  case True
  then have "filter (\<lambda>x. idOf x = i) xs \<noteq> []" by (auto simp: filter_empty_conv)
  then have p: "p = (Inr (), s')" using sql(1) by simp
  have "agreeFrom t rowOf keeps idOf kept table (contents s) (contents s') M'"
    using sql(2) rows agree_delete [OF ag, of i] unfolding agreeFrom_def rowsAgree_def mem(2)
    by (intro conjI exI [of _ "filter (\<lambda>x. idOf x \<noteq> i) xs"]) (auto simp: leaves_def list_all_iff)
  moreover have "q = (Inr (), M')" using mem(1) agree_None [OF ag] True by auto
  ultimately show ?thesis using p sql(2) by (simp add: corresponds_def sameOutcome_def leaves_def)
qed

end

text \<open>A database under the SQLite schema.\<close>

locale sqlite_database = sql_database D sqliteSchema contents phase
  for D :: "'db Database" and contents :: "'db \<Rightarrow> tables" and phase :: "'db \<Rightarrow> phase"

interpretation sqliteMemory: sqlite_database "memoryDatabase now sqliteSchema" md_tables md_phase for now
  by unfold_locales

section \<open>The calls of one table\<close>

text \<open>
  A table whose key is the column \<open>id\<close>, against a map of the memory store: each kind of call corresponds, given what
  the call writes into a row and what it reads from one.
\<close>

locale sqlite_entity = sqlite_database D contents phase + entity_agreement idOf kept
  for D :: "'db Database" and contents :: "'db \<Rightarrow> tables" and phase :: "'db \<Rightarrow> phase"
    and idOf :: "'v \<Rightarrow> string" and kept :: "'v \<Rightarrow> 'v" +
  fixes t :: string and tb :: sqlTable and rowOf :: "'v \<Rightarrow> sqlRow" and keeps :: "'v \<Rightarrow> bool"
    and table :: "Store \<Rightarrow> 'v gomap"
  assumes known: "map_of (sc_tables sqliteSchema) t = Some tb" and key: "tb_key tb = [''id'']"
    and idText: "kindAgrees tb ''id'' (SText i)"
    and idCell: "cell (rowOf x) ''id'' = SText (idOf x)"
begin

abbreviation agreeing :: "tables \<Rightarrow> Store \<Rightarrow> bool" where
  "agreeing T M \<equiv> rowsAgree t rowOf keeps idOf kept T (table M)"

abbreviation stepFrom :: "'db \<Rightarrow> tables \<Rightarrow> Store \<Rightarrow> bool" where
  "stepFrom s \<equiv> agreeFrom t rowOf keeps idOf kept table (contents s)"

lemma agreeingE:
  assumes "agreeing T M"
  obtains xs where "rowsOf T t = map rowOf xs" and "list_all keeps xs" and "agree idOf kept (table M) xs"
  using assms by (auto simp: rowsAgree_def)

lemma id_condition:
  "holdsAll sqliteSchema T [ColEq ''id'' (SText i)] (rowOf x) = (idOf x = i)"
  "list_all (condValid sqliteSchema tb) [ColEq ''id'' (SText i)]" "list_all (condPlain tb) [ColEq ''id'' (SText i)]"
  using idText [of i] by (auto simp: holdsAll_def sameVal_def idCell kindAgrees_def split: option.splits columnType.splits bool.splits)

lemma insert_corresponds:
  assumes u: "usable c (phase s)" and r: "agreeing (contents s) M"
    and cols: "list_all (\<lambda>c. columnNamed tb c \<noteq> None) cols" "length cols = length vals"
    and row: "\<And>now. newRow now tb cols vals = Done (rowOf (x now)) \<and> keeps (x now) \<and> kept (x now) = kept v"
    and mem: "q = (if map_of (table M) (idOf v) \<noteq> None then (Inl e, M) else (Inr (), M'))"
      "table M' = AList.update (idOf v) v (table M)"
  shows "corresponds (\<lambda>_ _. True) (stepFrom s) contents phase s (execAny (sqliteStore D) c (InsertInto t cols vals) s) q"
proof -
  obtain xs where rows: "rowsOf (contents s) t = map rowOf xs" and k: "list_all keeps xs" and ag: "agree idOf kept (table M) xs"
    using r by (rule agreeingE)
  have id: "idOf (x now) = idOf v" for now using row [of now] by (metis id_kept)
  have "list_ex (sameKey sqliteSchema tb (rowOf (x now))) (map rowOf xs) \<longleftrightarrow> idOf v \<in> idOf ` set xs" for now
    using id [of now] by (auto simp: list_ex_iff sameKey_def key sameVal_def idCell)
  then have ins: "runStmt now sqliteSchema (InsertInto t cols vals) (contents s)
      = (if idOf v \<in> idOf ` set xs then Refused else Done (1, AList.update t (map rowOf (xs @ [x now])) (contents s)))" for now
    using runInsert_value [OF known cols] row [of now] rows by (simp add: runStmt.simps)
  show ?thesis
  proof (rule create_corresponds [where t = t and rowOf = rowOf and keeps = keeps and contents = contents and v = v
        and table = table, OF k ag _ _ rows mem])
    assume taken: "idOf v \<in> idOf ` set xs"
    show "\<exists>e s'. execAny (sqliteStore D) c (InsertInto t cols vals) s = (Inl e, s') \<and> contents s' = contents s"
      using execAny_refused [of "sqliteStore D" c s] u ins taken by fastforce
  next
    assume "idOf v \<notin> idOf ` set xs"
    then show "\<exists>y s'. execAny (sqliteStore D) c (InsertInto t cols vals) s = (Inr (), s')
       \<and> leaves contents phase s (AList.update t (map rowOf (xs @ [y])) (contents s)) s' \<and> keeps y \<and> kept y = kept v"
      using execAny_done [of "sqliteStore D" c s "InsertInto t cols vals" 1
          "\<lambda>now. AList.update t (map rowOf (xs @ [x now])) (contents s)"] u ins row by fastforce
  qed
qed

lemma updated_corresponds:
  fixes versionOf :: "'v \<Rightarrow> int"
  assumes u: "usable c (phase s)" and r: "agreeing (contents s) M"
    and asg: "list_all (\<lambda>a. columnNamed tb (assigned a) \<noteq> None) asg" "\<not> list_ex (\<lambda>a. assigned a = ''id'') asg"
    and conds: "list_all (condValid sqliteSchema tb) conds" "list_all (condPlain tb) conds"
      "\<And>T x. holdsAll sqliteSchema T conds (rowOf x) = (idOf x = idOf v \<and> versionOf x = versionOf v)"
    and cells: "\<And>x. idOf x = idOf v \<Longrightarrow> versionOf x = versionOf v \<Longrightarrow>
      mapO (updateCell tb asg (rowOf x)) (tb_columns tb) = Done (rowOf (g x))"
    and version: "\<And>x. versionOf (kept x) = versionOf x"
    and g: "\<And>x. idOf (g x) = idOf x" "\<And>x. keeps x \<Longrightarrow> keeps (g x)"
    and v': "\<And>x w. idOf x = idOf v \<Longrightarrow> versionOf x = versionOf v \<Longrightarrow> map_of (table M) (idOf v) = Some w \<Longrightarrow>
      kept x = kept w \<Longrightarrow> kept (g x) = kept v'" "idOf v' = idOf v"
    and mem: "map_of (table M) (idOf v) = None \<Longrightarrow> \<exists>e. q = (Inl e, M)"
      "\<And>w. map_of (table M) (idOf v) = Some w \<Longrightarrow> versionOf v \<noteq> versionOf w \<Longrightarrow> \<exists>e. q = (Inl e, M)"
      "\<And>w. map_of (table M) (idOf v) = Some w \<Longrightarrow> versionOf v = versionOf w \<Longrightarrow>
        \<exists>M'. q = (Inr (), M') \<and> table M' = AList.update (idOf v) v' (table M)"
  shows "corresponds (\<lambda>_ _. True) (stepFrom s) contents phase s (execOne (sqliteStore D) c (UpdateSet t asg conds) i s) q"
proof -
  obtain xs where rows: "rowsOf (contents s) t = map rowOf xs" and k: "list_all keeps xs" and ag: "agree idOf kept (table M) xs"
    using r by (rule agreeingE)
  let ?P = "\<lambda>x. idOf x = idOf v \<and> versionOf x = versionOf v"
  have "runStmt now sqliteSchema (UpdateSet t asg conds) (contents s) = Done (int (length (filter ?P xs)),
      AList.update t (map rowOf (map (\<lambda>x. if ?P x then g x else x) xs)) (contents s))" for now
    unfolding runStmt.simps
    by (rule runUpdate_value [OF known rows asg(1) conds(1) _ conds(2)]) (use asg(2) conds(3) cells key in auto)
  then obtain s' where upd: "execOne (sqliteStore D) c (UpdateSet t asg conds) i s
      = (if length (filter ?P xs) = 0 then Inl (RowNotFound i) else Inr (), s')"
    "leaves contents phase s (AList.update t (map rowOf (map (\<lambda>x. if ?P x then g x else x) xs)) (contents s)) s'"
    using execOne_done [of "sqliteStore D" c s "UpdateSet t asg conds" "int (length (filter ?P xs))"
        "\<lambda>_. AList.update t (map rowOf (map (\<lambda>x. if ?P x then g x else x) xs)) (contents s)" i] u by auto
  show ?thesis
  proof (rule update_corresponds [where t = t and rowOf = rowOf and table = table and contents = contents and versionOf = versionOf
        and g = g and v' = v', OF rows k ag upd version g])
    show "kept (g x) = kept v'" if "idOf x = idOf v \<and> versionOf x = versionOf v" "map_of (table M) (idOf v) = Some w" "kept x = kept w" for x w
      using v'(1) that by blast
  qed (assumption, rule v'(2), rule mem(1), assumption, rule mem(2), assumption+, rule mem(3), assumption+)
qed

lemma select_value:
  assumes "rowsOf T t = map rowOf xs" and "list_all (\<lambda>c. columnNamed tb c \<noteq> None) cols"
    and "list_all (condValid sqliteSchema tb) conds" "list_all (condPlain tb) conds"
    and "\<And>x. holdsAll sqliteSchema T conds (rowOf x) = P x"
  shows "runQuery sqliteSchema (selectFrom cols t conds) T = Done (map rowOf (filter P xs))"
  using runQuery_value [OF known assms(1-4)] assms(5) by blast

lemma get_row_as:
  assumes u: "usable c (phase s)" and r: "agreeing (contents s) M"
    and cols: "list_all (\<lambda>c. columnNamed tb c \<noteq> None) cols"
    and scan: "\<And>x. keeps x \<Longrightarrow> idOf x = i \<Longrightarrow> scan (map (cell (rowOf x)) cols) = Inr (rd x)"
    and rd: "\<And>x v. kept x = kept v \<Longrightarrow> shown (rd x) = shown (wr v)"
    and mem: "h M = (case map_of (table M) i of None \<Rightarrow> Inl e | Some x \<Rightarrow> Inr (wr x), M)"
  shows "corresponds (sameKept shown) (stepFrom s) contents phase s
     (oneOf (queryRowContext (sqliteStore D) c (selectFrom cols t [ColEq ''id'' (SText i)]) j scan) s) (oneOf h M)"
proof -
  obtain xs where rows: "rowsOf (contents s) t = map rowOf xs" and k: "list_all keeps xs" and ag: "agree idOf kept (table M) xs"
    using r by (rule agreeingE)
  let ?f = "queryRowContext (sqliteStore D) c (selectFrom cols t [ColEq ''id'' (SText i)]) j scan"
  have "\<exists>s'. leaves contents phase s (contents s) s'
     \<and> ?f s = (case byId idOf xs i of None \<Rightarrow> Inl (RowNotFound j) | Some x \<Rightarrow> Inr (rd x), s')"
    by (rule queryRow_done [OF _ u select_value [OF rows cols id_condition(2,3,1)] _ find_filter [OF ag]])
       (use k scan in \<open>auto simp: list_all_iff\<close>)
  then obtain s' where "?f s = (case byId idOf xs i of None \<Rightarrow> Inl (RowNotFound j) | Some x \<Rightarrow> Inr (rd x), s')"
    "leaves contents phase s (contents s) s'" by blast
  from get_corresponds [where t = t and rowOf = rowOf and table = table and contents = contents and f = ?f and h = h and s = s and shown = shown and wr = wr,
      OF rows k ag this rd mem] show ?thesis .
qed

lemma list_rows_as:
  assumes u: "usable c (phase s)" and r: "agreeing (contents s) M" and ord: "fair_order ord"
    and cols: "list_all (\<lambda>c. columnNamed tb c \<noteq> None) cols"
    and conds: "list_all (condValid sqliteSchema tb) conds" "list_all (condPlain tb) conds"
      "\<And>T x. holdsAll sqliteSchema T conds (rowOf x) = P x"
    and scan: "\<And>x. keeps x \<Longrightarrow> scan (map (cell (rowOf x)) cols) = Inr (rd x)"
    and rd: "\<And>x v. kept x = kept v \<Longrightarrow> shown (rd x) = shown (wr v)"
    and P: "\<And>x. P (kept x) = P x"
  shows "corresponds (sameKept shown) (stepFrom s) contents phase s
     (queryRows (sqliteStore D) c (selectFrom cols t conds) scan s) (Inr (map wr (mvalues ord P (table M))), M)"
proof -
  obtain xs where rows: "rowsOf (contents s) t = map rowOf xs" and k: "list_all keeps xs" and ag: "agree idOf kept (table M) xs"
    using r by (rule agreeingE)
  have "\<exists>ys s'. mset ys = mset (filter P xs) \<and> leaves contents phase s (contents s) s'
     \<and> queryRows (sqliteStore D) c (selectFrom cols t conds) scan s = (Inr (map rd ys), s')"
    by (rule queryRows_done [OF _ u select_value [OF rows cols conds]]) (use k scan in \<open>auto simp: list_all_iff\<close>)
  then obtain ys s' where ys: "mset ys = mset (filter P xs)" "leaves contents phase s (contents s) s'"
    "queryRows (sqliteStore D) c (selectFrom cols t conds) scan s = (Inr (map rd ys), s')" by blast
  from list_corresponds [where t = t and rowOf = rowOf and table = table and contents = contents and shown = shown and wr = wr,
      OF rows k ag ys(1,2) ord P rd] ys(3) show ?thesis by simp
qed

text \<open>The same where the rows are read as the entities themselves.\<close>

lemma get_row:
  assumes "usable c (phase s)" and "agreeing (contents s) M" and "list_all (\<lambda>c. columnNamed tb c \<noteq> None) cols"
    and "\<And>x. keeps x \<Longrightarrow> idOf x = i \<Longrightarrow> scan (map (cell (rowOf x)) cols) = Inr (rd x)" and "\<And>x. kept (rd x) = kept x"
    and "h M = (case map_of (table M) i of None \<Rightarrow> Inl e | Some x \<Rightarrow> Inr x, M)"
  shows "corresponds (sameKept kept) (stepFrom s) contents phase s
     (oneOf (queryRowContext (sqliteStore D) c (selectFrom cols t [ColEq ''id'' (SText i)]) j scan) s) (oneOf h M)"
  using get_row_as [where wr = "\<lambda>x. x" and shown = kept and rd = rd and scan = scan and h = h, OF assms(1-4) _ assms(6)] assms(5) by simp

lemma list_rows:
  assumes "usable c (phase s)" and "agreeing (contents s) M" and "fair_order ord" and "list_all (\<lambda>c. columnNamed tb c \<noteq> None) cols"
    and "list_all (condValid sqliteSchema tb) conds" and "list_all (condPlain tb) conds"
    and "\<And>T x. holdsAll sqliteSchema T conds (rowOf x) = P x"
    and "\<And>x. keeps x \<Longrightarrow> scan (map (cell (rowOf x)) cols) = Inr (rd x)" and "\<And>x. kept (rd x) = kept x"
    and "\<And>x. P (kept x) = P x"
  shows "corresponds (sameKept kept) (stepFrom s) contents phase s
     (queryRows (sqliteStore D) c (selectFrom cols t conds) scan s) (Inr (mvalues ord P (table M)), M)"
  using list_rows_as [where wr = "\<lambda>x. x" and shown = kept and rd = rd and P = P and scan = scan, OF assms(1-8) _ assms(10)] assms(9) by simp

lemma delete_value:
  assumes "rowsOf T t = map rowOf xs" and "list_all (condValid sqliteSchema tb) conds" "list_all (condPlain tb) conds"
    and "\<And>T x. holdsAll sqliteSchema T conds (rowOf x) = P x"
  shows "runStmt now sqliteSchema (DeleteFrom t conds) T
    = Done (int (length (filter P xs)), AList.update t (map rowOf (filter (\<lambda>x. \<not> P x) xs)) T)"
  unfolding runStmt.simps using runDelete_value [OF known assms(1-3)] assms(4) by blast

text \<open>A deletion that reports a missing row, and one that does not.\<close>

lemma delete_row:
  assumes u: "usable c (phase s)" and r: "agreeing (contents s) M"
    and mem: "q = (if map_of (table M) i = None then (Inl e, M) else (Inr (), M'))" "table M' = AList.delete i (table M)"
  shows "corresponds (\<lambda>_ _. True) (stepFrom s) contents phase s
     (execOne (sqliteStore D) c (DeleteFrom t [ColEq ''id'' (SText i)]) j s) q"
proof -
  obtain xs where rows: "rowsOf (contents s) t = map rowOf xs" and k: "list_all keeps xs" and ag: "agree idOf kept (table M) xs"
    using r by (rule agreeingE)
  obtain s' where "execOne (sqliteStore D) c (DeleteFrom t [ColEq ''id'' (SText i)]) j s
      = (if length (filter (\<lambda>x. idOf x = i) xs) = 0 then Inl (RowNotFound j) else Inr (), s')"
    "leaves contents phase s (AList.update t (map rowOf (filter (\<lambda>x. idOf x \<noteq> i) xs)) (contents s)) s'"
    using execOne_done [of "sqliteStore D" c s _ _ "\<lambda>_. AList.update t (map rowOf (filter (\<lambda>x. idOf x \<noteq> i) xs)) (contents s)" j,
        OF _ u delete_value [OF rows id_condition(2,3,1)]] by auto
  from delete_corresponds [where t = t and rowOf = rowOf and table = table and contents = contents,
      OF rows k ag this mem] show ?thesis .
qed

lemma agree_filter:
  assumes a: "agree idOf kept m xs" and P: "\<And>x. P (kept x) = P x"
  shows "agree idOf kept (filter (\<lambda>(_, v). \<not> P v) m) (filter (\<lambda>x. \<not> P x) xs)"
proof -
  have d: "distinct (map fst m)" "distinct (map idOf xs)" using a by (simp_all add: agree_def)
  have m: "map_of (filter (\<lambda>(_, v). \<not> P v) m) i = (case map_of m i of None \<Rightarrow> None | Some v \<Rightarrow> if P v then None else Some v)" for i
    using d(1) by (induction m) (auto simp: map_of_eq_None_iff split: option.splits)
  have x: "byId idOf (filter (\<lambda>x. \<not> P x) xs) i = (case byId idOf xs i of None \<Rightarrow> None | Some v \<Rightarrow> if P v then None else Some v)" for i
    using d(2) by (induction xs) (auto simp: byId_def map_of_eq_None_iff split: option.splits)
  have same: "P v = P w" if "kept v = kept w" for v w using that P by metis
  have "map_option kept (map_of (filter (\<lambda>(_, v). \<not> P v) m) i) = map_option kept (byId idOf (filter (\<lambda>x. \<not> P x) xs) i)" for i
  proof -
    have "map_option kept (map_of m i) = map_option kept (byId idOf xs i)" using a by (simp add: agree_def)
    then show ?thesis unfolding m x by (cases "map_of m i"; cases "byId idOf xs i") (auto dest: same)
  qed
  then show ?thesis using d by (simp add: agree_def distinct_map_filter)
qed

lemma delete_rows:
  assumes u: "usable c (phase s)" and r: "agreeing (contents s) M"
    and conds: "list_all (condValid sqliteSchema tb) conds" "list_all (condPlain tb) conds"
      "\<And>T x. holdsAll sqliteSchema T conds (rowOf x) = P x"
    and P: "\<And>x. P (kept x) = P x"
    and mem: "\<And>i. map_of (table M') i = map_of (filter (\<lambda>(_, v). \<not> P v) (table M)) i" "distinct (map fst (table M'))"
  shows "corresponds (\<lambda>_ _. True) (stepFrom s) contents phase s (execAny (sqliteStore D) c (DeleteFrom t conds) s) (Inr (), M')"
proof -
  obtain xs where rows: "rowsOf (contents s) t = map rowOf xs" and k: "list_all keeps xs" and ag: "agree idOf kept (table M) xs"
    using r by (rule agreeingE)
  obtain s' where s': "execAny (sqliteStore D) c (DeleteFrom t conds) s = (Inr (), s')"
    "contents s' = AList.update t (map rowOf (filter (\<lambda>x. \<not> P x) xs)) (contents s)" "phase s' = phase s"
    using execAny_done [of "sqliteStore D" c s _ _ "\<lambda>_. AList.update t (map rowOf (filter (\<lambda>x. \<not> P x) xs)) (contents s)",
        OF _ u delete_value [OF rows conds]] by (auto simp: leaves_def)
  have "agree idOf kept (table M') (filter (\<lambda>x. \<not> P x) xs)"
    using agree_filter [where P = P, OF ag P] mem by (simp add: agree_def)
  then have "agreeFrom t rowOf keeps idOf kept table (contents s) (contents s') M'"
    using k s'(2) unfolding agreeFrom_def rowsAgree_def
    by (intro conjI exI [of _ "filter (\<lambda>x. \<not> P x) xs"]) (auto simp: list_all_iff)
  then show ?thesis using s' by (simp add: corresponds_def sameOutcome_def)
qed

end

end
