(* ===== verification/SqlRefine.thy ===== *)
theory SqlRefine imports SqlLaws begin

text \<open>
  The SQLite store refines the memory store: on tokens and on activity instances, each call of the engine has the same outcome
  in both, up to the fields a row does not keep, and leaves contents that agree.
\<close>

lemmas table_simps = tableWith_def column_def columnNamed_def kindAgrees_def

section \<open>Tokens\<close>

definition tokenRow :: "Token \<Rightarrow> sqlRow" where
  "tokenRow t = [(''id'', SText (tok_ID t)), (''process_instance_id'', SText (tok_ProcessInstanceID t)),
     (''current_element_id'', SText (tok_CurrentElementID t)), (''lock_version'', SInt (tok_LockVersion t)),
     (''state'', SText (tokStateString (tok_State t))), (''created_at'', STime (tok_CreatedAt t))]"

definition sqliteTokens :: sqlTable where
  "sqliteTokens = tableWith [''id'']
     [column ''id'' (TextType None) Required, column ''process_instance_id'' (TextType None) Required,
      column ''current_element_id'' (TextType None) Required, column ''lock_version'' (IntType 64 True) (DefaultTo (SInt 0)),
      column ''state'' (TextType None) (DefaultTo (SText ''active'')), column ''created_at'' (TimeType 1) CurrentTime]"

lemma sqlite_tokens: "map_of (sc_tables sqliteSchema) ''tokens'' = Some sqliteTokens"
  by (simp add: sqliteSchema_def texts_def sqliteTokens_def Let_def)

lemma tokState_roundtrip [simp]: "tokStateOf (tokStateString x) = Some x"
  by (cases x) (simp_all add: tokStateOf_def)

lemma tokStateString_active [simp]: "tokStateString x = ''active'' \<longleftrightarrow> x = TokenActive"
  by (cases x) simp_all

text \<open>A row has no tenant.\<close>

definition tokenKeeps :: "Token \<Rightarrow> bool" where
  "tokenKeeps t \<longleftrightarrow> tok_TenantID t = ''''"

text \<open>What both stores keep of a token: all but the tenant and the creation time.\<close>

definition keptToken :: "Token \<Rightarrow> Token" where
  "keptToken t = t\<lparr>tok_TenantID := '''', tok_CreatedAt := 0\<rparr>"

interpretation tokenAgreement: entity_agreement tok_ID keptToken
  by unfold_locales (simp add: keptToken_def)

lemma scan_tokenRow: "tokenKeeps t \<Longrightarrow> scanToken (map (cell (tokenRow t)) tokenColumns) = Inr t"
  by (simp add: scanToken_def tokenColumns_def tokenRow_def cell_def orBadRow_def tokenKeeps_def)

lemma token_conds:
  "holdsAll sqliteSchema T [ColEq ''id'' (SText i)] (tokenRow t) = (tok_ID t = i)"
  "holdsAll sqliteSchema T [ColEq ''id'' (SText i), ColEq ''lock_version'' (SInt v)] (tokenRow t)
     = (tok_ID t = i \<and> tok_LockVersion t = v)"
  "holdsAll sqliteSchema T [ColEq ''process_instance_id'' (SText i), ColEq ''state'' (SText ''active'')] (tokenRow t)
     = (tok_ProcessInstanceID t = i \<and> tok_State t = TokenActive)"
  by (simp_all add: tokenRow_def holdsAll_def sameVal_def cell_def)

lemma token_newRow:
  "newRow now sqliteTokens [''id'', ''process_instance_id'', ''current_element_id'', ''state'']
     [SText (tok_ID t), SText (tok_ProcessInstanceID t), SText (tok_CurrentElementID t), SText (tokStateString (tok_State t))]
   = Done (tokenRow (t\<lparr>tok_TenantID := '''', tok_LockVersion := 0, tok_CreatedAt := now\<rparr>))"
  by (simp add: newRow_def sqliteTokens_def tableWith_def column_def columnValue_def tokenRow_def)

text \<open>What \<open>UpdateToken\<close> writes into the row.\<close>

definition rewrittenToken :: "Token \<Rightarrow> Token \<Rightarrow> Token" where
  "rewrittenToken t u = u\<lparr>tok_CurrentElementID := tok_CurrentElementID t, tok_State := tok_State t,
     tok_LockVersion := tok_LockVersion u + 1\<rparr>"

sublocale sqlite_database \<subseteq> tok: sqlite_entity D contents phase tok_ID keptToken "''tokens''" sqliteTokens tokenRow tokenKeeps tokens
  by unfold_locales (simp_all add: sqlite_tokens sqliteTokens_def table_simps tokenRow_def cell_def)

text \<open>The calls of \<open>TokenStore\<close>, and their results as a list of tokens.\<close>

datatype tokenCall =
    CallCreateToken Token
  | CallUpdateToken Token
  | CallGetToken string
  | CallListActiveTokens string
  | CallDeleteToken string

primrec sqlTokenCall :: "'db SqlStore \<Rightarrow> callContext \<Rightarrow> tokenCall \<Rightarrow> ('db, Token list) sqlM" where
  "sqlTokenCall S c (CallCreateToken t) = noneOf (sqlCreateToken S c t)"
| "sqlTokenCall S c (CallUpdateToken t) = noneOf (sqlUpdateToken S c t)"
| "sqlTokenCall S c (CallGetToken i) = oneOf (sqlGetToken S c i)"
| "sqlTokenCall S c (CallListActiveTokens i) = sqlListActiveTokens S c i"
| "sqlTokenCall S c (CallDeleteToken i) = noneOf (sqlDeleteToken S c i)"

primrec memTokenCall :: "order \<Rightarrow> tokenCall \<Rightarrow> Token list storeM" where
  "memTokenCall ord (CallCreateToken t) = noneOf (CreateToken t)"
| "memTokenCall ord (CallUpdateToken t) = noneOf (UpdateToken t)"
| "memTokenCall ord (CallGetToken i) = oneOf (GetToken i)"
| "memTokenCall ord (CallListActiveTokens i) = ListActiveTokens ord i"
| "memTokenCall ord (CallDeleteToken i) = noneOf (DeleteToken i)"

text \<open>
  What the engine keeps to: a token is created with version 0, and an update leaves the process instance of the token.
\<close>

fun tokenCallOk :: "Token gomap \<Rightarrow> tokenCall \<Rightarrow> bool" where
  "tokenCallOk m (CallCreateToken t) = (tok_LockVersion t = 0)"
| "tokenCallOk m (CallUpdateToken t) = (0 \<le> tok_LockVersion t \<and> tok_LockVersion t < 2 ^ 63 - 1
     \<and> (case map_of m (tok_ID t) of None \<Rightarrow> True | Some u \<Rightarrow> tok_ProcessInstanceID t = tok_ProcessInstanceID u))"
| "tokenCallOk m _ = True"

abbreviation tokensAgree :: "tables \<Rightarrow> Store \<Rightarrow> bool" where
  "tokensAgree T M \<equiv> rowsAgree ''tokens'' tokenRow tokenKeeps tok_ID keptToken T (tokens M)"

lemma rewritten_kept:
  assumes "tok_ID u = tok_ID t \<and> tok_LockVersion u = tok_LockVersion t" and "keptToken u = keptToken w"
    and "tok_ProcessInstanceID t = tok_ProcessInstanceID w"
  shows "keptToken (rewrittenToken t u) = keptToken (t\<lparr>tok_LockVersion := tok_LockVersion t + 1\<rparr>)"
proof -
  have "tok_ProcessInstanceID u = tok_ProcessInstanceID w" using assms(2) by (cases u; cases w) (simp add: keptToken_def)
  with assms show ?thesis by (simp add: keptToken_def rewrittenToken_def)
qed

lemma token_columns: "list_all (\<lambda>c. columnNamed sqliteTokens c \<noteq> None) tokenColumns"
  by (simp add: tokenColumns_def sqliteTokens_def table_simps)

lemma token_cells:
  assumes "0 \<le> tok_LockVersion t" "tok_LockVersion t < 2 ^ 63 - 1" "tok_LockVersion u = tok_LockVersion t"
  shows "mapO (updateCell sqliteTokens
     [SetTo ''current_element_id'' (SText (tok_CurrentElementID t)),
      SetTo ''state'' (SText (tokStateString (tok_State t))), Increment ''lock_version''] (tokenRow u))
     (tb_columns sqliteTokens) = Done (tokenRow (rewrittenToken t u))"
  using assms by (simp add: sqliteTokens_def tableWith_def column_def updateCell_def cell_def tokenRow_def rewrittenToken_def)

context sqlite_database
begin

lemma create_token:
  assumes "usable c (phase s)" and "tokensAgree (contents s) M" and "tok_LockVersion t = 0"
  shows "corresponds (\<lambda>_ _. True) (tok.stepFrom s) contents phase s (sqlCreateToken (sqliteStore D) c t s) (CreateToken t M)"
  unfolding sqlCreateToken_def
  by (rule tok.insert_corresponds [where v = t and e = "AlreadyExists (tok_ID t)" and M' = "M\<lparr>tokens := AList.update (tok_ID t) t (tokens M)\<rparr>",
        OF assms(1,2) _ _ conjI [OF token_newRow]])
     (use assms(3) in \<open>simp_all add: sqliteTokens_def table_simps tokenKeeps_def keptToken_def CreateToken_def\<close>)

lemma update_token:
  assumes "usable c (phase s)" and "tokensAgree (contents s) M" and ok: "tokenCallOk (tokens M) (CallUpdateToken t)"
  shows "corresponds (\<lambda>_ _. True) (tok.stepFrom s) contents phase s (sqlUpdateToken (sqliteStore D) c t s) (UpdateToken t M)"
  unfolding sqlUpdateToken_def
proof (rule tok.updated_corresponds [where v = t and versionOf = tok_LockVersion and g = "rewrittenToken t"
      and v' = "t\<lparr>tok_LockVersion := tok_LockVersion t + 1\<rparr>", OF assms(1,2)])
  show "keptToken (rewrittenToken t u) = keptToken (t\<lparr>tok_LockVersion := tok_LockVersion t + 1\<rparr>)"
    if "tok_ID u = tok_ID t" "tok_LockVersion u = tok_LockVersion t" "map_of (tokens M) (tok_ID t) = Some w" "keptToken u = keptToken w" for u w
    using that ok by (intro rewritten_kept) auto
qed (use ok token_cells in \<open>auto simp: UpdateToken_def token_conds sqliteTokens_def table_simps keptToken_def rewrittenToken_def tokenKeeps_def\<close>)

lemma get_token:
  assumes "usable c (phase s)" and "tokensAgree (contents s) M"
  shows "corresponds (sameKept keptToken) (tok.stepFrom s) contents phase s
           (oneOf (sqlGetToken (sqliteStore D) c i) s) (oneOf (GetToken i) M)"
  unfolding sqlGetToken_def
  by (rule tok.get_row [where rd = "\<lambda>t. t" and e = "NotFound i", OF assms token_columns])
     (simp_all add: scan_tokenRow GetToken_def split: option.split)

lemma list_tokens:
  assumes "usable c (phase s)" and "tokensAgree (contents s) M" and "fair_order ord"
  shows "corresponds (sameKept keptToken) (tok.stepFrom s) contents phase s
           (sqlListActiveTokens (sqliteStore D) c i s) (ListActiveTokens ord i M)"
  unfolding sqlListActiveTokens_def ListActiveTokens_def
  by (rule tok.list_rows [where rd = "\<lambda>t. t", OF assms token_columns])
     (simp_all add: scan_tokenRow token_conds keptToken_def sqliteTokens_def table_simps)

lemma delete_token:
  assumes "usable c (phase s)" and "tokensAgree (contents s) M"
  shows "corresponds (\<lambda>_ _. True) (tok.stepFrom s) contents phase s (sqlDeleteToken (sqliteStore D) c i s) (DeleteToken i M)"
  unfolding sqlDeleteToken_def
  by (rule tok.delete_row [where e = "NotFound i" and M' = "M\<lparr>tokens := AList.delete i (tokens M)\<rparr>", OF assms])
     (auto simp: DeleteToken_def)

lemmas token_operations = create_token update_token get_token list_tokens delete_token

lemma token_call:
  assumes "usable c (phase s)" and "tokensAgree (contents s) M" and "fair_order ord" and "tokenCallOk (tokens M) call"
  shows "corresponds (sameKept keptToken) (tok.stepFrom s) contents phase s
           (sqlTokenCall (sqliteStore D) c call s) (memTokenCall ord call M)"
  using assms by (cases call) (auto intro: token_operations corresponds_noneOf simp del: tokenCallOk.simps(2))

end

section \<open>Activity instances\<close>

definition activityRow :: "ActivityInstance \<Rightarrow> sqlRow" where
  "activityRow a = [(''id'', SText (ai_ID a)), (''process_instance_id'', SText (ai_ProcessInstanceID a)),
     (''tenant_id'', SText (ai_TenantID a)), (''activity_id'', SText (ai_ActivityID a)),
     (''activity_type'', SText (elementTypeString (ai_ActivityType a))), (''assignee'', SText (ai_Assignee a)),
     (''adhoc_parent_id'', SText (ai_AdhocParentID a)), (''state'', SText (actStateString (ai_State a))),
     (''claim_time'', timeVal (ai_ClaimTime a)), (''completed_time'', timeVal (ai_CompletedTime a)),
     (''multi_instance_loop'', SText (ai_MultiInstanceLoopID a)), (''loop_counter'', SInt (ai_LoopCounter a)),
     (''expire_time'', timeVal (ai_ExpireTime a)), (''lock_version'', SInt (ai_LockVersion a)),
     (''term_mode'', SInt (ai_TermMode a))]"

definition sqliteActivities :: sqlTable where
  "sqliteActivities = tableWith [''id'']
     [column ''id'' (TextType None) Required, column ''process_instance_id'' (TextType None) Required,
      column ''tenant_id'' (TextType None) (DefaultTo (SText '''')), column ''activity_id'' (TextType None) Required,
      column ''activity_type'' (TextType None) Required, column ''assignee'' (TextType None) (DefaultTo (SText '''')),
      column ''adhoc_parent_id'' (TextType None) (DefaultTo (SText '''')),
      column ''state'' (TextType None) (DefaultTo (SText ''active'')), column ''claim_time'' (TimeType 1) Nullable,
      column ''completed_time'' (TimeType 1) Nullable, column ''multi_instance_loop'' (TextType None) (DefaultTo (SText '''')),
      column ''loop_counter'' (IntType 64 True) (DefaultTo (SInt 0)), column ''expire_time'' (TimeType 1) Nullable,
      column ''lock_version'' (IntType 64 True) (DefaultTo (SInt 0)), column ''term_mode'' (IntType 64 True) (DefaultTo (SInt 0))]"

lemma sqlite_activities: "map_of (sc_tables sqliteSchema) ''activity_instances'' = Some sqliteActivities"
  by (simp add: sqliteSchema_def texts_def emptyTexts_def sqliteActivities_def Let_def)

lemma actState_roundtrip [simp]: "actStateOf (actStateString x) = Some x"
  by (cases x) (simp_all add: actStateOf_def)

lemma actStateString_active [simp]: "actStateString x = ''active'' \<longleftrightarrow> x = ActivityActive"
  by (cases x) simp_all

text \<open>The type of an activity is a string in Go; in a row it must read back as the constructor it was.\<close>

definition activityKeeps :: "ActivityInstance \<Rightarrow> bool" where
  "activityKeeps a \<longleftrightarrow> elementTypeOf (elementTypeString (ai_ActivityType a)) = ai_ActivityType a"

text \<open>What both stores keep of an activity: all but the tenant, which is written and not read.\<close>

definition keptActivity :: "ActivityInstance \<Rightarrow> ActivityInstance" where
  "keptActivity a = a\<lparr>ai_TenantID := ''''\<rparr>"

interpretation activityAgreement: entity_agreement ai_ID keptActivity
  by unfold_locales (simp add: keptActivity_def)

lemma scanTime_timeVal [simp]: "scanTime (timeVal t) = Inr t"
  by (cases t) (simp_all add: scanTime_def timeVal_def)

lemma scan_activityRow:
  "activityKeeps a \<Longrightarrow> scanActivityInstance (map (cell (activityRow a)) activityColumns) = Inr (keptActivity a)"
  by (simp add: scanActivityInstance_def activityColumns_def activityRow_def cell_def orBadRow_def activityKeeps_def keptActivity_def)

lemma activity_conds:
  "holdsAll sqliteSchema T [ColEq ''id'' (SText i)] (activityRow a) = (ai_ID a = i)"
  "holdsAll sqliteSchema T [ColEq ''id'' (SText i), ColEq ''lock_version'' (SInt v)] (activityRow a)
     = (ai_ID a = i \<and> ai_LockVersion a = v)"
  "holdsAll sqliteSchema T [ColEq ''process_instance_id'' (SText i), ColEq ''state'' (SText ''active'')] (activityRow a)
     = (ai_ProcessInstanceID a = i \<and> ai_State a = ActivityActive)"
  "holdsAll sqliteSchema T [ColEq ''process_instance_id'' (SText i)] (activityRow a) = (ai_ProcessInstanceID a = i)"
  "holdsAll sqliteSchema T [ColEq ''process_instance_id'' (SText i), ColEq ''multi_instance_loop'' (SText l)] (activityRow a)
     = (ai_ProcessInstanceID a = i \<and> ai_MultiInstanceLoopID a = l)"
  by (simp_all add: activityRow_def holdsAll_def sameVal_def cell_def)

abbreviation insertedColumns :: "string list" where
  "insertedColumns \<equiv> [''id'', ''process_instance_id'', ''tenant_id'', ''activity_id'', ''activity_type'', ''assignee'', ''adhoc_parent_id'',
     ''state'', ''multi_instance_loop'', ''loop_counter'', ''expire_time'', ''term_mode'']"

lemma activity_newRow:
  assumes "in64 (ai_LoopCounter a)" and "in64 (ai_TermMode a)"
  shows "newRow now sqliteActivities insertedColumns (sqliteActivityArgs a)
    = Done (activityRow (a\<lparr>ai_ClaimTime := None, ai_CompletedTime := None, ai_LockVersion := 0\<rparr>))"
  using assms by (cases "ai_ExpireTime a")
    (simp_all add: newRow_def sqliteActivities_def tableWith_def column_def columnValue_def activityRow_def
       sqliteActivityArgs_def timeVal_def in64_def)

text \<open>What \<open>UpdateActivityInstance\<close> writes into the row.\<close>

definition rewrittenActivity :: "ActivityInstance \<Rightarrow> ActivityInstance \<Rightarrow> ActivityInstance" where
  "rewrittenActivity a u = u\<lparr>ai_State := ai_State a, ai_Assignee := ai_Assignee a, ai_AdhocParentID := ai_AdhocParentID a,
     ai_ClaimTime := ai_ClaimTime a, ai_CompletedTime := ai_CompletedTime a, ai_MultiInstanceLoopID := ai_MultiInstanceLoopID a,
     ai_LoopCounter := ai_LoopCounter a, ai_ExpireTime := ai_ExpireTime a, ai_TermMode := ai_TermMode a,
     ai_LockVersion := ai_LockVersion u + 1\<rparr>"

abbreviation activityAssignments :: "ActivityInstance \<Rightarrow> assign list" where
  "activityAssignments a \<equiv>
     [SetTo ''state'' (SText (actStateString (ai_State a))), SetTo ''assignee'' (SText (ai_Assignee a)),
      SetTo ''adhoc_parent_id'' (SText (ai_AdhocParentID a)), SetTo ''claim_time'' (timeVal (ai_ClaimTime a)),
      SetTo ''completed_time'' (timeVal (ai_CompletedTime a)),
      SetTo ''multi_instance_loop'' (SText (ai_MultiInstanceLoopID a)),
      SetTo ''loop_counter'' (SInt (ai_LoopCounter a)), SetTo ''expire_time'' (timeVal (ai_ExpireTime a)),
      SetTo ''term_mode'' (SInt (ai_TermMode a)), Increment ''lock_version'']"

text \<open>Integers as Go holds them, with room for one more version.\<close>

definition activityInts :: "ActivityInstance \<Rightarrow> bool" where
  "activityInts a \<longleftrightarrow> in64 (ai_LoopCounter a) \<and> in64 (ai_TermMode a) \<and> in64 (ai_LockVersion a + 1)"

lemma assignTime:
  "assignValue \<lparr>co_name = n, co_type = TimeType 1, co_default = Nullable\<rparr> r (SetTo n (timeVal t)) = Done (timeVal t)"
  by (cases t) (simp_all add: timeVal_def)

lemma activity_cells:
  assumes "activityInts a" and "ai_LockVersion u = ai_LockVersion a"
  shows "mapO (updateCell sqliteActivities (activityAssignments a) (activityRow u)) (tb_columns sqliteActivities)
      = Done (activityRow (rewrittenActivity a u))"
  using assms by (simp add: sqliteActivities_def tableWith_def column_def updateCell_def assignTime cell_def activityRow_def
        rewrittenActivity_def activityInts_def in64_def)

lemma activity_columns: "list_all (\<lambda>c. columnNamed sqliteActivities c \<noteq> None) activityColumns"
  by (simp add: activityColumns_def sqliteActivities_def table_simps)

sublocale sqlite_database \<subseteq> act: sqlite_entity D contents phase ai_ID keptActivity "''activity_instances''"
    sqliteActivities activityRow activityKeeps activities
  by unfold_locales (simp_all add: sqlite_activities sqliteActivities_def table_simps activityRow_def cell_def)

text \<open>The calls of \<open>ActivityInstanceStore\<close>.\<close>

datatype activityCall =
    CallCreateActivity ActivityInstance
  | CallUpdateActivity ActivityInstance
  | CallGetActivity string
  | CallListActive string
  | CallListByInstance string
  | CallListByLoop string string

primrec sqlActivityCall :: "'db SqlStore \<Rightarrow> callContext \<Rightarrow> activityCall \<Rightarrow> ('db, ActivityInstance list) sqlM" where
  "sqlActivityCall S c (CallCreateActivity a) = noneOf (sqlCreateActivityInstance S c a)"
| "sqlActivityCall S c (CallUpdateActivity a) = noneOf (sqlUpdateActivityInstance S c a)"
| "sqlActivityCall S c (CallGetActivity i) = oneOf (sqlGetActivityInstance S c i)"
| "sqlActivityCall S c (CallListActive i) = sqlListActiveActivities S c i"
| "sqlActivityCall S c (CallListByInstance i) = sqlListActivitiesByProcessInstance S c i"
| "sqlActivityCall S c (CallListByLoop i l) = sqlListActivitiesByLoopID S c i l"

primrec memActivityCall :: "order \<Rightarrow> activityCall \<Rightarrow> ActivityInstance list storeM" where
  "memActivityCall ord (CallCreateActivity a) = noneOf (CreateActivityInstance a)"
| "memActivityCall ord (CallUpdateActivity a) = noneOf (UpdateActivityInstance a)"
| "memActivityCall ord (CallGetActivity i) = oneOf (GetActivityInstance i)"
| "memActivityCall ord (CallListActive i) = ListActiveActivities ord i"
| "memActivityCall ord (CallListByInstance i) = ListActivitiesByProcessInstance ord i"
| "memActivityCall ord (CallListByLoop i l) = ListActivitiesByLoopID ord i l"

text \<open>
  What the engine keeps to: an activity is created with version 0 and without claim or completion time, and an update leaves
  the process instance, the element and its type as they are.
\<close>

fun activityCallOk :: "ActivityInstance gomap \<Rightarrow> activityCall \<Rightarrow> bool" where
  "activityCallOk m (CallCreateActivity a) = (ai_LockVersion a = 0 \<and> ai_ClaimTime a = None \<and> ai_CompletedTime a = None
     \<and> in64 (ai_LoopCounter a) \<and> in64 (ai_TermMode a) \<and> activityKeeps a)"
| "activityCallOk m (CallUpdateActivity a) = (activityInts a
     \<and> (case map_of m (ai_ID a) of None \<Rightarrow> True | Some u \<Rightarrow> ai_ProcessInstanceID a = ai_ProcessInstanceID u
          \<and> ai_ActivityID a = ai_ActivityID u \<and> ai_ActivityType a = ai_ActivityType u))"
| "activityCallOk m _ = True"

abbreviation activitiesAgree :: "tables \<Rightarrow> Store \<Rightarrow> bool" where
  "activitiesAgree T M \<equiv> rowsAgree ''activity_instances'' activityRow activityKeeps ai_ID keptActivity T (activities M)"

lemma keptActivity_eqD:
  assumes "keptActivity u = keptActivity w"
  shows "ai_ProcessInstanceID u = ai_ProcessInstanceID w" "ai_ActivityID u = ai_ActivityID w"
    "ai_ActivityType u = ai_ActivityType w"
  using assms by (cases u; cases w; simp add: keptActivity_def)+

lemma rewrittenActivity_kept:
  assumes "ai_ID u = ai_ID a \<and> ai_LockVersion u = ai_LockVersion a" and "keptActivity u = keptActivity w"
    and "ai_ProcessInstanceID a = ai_ProcessInstanceID w \<and> ai_ActivityID a = ai_ActivityID w \<and> ai_ActivityType a = ai_ActivityType w"
  shows "keptActivity (rewrittenActivity a u) = keptActivity (a\<lparr>ai_LockVersion := ai_LockVersion a + 1\<rparr>)"
  using assms(1,3) keptActivity_eqD [OF assms(2)] by (simp add: keptActivity_def rewrittenActivity_def)

context sqlite_database
begin

lemma create_activity:
  assumes "usable c (phase s)" and "activitiesAgree (contents s) M" and ok: "activityCallOk (activities M) (CallCreateActivity a)"
  shows "corresponds (\<lambda>_ _. True) (act.stepFrom s) contents phase s
           (sqlCreateActivityInstance (sqliteStore D) c a s) (CreateActivityInstance a M)"
proof -
  have a: "a\<lparr>ai_ClaimTime := None, ai_CompletedTime := None, ai_LockVersion := 0\<rparr> = a" using ok by (cases a) simp
  have row: "newRow now sqliteActivities insertedColumns (sqliteActivityArgs a) = Done (activityRow a) \<and> activityKeeps a
      \<and> keptActivity a = keptActivity a" for now
    using activity_newRow [of a now, unfolded a] ok by simp
  have args: "dl_activityArgs (dialect (sqliteStore D)) = sqliteActivityArgs" by (simp add: sqliteDialect_def)
  show ?thesis
    unfolding sqlCreateActivityInstance_def args
    by (rule act.insert_corresponds [where v = a and e = "AlreadyExists (ai_ID a)"
          and M' = "M\<lparr>activities := AList.update (ai_ID a) a (activities M)\<rparr>", OF assms(1,2) _ _ row])
       (simp_all add: sqliteActivities_def table_simps sqliteActivityArgs_def CreateActivityInstance_def)
qed

lemma update_activity:
  assumes "usable c (phase s)" and "activitiesAgree (contents s) M" and ok: "activityCallOk (activities M) (CallUpdateActivity a)"
  shows "corresponds (\<lambda>_ _. True) (act.stepFrom s) contents phase s
           (sqlUpdateActivityInstance (sqliteStore D) c a s) (UpdateActivityInstance a M)"
  unfolding sqlUpdateActivityInstance_def
proof (rule act.updated_corresponds [where v = a and versionOf = ai_LockVersion and g = "rewrittenActivity a"
      and v' = "a\<lparr>ai_LockVersion := ai_LockVersion a + 1\<rparr>", OF assms(1,2)])
  show "keptActivity (rewrittenActivity a u) = keptActivity (a\<lparr>ai_LockVersion := ai_LockVersion a + 1\<rparr>)"
    if "ai_ID u = ai_ID a" "ai_LockVersion u = ai_LockVersion a" "map_of (activities M) (ai_ID a) = Some w" "keptActivity u = keptActivity w" for u w
    using that ok by (intro rewrittenActivity_kept) auto
  show "mapO (updateCell sqliteActivities (activityAssignments a) (activityRow u)) (tb_columns sqliteActivities)
      = Done (activityRow (rewrittenActivity a u))" if "ai_LockVersion u = ai_LockVersion a" for u
    using ok that by (intro activity_cells) simp_all
qed (auto simp: UpdateActivityInstance_def activity_conds sqliteActivities_def table_simps keptActivity_def rewrittenActivity_def activityKeeps_def)

lemma get_activity:
  assumes "usable c (phase s)" and "activitiesAgree (contents s) M"
  shows "corresponds (sameKept keptActivity) (act.stepFrom s) contents phase s
           (oneOf (sqlGetActivityInstance (sqliteStore D) c i) s) (oneOf (GetActivityInstance i) M)"
  unfolding sqlGetActivityInstance_def
  by (rule act.get_row [where rd = keptActivity and e = "NotFound i", OF assms activity_columns])
     (simp_all add: scan_activityRow GetActivityInstance_def keptActivity_def split: option.split)

lemma list_activities:
  assumes "usable c (phase s)" and "activitiesAgree (contents s) M" and "fair_order ord"
  shows "corresponds (sameKept keptActivity) (act.stepFrom s) contents phase s
           (sqlListActiveActivities (sqliteStore D) c i s) (ListActiveActivities ord i M)"
    and "corresponds (sameKept keptActivity) (act.stepFrom s) contents phase s
           (sqlListActivitiesByProcessInstance (sqliteStore D) c i s) (ListActivitiesByProcessInstance ord i M)"
    and "corresponds (sameKept keptActivity) (act.stepFrom s) contents phase s
           (sqlListActivitiesByLoopID (sqliteStore D) c i l s) (ListActivitiesByLoopID ord i l M)"
  unfolding sqlListActiveActivities_def sqlListActivitiesByProcessInstance_def sqlListActivitiesByLoopID_def
    ListActiveActivities_def ListActivitiesByProcessInstance_def ListActivitiesByLoopID_def
  by (rule act.list_rows [where rd = keptActivity, OF assms activity_columns];
      (simp add: keptActivity_def; fail | simp add: scan_activityRow activity_conds sqliteActivities_def table_simps))+

lemma activity_call:
  assumes "usable c (phase s)" and "activitiesAgree (contents s) M" and "fair_order ord"
    and "activityCallOk (activities M) call"
  shows "corresponds (sameKept keptActivity) (act.stepFrom s) contents phase s
           (sqlActivityCall (sqliteStore D) c call s) (memActivityCall ord call M)"
  using assms by (cases call)
    (auto intro: create_activity update_activity get_activity list_activities corresponds_noneOf simp del: activityCallOk.simps(1,2))

end

end
