(* ===== verification/SqlTables.thy ===== *)
theory SqlTables imports SqlRefine begin

text \<open>
  The SQLite store refines the memory store, continued: process instances, history, signal subscriptions and timer
  jobs. Variables inside a record are compared as \<open>encoding/json\<close> keeps them.
\<close>

section \<open>Values after a round trip through JSON\<close>

lemma toJson_fromJson [simp]: "toJson (fromJson (toJson v)) = toJson v"
  by (induction v rule: toJson.induct) (auto simp: comp_def case_prod_beta)

definition jsonVars :: "vars \<Rightarrow> vars" where
  "jsonVars vs = map (\<lambda>(k, v). (k, fromJson (toJson v))) vs"

lemma jsonVars_idem [simp]: "jsonVars (jsonVars vs) = jsonVars vs"
  by (simp add: jsonVars_def case_prod_beta)

lemma scanVars_json [simp]: "scanVars (SJson (varsToJson vs)) = Inr (jsonVars vs)"
  by (simp add: scanVars_def varsFromJson_def varsToJson_def jsonVars_def case_prod_beta)

section \<open>Process instances\<close>

definition instanceRow :: "ProcessInstance \<Rightarrow> sqlRow" where
  "instanceRow p = [(''id'', SText (pi_ID p)), (''def_id'', SText (pi_ProcessDefinitionID p)),
     (''business_key'', SText (pi_BusinessKey p)), (''tenant_id'', SText (pi_TenantID p)),
     (''state'', SText (piStateString (pi_State p))), (''variables'', SJson (varsToJson (pi_Variables p))),
     (''started_at'', STime (pi_StartedAt p)), (''ended_at'', timeVal (pi_EndedAt p)),
     (''parent_process_instance_id'', SText (pi_ParentProcessInstanceID p)),
     (''parent_activity_id'', SText (pi_ParentActivityID p))]"

definition sqliteInstances :: sqlTable where
  "sqliteInstances = tableWith [''id'']
     [column ''id'' (TextType None) Required, column ''def_id'' (TextType None) Required,
      column ''business_key'' (TextType None) (DefaultTo (SText '''')), column ''tenant_id'' (TextType None) (DefaultTo (SText '''')),
      column ''state'' (TextType None) (DefaultTo (SText ''running'')),
      column ''variables'' (TextType None) (DefaultTo (SJson (JObject []))), column ''started_at'' (TimeType 1) Required,
      column ''ended_at'' (TimeType 1) Nullable, column ''parent_process_instance_id'' (TextType None) (DefaultTo (SText '''')),
      column ''parent_activity_id'' (TextType None) (DefaultTo (SText ''''))]"

lemma sqlite_instances: "map_of (sc_tables sqliteSchema) ''process_instances'' = Some sqliteInstances"
  by (simp add: sqliteSchema_def texts_def emptyTexts_def sqliteInstances_def Let_def)

lemma piState_roundtrip [simp]: "piStateOf (piStateString x) = Some x"
  by (cases x) (simp_all add: piStateOf_def)

text \<open>The tenant is written and not read; the variables are read as JSON keeps them.\<close>

definition keptInstance :: "ProcessInstance \<Rightarrow> ProcessInstance" where
  "keptInstance p = p\<lparr>pi_TenantID := '''', pi_Variables := jsonVars (pi_Variables p)\<rparr>"

lemma keptInstance_idem [simp]: "keptInstance (keptInstance p) = keptInstance p"
  by (simp add: keptInstance_def)

interpretation instanceAgreement: entity_agreement pi_ID keptInstance
  by unfold_locales (simp add: keptInstance_def)

sublocale sqlite_database \<subseteq> inst: sqlite_entity D contents phase pi_ID keptInstance "''process_instances''" sqliteInstances
    instanceRow "\<lambda>_. True" instances
  by unfold_locales (simp_all add: sqlite_instances sqliteInstances_def table_simps instanceRow_def cell_def)

lemma scan_instanceRow: "scanProcessInstance (map (cell (instanceRow p)) instanceColumns) = Inr (keptInstance p)"
  by (simp add: scanProcessInstance_def instanceColumns_def instanceRow_def cell_def orBadRow_def keptInstance_def)

lemma scan_instanceRow_tl:
  "pi_ID p = i \<Longrightarrow> scanProcessInstance (SText i # map (cell (instanceRow p)) (tl instanceColumns)) = Inr (keptInstance p)"
  using scan_instanceRow [of p] by (simp add: instanceColumns_def instanceRow_def cell_def)

lemma instance_columns: "list_all (\<lambda>c. columnNamed sqliteInstances c \<noteq> None) instanceColumns"
  "list_all (\<lambda>c. columnNamed sqliteInstances c \<noteq> None) (tl instanceColumns)"
  by (simp_all add: instanceColumns_def sqliteInstances_def table_simps)

lemma instance_conds:
  "holdsAll sqliteSchema T [ColEq ''id'' (SText i)] (instanceRow p) = (pi_ID p = i)"
  "holdsAll sqliteSchema T [ColEq ''def_id'' (SText i)] (instanceRow p) = (pi_ProcessDefinitionID p = i)"
  by (simp_all add: instanceRow_def holdsAll_def sameVal_def cell_def)

text \<open>What \<open>UpdateProcessInstance\<close> writes into the row.\<close>

definition rewrittenInstance :: "ProcessInstance \<Rightarrow> ProcessInstance \<Rightarrow> ProcessInstance" where
  "rewrittenInstance p u = u\<lparr>pi_State := pi_State p, pi_Variables := pi_Variables p, pi_EndedAt := pi_EndedAt p\<rparr>"

lemma instance_cells:
  "mapO (updateCell sqliteInstances
     [SetTo ''state'' (SText (piStateString (pi_State p))), SetTo ''variables'' (SJson (varsToJson (pi_Variables p))),
      SetTo ''ended_at'' (timeVal (pi_EndedAt p))] (instanceRow u)) (tb_columns sqliteInstances)
   = Done (instanceRow (rewrittenInstance p u))"
  by (simp add: sqliteInstances_def tableWith_def column_def updateCell_def assignTime cell_def instanceRow_def rewrittenInstance_def)

text \<open>The calls of \<open>ProcessInstanceStore\<close>; which completed instances a limit leaves is up to each store.\<close>

datatype instanceCall =
    CallCreateInstance ProcessInstance
  | CallUpdateInstance ProcessInstance
  | CallGetInstance string
  | CallListInstances string

primrec sqlInstanceCall :: "'db SqlStore \<Rightarrow> callContext \<Rightarrow> instanceCall \<Rightarrow> ('db, ProcessInstance list) sqlM" where
  "sqlInstanceCall S c (CallCreateInstance p) = noneOf (sqlCreateProcessInstance S c p)"
| "sqlInstanceCall S c (CallUpdateInstance p) = noneOf (sqlUpdateProcessInstance S c p)"
| "sqlInstanceCall S c (CallGetInstance i) = oneOf (sqlGetProcessInstance S c i)"
| "sqlInstanceCall S c (CallListInstances d) = sqlListProcessInstances S c d"

primrec memInstanceCall :: "order \<Rightarrow> instanceCall \<Rightarrow> ProcessInstance list storeM" where
  "memInstanceCall ord (CallCreateInstance p) = noneOf (CreateProcessInstance p)"
| "memInstanceCall ord (CallUpdateInstance p) = noneOf (UpdateProcessInstance p)"
| "memInstanceCall ord (CallGetInstance i) = oneOf (GetProcessInstance i)"
| "memInstanceCall ord (CallListInstances d) = ListProcessInstances ord d"

text \<open>
  What the engine keeps to: an instance is created without an end, and an update changes the state, the variables and the
  end only.
\<close>

fun instanceCallOk :: "ProcessInstance gomap \<Rightarrow> instanceCall \<Rightarrow> bool" where
  "instanceCallOk m (CallCreateInstance p) = (pi_EndedAt p = None)"
| "instanceCallOk m (CallUpdateInstance p) = (case map_of m (pi_ID p) of
     None \<Rightarrow> True
   | Some u \<Rightarrow> pi_ProcessDefinitionID p = pi_ProcessDefinitionID u \<and> pi_BusinessKey p = pi_BusinessKey u
       \<and> pi_StartedAt p = pi_StartedAt u \<and> pi_ParentProcessInstanceID p = pi_ParentProcessInstanceID u
       \<and> pi_ParentActivityID p = pi_ParentActivityID u)"
| "instanceCallOk m _ = True"

abbreviation instancesAgree :: "tables \<Rightarrow> Store \<Rightarrow> bool" where
  "instancesAgree T M \<equiv> rowsAgree ''process_instances'' instanceRow (\<lambda>_. True) pi_ID keptInstance T (instances M)"

lemma keptInstance_eqD:
  assumes "keptInstance u = keptInstance w"
  shows "pi_ID u = pi_ID w" "pi_ProcessDefinitionID u = pi_ProcessDefinitionID w" "pi_BusinessKey u = pi_BusinessKey w"
    "pi_StartedAt u = pi_StartedAt w" "pi_ParentProcessInstanceID u = pi_ParentProcessInstanceID w"
    "pi_ParentActivityID u = pi_ParentActivityID w"
  using assms by (cases u; cases w; simp add: keptInstance_def)+

context sqlite_database
begin

lemma create_instance:
  assumes "usable c (phase s)" and "instancesAgree (contents s) M" and ok: "pi_EndedAt p = None"
  shows "corresponds (\<lambda>_ _. True) (inst.stepFrom s) contents phase s
           (sqlCreateProcessInstance (sqliteStore D) c p s) (CreateProcessInstance p M)"
  unfolding sqlCreateProcessInstance_def
  by (rule inst.insert_corresponds [where v = p and x = "\<lambda>_. p" and e = "AlreadyExists (pi_ID p)"
        and M' = "M\<lparr>instances := AList.update (pi_ID p) p (instances M)\<rparr>", OF assms(1,2)])
     (use ok in \<open>simp_all add: newRow_def columnValue_def sqliteInstances_def table_simps instanceRow_def timeVal_def CreateProcessInstance_def\<close>)

lemma update_instance:
  assumes "usable c (phase s)" and "instancesAgree (contents s) M" and ok: "instanceCallOk (instances M) (CallUpdateInstance p)"
  shows "corresponds (\<lambda>_ _. True) (inst.stepFrom s) contents phase s
           (sqlUpdateProcessInstance (sqliteStore D) c p s) (UpdateProcessInstance p M)"
  unfolding sqlUpdateProcessInstance_def
proof (rule inst.updated_corresponds [where v = p and versionOf = "\<lambda>_. 0" and g = "rewrittenInstance p" and v' = p, OF assms(1,2)])
  show "keptInstance (rewrittenInstance p u) = keptInstance p"
    if "pi_ID u = pi_ID p" "map_of (instances M) (pi_ID p) = Some w" "keptInstance u = keptInstance w" for u w
    using that ok keptInstance_eqD [OF that(3)] by (simp add: keptInstance_def rewrittenInstance_def)
  show "mapO (updateCell sqliteInstances
     [SetTo ''state'' (SText (piStateString (pi_State p))), SetTo ''variables'' (SJson (varsToJson (pi_Variables p))),
      SetTo ''ended_at'' (timeVal (pi_EndedAt p))] (instanceRow u)) (tb_columns sqliteInstances)
    = Done (instanceRow (rewrittenInstance p u))" for u by (rule instance_cells)
qed (auto simp: UpdateProcessInstance_def instance_conds sqliteInstances_def table_simps rewrittenInstance_def)

lemma get_instance:
  assumes "usable c (phase s)" and "instancesAgree (contents s) M"
  shows "corresponds (sameKept keptInstance) (inst.stepFrom s) contents phase s
           (oneOf (sqlGetProcessInstance (sqliteStore D) c i) s) (oneOf (GetProcessInstance i) M)"
  unfolding sqlGetProcessInstance_def
  by (rule inst.get_row [where rd = keptInstance and e = "NotFound i", OF assms instance_columns(2)])
     (simp_all add: scan_instanceRow_tl GetProcessInstance_def split: option.split)

lemma list_instances:
  assumes "usable c (phase s)" and "instancesAgree (contents s) M" and "fair_order ord"
  shows "corresponds (sameKept keptInstance) (inst.stepFrom s) contents phase s
           (sqlListProcessInstances (sqliteStore D) c d s) (ListProcessInstances ord d M)"
  unfolding sqlListProcessInstances_def ListProcessInstances_def
  by (rule inst.list_rows [where rd = keptInstance, OF assms instance_columns(1)];
      (simp add: keptInstance_def; fail | simp add: scan_instanceRow instance_conds sqliteInstances_def table_simps))

lemma instance_call:
  assumes "usable c (phase s)" and "instancesAgree (contents s) M" and "fair_order ord"
    and "instanceCallOk (instances M) call"
  shows "corresponds (sameKept keptInstance) (inst.stepFrom s) contents phase s
           (sqlInstanceCall (sqliteStore D) c call s) (memInstanceCall ord call M)"
  using assms by (cases call)
    (auto intro: create_instance update_instance get_instance list_instances corresponds_noneOf simp del: instanceCallOk.simps(2))

end

section \<open>History\<close>

definition historyRow :: "HistoricActivityInstance \<Rightarrow> sqlRow" where
  "historyRow h = [(''id'', SText (hai_ID h)), (''process_instance_id'', SText (hai_ProcessInstanceID h)),
     (''activity_id'', SText (hai_ActivityID h)), (''activity_type'', SText (elementTypeString (hai_ActivityType h))),
     (''variables'', SJson (varsToJson (hai_Variables h))), (''started_at'', STime (hai_StartedAt h)),
     (''completed_at'', STime (hai_CompletedAt h))]"

definition sqliteHistory :: sqlTable where
  "sqliteHistory = tableWith [''id'']
     [column ''id'' (TextType None) Required, column ''process_instance_id'' (TextType None) Required,
      column ''activity_id'' (TextType None) Required, column ''activity_type'' (TextType None) Required,
      column ''variables'' (TextType None) (DefaultTo (SJson (JObject []))), column ''started_at'' (TimeType 1) Nullable,
      column ''completed_at'' (TimeType 1) Nullable]"

lemma sqlite_history: "map_of (sc_tables sqliteSchema) ''historic_activity_instances'' = Some sqliteHistory"
  by (simp add: sqliteSchema_def texts_def emptyTexts_def sqliteHistory_def Let_def)

definition historyKeeps :: "HistoricActivityInstance \<Rightarrow> bool" where
  "historyKeeps h \<longleftrightarrow> elementTypeOf (elementTypeString (hai_ActivityType h)) = hai_ActivityType h"

definition keptHistory :: "HistoricActivityInstance \<Rightarrow> HistoricActivityInstance" where
  "keptHistory h = h\<lparr>hai_TenantID := '''', hai_Variables := jsonVars (hai_Variables h)\<rparr>"

interpretation historyAgreement: entity_agreement hai_ID keptHistory
  by unfold_locales (simp add: keptHistory_def)

sublocale sqlite_database \<subseteq> hist: sqlite_entity D contents phase hai_ID keptHistory "''historic_activity_instances''" sqliteHistory
    historyRow historyKeeps historicActivities
  by unfold_locales (simp_all add: sqlite_history sqliteHistory_def table_simps historyRow_def cell_def)

lemma scan_historyRow: "historyKeeps h \<Longrightarrow> scanHistory (map (cell (historyRow h)) historyColumns) = Inr (keptHistory h)"
  by (simp add: scanHistory_def historyColumns_def historyRow_def cell_def historyKeeps_def keptHistory_def)

lemma history_columns: "list_all (\<lambda>c. columnNamed sqliteHistory c \<noteq> None) historyColumns"
  by (simp add: historyColumns_def sqliteHistory_def table_simps)

lemma history_conds:
  "holdsAll sqliteSchema T [ColEq ''process_instance_id'' (SText i)] (historyRow h) = (hai_ProcessInstanceID h = i)"
  by (simp add: historyRow_def holdsAll_def sameVal_def cell_def)

datatype historyCall = CallCreateHistoric HistoricActivityInstance | CallListHistoric string

primrec sqlHistoryCall :: "'db SqlStore \<Rightarrow> callContext \<Rightarrow> historyCall \<Rightarrow> ('db, HistoricActivityInstance list) sqlM" where
  "sqlHistoryCall S c (CallCreateHistoric h) = noneOf (sqlCreateHistoricActivityInstance S c h)"
| "sqlHistoryCall S c (CallListHistoric i) = sqlListHistoricByProcessInstance S c i"

primrec memHistoryCall :: "order \<Rightarrow> historyCall \<Rightarrow> HistoricActivityInstance list storeM" where
  "memHistoryCall ord (CallCreateHistoric h) = noneOf (CreateHistoricActivityInstance h)"
| "memHistoryCall ord (CallListHistoric i) = ListHistoricByProcessInstance ord i"

text \<open>The memory store overwrites an entry whose identifier is taken, the SQL store refuses it: it must be new.\<close>

primrec historyCallOk :: "HistoricActivityInstance gomap \<Rightarrow> historyCall \<Rightarrow> bool" where
  "historyCallOk m (CallCreateHistoric h) = (map_of m (hai_ID h) = None \<and> historyKeeps h)"
| "historyCallOk m (CallListHistoric i) = True"

abbreviation historyAgree :: "tables \<Rightarrow> Store \<Rightarrow> bool" where
  "historyAgree T M \<equiv> rowsAgree ''historic_activity_instances'' historyRow historyKeeps hai_ID keptHistory T (historicActivities M)"

context sqlite_database
begin

lemma create_history:
  assumes "usable c (phase s)" and "historyAgree (contents s) M" and ok: "historyCallOk (historicActivities M) (CallCreateHistoric h)"
  shows "corresponds (\<lambda>_ _. True) (hist.stepFrom s) contents phase s
           (sqlCreateHistoricActivityInstance (sqliteStore D) c h s) (CreateHistoricActivityInstance h M)"
  unfolding sqlCreateHistoricActivityInstance_def
  by (rule hist.insert_corresponds [where v = h and x = "\<lambda>_. h" and e = "AlreadyExists (hai_ID h)"
        and M' = "M\<lparr>historicActivities := AList.update (hai_ID h) h (historicActivities M)\<rparr>", OF assms(1,2)])
     (use ok in \<open>simp_all add: newRow_def columnValue_def historyColumns_def sqliteHistory_def table_simps historyRow_def
        CreateHistoricActivityInstance_def\<close>)

lemma list_history:
  assumes "usable c (phase s)" and "historyAgree (contents s) M" and "fair_order ord"
  shows "corresponds (sameKept keptHistory) (hist.stepFrom s) contents phase s
           (sqlListHistoricByProcessInstance (sqliteStore D) c i s) (ListHistoricByProcessInstance ord i M)"
  unfolding sqlListHistoricByProcessInstance_def ListHistoricByProcessInstance_def
  by (rule hist.list_rows [where rd = keptHistory, OF assms history_columns];
      (simp add: keptHistory_def; fail | simp add: scan_historyRow history_conds sqliteHistory_def table_simps))

lemma history_call:
  assumes "usable c (phase s)" and "historyAgree (contents s) M" and "fair_order ord"
    and "historyCallOk (historicActivities M) call"
  shows "corresponds (sameKept keptHistory) (hist.stepFrom s) contents phase s
           (sqlHistoryCall (sqliteStore D) c call s) (memHistoryCall ord call M)"
  using assms by (cases call) (auto intro: create_history list_history corresponds_noneOf simp del: historyCallOk.simps(1))

end

section \<open>Signal subscriptions\<close>

definition subscriptionRow :: "SignalSubscription \<Rightarrow> sqlRow" where
  "subscriptionRow b = [(''id'', SText (ss_ID b)), (''process_instance_id'', SText (ss_ProcessInstanceID b)),
     (''element_id'', SText (ss_ElementID b)), (''signal_ref'', SText (ss_SignalRef b))]"

definition sqliteSubscriptions :: sqlTable where
  "sqliteSubscriptions = tableWith [''id'']
     [column ''id'' (TextType None) Required, column ''process_instance_id'' (TextType None) Required,
      column ''element_id'' (TextType None) Required, column ''signal_ref'' (TextType None) Required]"

lemma sqlite_subscriptions: "map_of (sc_tables sqliteSchema) ''signal_subscriptions'' = Some sqliteSubscriptions"
  by (simp add: sqliteSchema_def texts_def emptyTexts_def sqliteSubscriptions_def Let_def)

definition keptSubscription :: "SignalSubscription \<Rightarrow> SignalSubscription" where
  "keptSubscription b = b\<lparr>ss_TenantID := ''''\<rparr>"

interpretation subscriptionAgreement: entity_agreement ss_ID keptSubscription
  by unfold_locales (simp add: keptSubscription_def)

sublocale sqlite_database \<subseteq> subs: sqlite_entity D contents phase ss_ID keptSubscription "''signal_subscriptions''" sqliteSubscriptions
    subscriptionRow "\<lambda>_. True" signalSubsMap
  by unfold_locales (simp_all add: sqlite_subscriptions sqliteSubscriptions_def table_simps subscriptionRow_def cell_def)

lemma scan_subscriptionRow: "scanSubscription (map (cell (subscriptionRow b)) subscriptionColumns) = Inr (keptSubscription b)"
  by (simp add: scanSubscription_def subscriptionColumns_def subscriptionRow_def cell_def keptSubscription_def)

lemma subscription_columns: "list_all (\<lambda>c. columnNamed sqliteSubscriptions c \<noteq> None) subscriptionColumns"
  by (simp add: subscriptionColumns_def sqliteSubscriptions_def table_simps)

lemma subscription_conds:
  "holdsAll sqliteSchema T [ColEq ''id'' (SText i)] (subscriptionRow b) = (ss_ID b = i)"
  "holdsAll sqliteSchema T [ColEq ''process_instance_id'' (SText i)] (subscriptionRow b) = (ss_ProcessInstanceID b = i)"
  "holdsAll sqliteSchema T [ColEq ''signal_ref'' (SText r)] (subscriptionRow b) = (ss_SignalRef b = r)"
  by (simp_all add: subscriptionRow_def holdsAll_def sameVal_def cell_def)

datatype subscriptionCall =
    CallCreateSubscription SignalSubscription
  | CallListSubscriptions string
  | CallDeleteSubscription string
  | CallDeleteSubscriptionsBy string

primrec sqlSubscriptionCall :: "'db SqlStore \<Rightarrow> callContext \<Rightarrow> subscriptionCall \<Rightarrow> ('db, SignalSubscription list) sqlM" where
  "sqlSubscriptionCall S c (CallCreateSubscription b) = noneOf (sqlCreateSignalSubscription S c b)"
| "sqlSubscriptionCall S c (CallListSubscriptions r) = sqlListSignalSubscriptions S c r"
| "sqlSubscriptionCall S c (CallDeleteSubscription i) = noneOf (sqlDeleteSignalSubscription S c i)"
| "sqlSubscriptionCall S c (CallDeleteSubscriptionsBy p) = noneOf (sqlDeleteSubscriptionsByInstance S c p)"

primrec memSubscriptionCall :: "order \<Rightarrow> subscriptionCall \<Rightarrow> SignalSubscription list storeM" where
  "memSubscriptionCall ord (CallCreateSubscription b) = noneOf (CreateSignalSubscription b)"
| "memSubscriptionCall ord (CallListSubscriptions r) = ListSignalSubscriptions ord r"
| "memSubscriptionCall ord (CallDeleteSubscription i) = noneOf (DeleteSignalSubscription i)"
| "memSubscriptionCall ord (CallDeleteSubscriptionsBy p) = noneOf (DeleteSubscriptionsByInstance p)"

definition subscriptionCallOk :: "SignalSubscription gomap \<Rightarrow> subscriptionCall \<Rightarrow> bool" where
  "subscriptionCallOk m call = (case call of CallCreateSubscription b \<Rightarrow> map_of m (ss_ID b) = None | _ \<Rightarrow> True)"

abbreviation subscriptionsAgree :: "tables \<Rightarrow> Store \<Rightarrow> bool" where
  "subscriptionsAgree T M \<equiv> rowsAgree ''signal_subscriptions'' subscriptionRow (\<lambda>_. True) ss_ID keptSubscription T (signalSubsMap M)"

lemma rowsAgree_distinct: "rowsAgree t rowOf keeps idOf kept T m \<Longrightarrow> distinct (map fst m)"
  by (auto simp: rowsAgree_def agree_def)

lemma rowsAgree_id:
  assumes "rowsAgree t rowOf keeps idOf kept T m" and "\<And>x. idOf (kept x) = idOf x" and "map_of m i = Some v"
  shows "idOf v = i"
proof -
  have "entity_agreement idOf kept" using assms(2) by (simp add: entity_agreement_def)
  moreover obtain xs where "agree idOf kept m xs" using assms(1) by (auto simp: rowsAgree_def)
  ultimately show ?thesis using assms(3) by (rule entity_agreement.agree_id)
qed

lemma map_of_delete_filter:
  assumes "\<And>j v. map_of m j = Some v \<Longrightarrow> idOf v = j" and "distinct (map fst m)"
  shows "map_of (AList.delete i m) j = map_of (filter (\<lambda>(_, v). idOf v \<noteq> i) m) j"
proof -
  have "AList.delete i m = filter (\<lambda>(_, v). idOf v \<noteq> i) m"
    using assms unfolding AList.delete_eq by (intro filter_cong) (auto simp: map_of_eq_Some_iff)
  then show ?thesis by simp
qed

context sqlite_database
begin

lemma create_subscription:
  assumes "usable c (phase s)" and "subscriptionsAgree (contents s) M" and ok: "map_of (signalSubsMap M) (ss_ID b) = None"
  shows "corresponds (\<lambda>_ _. True) (subs.stepFrom s) contents phase s
           (sqlCreateSignalSubscription (sqliteStore D) c b s) (CreateSignalSubscription b M)"
  unfolding sqlCreateSignalSubscription_def
  by (rule subs.insert_corresponds [where v = b and x = "\<lambda>_. b" and e = "AlreadyExists (ss_ID b)"
        and M' = "M\<lparr>signalSubsMap := AList.update (ss_ID b) b (signalSubsMap M)\<rparr>", OF assms(1,2)])
     (use ok in \<open>simp_all add: newRow_def columnValue_def subscriptionColumns_def sqliteSubscriptions_def table_simps
        subscriptionRow_def CreateSignalSubscription_def\<close>)

lemma list_subscriptions:
  assumes "usable c (phase s)" and "subscriptionsAgree (contents s) M" and "fair_order ord"
  shows "corresponds (sameKept keptSubscription) (subs.stepFrom s) contents phase s
           (sqlListSignalSubscriptions (sqliteStore D) c r s) (ListSignalSubscriptions ord r M)"
  unfolding sqlListSignalSubscriptions_def ListSignalSubscriptions_def
  by (rule subs.list_rows [where rd = keptSubscription, OF assms subscription_columns];
      (simp add: keptSubscription_def; fail | simp add: scan_subscriptionRow subscription_conds sqliteSubscriptions_def table_simps))

lemma delete_subscriptions:
  assumes "usable c (phase s)" and a: "subscriptionsAgree (contents s) M"
  shows "corresponds (\<lambda>_ _. True) (subs.stepFrom s) contents phase s
           (sqlDeleteSignalSubscription (sqliteStore D) c i s) (DeleteSignalSubscription i M)"
    and "corresponds (\<lambda>_ _. True) (subs.stepFrom s) contents phase s
           (sqlDeleteSubscriptionsByInstance (sqliteStore D) c i s) (DeleteSubscriptionsByInstance i M)"
proof -
  have d: "distinct (map fst (signalSubsMap M))" using a by (rule rowsAgree_distinct)
  have id: "ss_ID v = j" if "map_of (signalSubsMap M) j = Some v" for j v
    using rowsAgree_id [OF a _ that] by (simp add: keptSubscription_def)
  show "corresponds (\<lambda>_ _. True) (subs.stepFrom s) contents phase s
           (sqlDeleteSignalSubscription (sqliteStore D) c i s) (DeleteSignalSubscription i M)"
    unfolding sqlDeleteSignalSubscription_def DeleteSignalSubscription_def
    by (rule subs.delete_rows [where P = "\<lambda>b. ss_ID b = i", OF assms])
       (use map_of_delete_filter [where idOf = ss_ID, OF id d] d in
         \<open>simp_all add: subscription_conds sqliteSubscriptions_def table_simps keptSubscription_def distinct_delete del: delete_conv\<close>)
  show "corresponds (\<lambda>_ _. True) (subs.stepFrom s) contents phase s
           (sqlDeleteSubscriptionsByInstance (sqliteStore D) c i s) (DeleteSubscriptionsByInstance i M)"
    unfolding sqlDeleteSubscriptionsByInstance_def DeleteSubscriptionsByInstance_def
    by (rule subs.delete_rows [where P = "\<lambda>b. ss_ProcessInstanceID b = i", OF assms])
       (use d in \<open>simp_all add: subscription_conds sqliteSubscriptions_def table_simps keptSubscription_def distinct_map_filter\<close>)
qed

lemma subscription_call:
  assumes "usable c (phase s)" and "subscriptionsAgree (contents s) M" and "fair_order ord"
    and "subscriptionCallOk (signalSubsMap M) call"
  shows "corresponds (sameKept keptSubscription) (subs.stepFrom s) contents phase s
           (sqlSubscriptionCall (sqliteStore D) c call s) (memSubscriptionCall ord call M)"
  using assms by (cases call)
    (auto simp: subscriptionCallOk_def intro: create_subscription list_subscriptions delete_subscriptions corresponds_noneOf)

end

section \<open>Timer jobs\<close>

definition timerRow :: "TimerJob \<Rightarrow> sqlRow" where
  "timerRow j = [(''id'', SText (tj_ID j)), (''process_instance_id'', SText (tj_ProcessInstanceID j)),
     (''element_id'', SText (tj_ElementID j)), (''due_at'', STime (tj_DueAt j)), (''fired'', SInt (if tj_Fired j then 1 else 0))]"

definition sqliteTimers :: sqlTable where
  "sqliteTimers = tableWith [''id'']
     [column ''id'' (TextType None) Required, column ''process_instance_id'' (TextType None) Required,
      column ''element_id'' (TextType None) Required, column ''due_at'' (TimeType 1) Required,
      column ''fired'' (IntType 64 True) (DefaultTo (SInt 0))]"

lemma sqlite_timers: "map_of (sc_tables sqliteSchema) ''timer_jobs'' = Some sqliteTimers"
  by (simp add: sqliteSchema_def texts_def emptyTexts_def sqliteTimers_def Let_def)

definition keptTimer :: "TimerJob \<Rightarrow> TimerJob" where
  "keptTimer j = j\<lparr>tj_TenantID := ''''\<rparr>"

interpretation timerAgreement: entity_agreement tj_ID keptTimer
  by unfold_locales (simp add: keptTimer_def)

sublocale sqlite_database \<subseteq> timer: sqlite_entity D contents phase tj_ID keptTimer "''timer_jobs''" sqliteTimers
    timerRow "\<lambda>_. True" timerJobsMap
  by unfold_locales (simp_all add: sqlite_timers sqliteTimers_def table_simps timerRow_def cell_def)

lemma timer_conds:
  "holdsAll sqliteSchema T [ColEq ''id'' (SText i)] (timerRow j) = (tj_ID j = i)"
  "holdsAll sqliteSchema T [ColEq ''process_instance_id'' (SText i)] (timerRow j) = (tj_ProcessInstanceID j = i)"
  by (simp_all add: timerRow_def holdsAll_def sameVal_def cell_def)

text \<open>The writing calls of \<open>TimerJobStore\<close>. How SQLite compares two times is not specified, so due jobs are left out.\<close>

datatype timerCall =
    CallCreateTimer TimerJob
  | CallUpdateTimer TimerJob
  | CallDeleteTimer string
  | CallDeleteTimersBy string

primrec sqlTimerCall :: "'db SqlStore \<Rightarrow> callContext \<Rightarrow> timerCall \<Rightarrow> ('db, TimerJob list) sqlM" where
  "sqlTimerCall S c (CallCreateTimer j) = noneOf (sqlCreateTimerJob S c j)"
| "sqlTimerCall S c (CallUpdateTimer j) = noneOf (sqlUpdateTimerJob S c j)"
| "sqlTimerCall S c (CallDeleteTimer i) = noneOf (sqlDeleteTimerJob S c i)"
| "sqlTimerCall S c (CallDeleteTimersBy p) = noneOf (sqlDeleteTimerJobsByInstance S c p)"

primrec memTimerCall :: "timerCall \<Rightarrow> TimerJob list storeM" where
  "memTimerCall (CallCreateTimer j) = noneOf (CreateTimerJob j)"
| "memTimerCall (CallUpdateTimer j) = noneOf (UpdateTimerJob j)"
| "memTimerCall (CallDeleteTimer i) = noneOf (DeleteTimerJob i)"
| "memTimerCall (CallDeleteTimersBy p) = noneOf (DeleteTimerJobsByInstance p)"

text \<open>A new job has a new identifier; an updated one is in the store and keeps its instance and its element.\<close>

definition timerCallOk :: "TimerJob gomap \<Rightarrow> timerCall \<Rightarrow> bool" where
  "timerCallOk m call = (case call of
       CallCreateTimer j \<Rightarrow> map_of m (tj_ID j) = None
     | CallUpdateTimer j \<Rightarrow> (case map_of m (tj_ID j) of
           None \<Rightarrow> False
         | Some u \<Rightarrow> tj_ProcessInstanceID j = tj_ProcessInstanceID u \<and> tj_ElementID j = tj_ElementID u)
     | _ \<Rightarrow> True)"

abbreviation timersAgree :: "tables \<Rightarrow> Store \<Rightarrow> bool" where
  "timersAgree T M \<equiv> rowsAgree ''timer_jobs'' timerRow (\<lambda>_. True) tj_ID keptTimer T (timerJobsMap M)"

definition rewrittenTimer :: "TimerJob \<Rightarrow> TimerJob \<Rightarrow> TimerJob" where
  "rewrittenTimer j u = u\<lparr>tj_DueAt := tj_DueAt j, tj_Fired := tj_Fired j\<rparr>"

lemma timer_cells:
  "mapO (updateCell sqliteTimers [SetTo ''due_at'' (STime (tj_DueAt j)), SetTo ''fired'' (SBool (tj_Fired j))] (timerRow u))
     (tb_columns sqliteTimers) = Done (timerRow (rewrittenTimer j u))"
  by (simp add: sqliteTimers_def tableWith_def column_def updateCell_def cell_def timerRow_def rewrittenTimer_def)

text \<open>An update that does not look at the number of rows.\<close>

lemma execAny_corresponds:
  assumes "corresponds (\<lambda>_ _. True) rel contents phase s (execOne S c st i s) (Inr (), M)"
  shows "corresponds (\<lambda>_ _. True) rel contents phase s (execAny S c st s) (Inr (), M)"
proof -
  obtain s' where "execOne S c st i s = (Inr (), s')"
    using assms by (cases "execOne S c st i s") (auto simp: corresponds_def sameOutcome_def split: sum.splits)
  then have "execAny S c st s = (Inr (), s')"
    by (cases "execContext S c st s") (auto simp: execOne_def execAny_def bindM_def returnM_def requireM_def throwM_def split: sum.splits if_splits)
  with \<open>execOne S c st i s = (Inr (), s')\<close> assms show ?thesis by simp
qed

context sqlite_database
begin

lemma create_timer:
  assumes "usable c (phase s)" and "timersAgree (contents s) M" and ok: "map_of (timerJobsMap M) (tj_ID j) = None"
  shows "corresponds (\<lambda>_ _. True) (timer.stepFrom s) contents phase s
           (sqlCreateTimerJob (sqliteStore D) c j s) (CreateTimerJob j M)"
  unfolding sqlCreateTimerJob_def
  by (rule timer.insert_corresponds [where v = j and x = "\<lambda>_. j" and e = "AlreadyExists (tj_ID j)"
        and M' = "M\<lparr>timerJobsMap := AList.update (tj_ID j) j (timerJobsMap M)\<rparr>", OF assms(1,2)])
     (use ok in \<open>simp_all add: newRow_def columnValue_def timerColumns_def sqliteTimers_def table_simps timerRow_def CreateTimerJob_def\<close>)

lemma update_timer:
  assumes "usable c (phase s)" and "timersAgree (contents s) M" and ok: "timerCallOk (timerJobsMap M) (CallUpdateTimer j)"
  shows "corresponds (\<lambda>_ _. True) (timer.stepFrom s) contents phase s
           (sqlUpdateTimerJob (sqliteStore D) c j s) (UpdateTimerJob j M)"
  unfolding sqlUpdateTimerJob_def UpdateTimerJob_def
proof (rule execAny_corresponds [where i = "tj_ID j"],
    rule timer.updated_corresponds [where v = j and versionOf = "\<lambda>_. 0" and g = "rewrittenTimer j" and v' = j, OF assms(1,2)])
  show "keptTimer (rewrittenTimer j u) = keptTimer j"
    if "tj_ID u = tj_ID j" "map_of (timerJobsMap M) (tj_ID j) = Some w" "keptTimer u = keptTimer w" for u w
    using that ok by (cases u; cases w; cases j) (simp add: keptTimer_def rewrittenTimer_def timerCallOk_def)
  show "mapO (updateCell sqliteTimers [SetTo ''due_at'' (STime (tj_DueAt j)), SetTo ''fired'' (SBool (tj_Fired j))] (timerRow u))
     (tb_columns sqliteTimers) = Done (timerRow (rewrittenTimer j u))" for u by (rule timer_cells)
qed (use ok in \<open>auto simp: timer_conds sqliteTimers_def table_simps rewrittenTimer_def timerCallOk_def\<close>)

lemma delete_timers:
  assumes "usable c (phase s)" and a: "timersAgree (contents s) M"
  shows "corresponds (\<lambda>_ _. True) (timer.stepFrom s) contents phase s
           (sqlDeleteTimerJob (sqliteStore D) c i s) (DeleteTimerJob i M)"
    and "corresponds (\<lambda>_ _. True) (timer.stepFrom s) contents phase s
           (sqlDeleteTimerJobsByInstance (sqliteStore D) c i s) (DeleteTimerJobsByInstance i M)"
proof -
  have d: "distinct (map fst (timerJobsMap M))" using a by (rule rowsAgree_distinct)
  have id: "tj_ID v = j" if "map_of (timerJobsMap M) j = Some v" for j v
    using rowsAgree_id [OF a _ that] by (simp add: keptTimer_def)
  show "corresponds (\<lambda>_ _. True) (timer.stepFrom s) contents phase s
           (sqlDeleteTimerJob (sqliteStore D) c i s) (DeleteTimerJob i M)"
    unfolding sqlDeleteTimerJob_def DeleteTimerJob_def
    by (rule timer.delete_rows [where P = "\<lambda>b. tj_ID b = i", OF assms])
       (use map_of_delete_filter [where idOf = tj_ID, OF id d] d in
         \<open>simp_all add: timer_conds sqliteTimers_def table_simps keptTimer_def distinct_delete del: delete_conv\<close>)
  show "corresponds (\<lambda>_ _. True) (timer.stepFrom s) contents phase s
           (sqlDeleteTimerJobsByInstance (sqliteStore D) c i s) (DeleteTimerJobsByInstance i M)"
    unfolding sqlDeleteTimerJobsByInstance_def DeleteTimerJobsByInstance_def
    by (rule timer.delete_rows [where P = "\<lambda>b. tj_ProcessInstanceID b = i", OF assms])
       (use d in \<open>simp_all add: timer_conds sqliteTimers_def table_simps keptTimer_def distinct_map_filter\<close>)
qed

lemma timer_call:
  assumes "usable c (phase s)" and "timersAgree (contents s) M" and "timerCallOk (timerJobsMap M) call"
  shows "corresponds (sameKept keptTimer) (timer.stepFrom s) contents phase s
           (sqlTimerCall (sqliteStore D) c call s) (memTimerCall call M)"
proof (cases call)
  case (CallUpdateTimer j)
  then show ?thesis using assms by (auto intro: update_timer corresponds_noneOf)
qed (use assms in \<open>auto simp: timerCallOk_def intro: create_timer delete_timers corresponds_noneOf\<close>)

end

end
