(* ===== verification/SqlVariables.thy ===== *)
theory SqlVariables imports SqlTables begin

text \<open>
  The variables in the SQLite store against those of the memory store: one table with the instance and the name as its key
  against a map of maps. Values are compared as \<open>encoding/json\<close> keeps them.
\<close>

definition sqliteVariables :: sqlTable where
  "sqliteVariables = tableWith [''process_instance_id'', ''name'']
     [column ''process_instance_id'' (TextType None) Required, column ''name'' (TextType None) Required,
      column ''value'' (TextType None) (DefaultTo (SText ''''))]"

lemma sqlite_variables: "map_of (sc_tables sqliteSchema) ''variables'' = Some sqliteVariables"
  by (simp add: sqliteSchema_def texts_def emptyTexts_def sqliteVariables_def Let_def)

definition variableRow :: "string \<Rightarrow> string \<Rightarrow> gval \<Rightarrow> sqlRow" where
  "variableRow i n v = [(''process_instance_id'', SText i), (''name'', SText n), (''value'', SJson (toJson v))]"

lemma variable_upsert:
  "runStmt now sqliteSchema (Upsert ''variables'' [''process_instance_id'', ''name'', ''value''] [SText i, SText n, SJson (toJson v)]) T
    = Done (1, AList.update ''variables''
        (filter (\<lambda>r. \<not> (cell r ''process_instance_id'' = SText i \<and> cell r ''name'' = SText n)) (rowsOf T ''variables'')
         @ [variableRow i n v]) T)"
proof -
  have key: "sameKey sqliteSchema sqliteVariables (variableRow i n v) r
      \<longleftrightarrow> cell r ''process_instance_id'' = SText i \<and> cell r ''name'' = SText n" for r
    by (auto simp: sameKey_def sqliteVariables_def tableWith_def sameVal_def variableRow_def cell_def [of "_ # _"] split: sqlVal.splits)
  have row: "newRow now sqliteVariables [''process_instance_id'', ''name'', ''value''] [SText i, SText n, SJson (toJson v)]
      = Done (variableRow i n v)"
    by (simp add: newRow_def sqliteVariables_def tableWith_def column_def columnValue_def variableRow_def)
  have known: "list_all (\<lambda>c. columnNamed sqliteVariables c \<noteq> None) [''process_instance_id'', ''name'', ''value'']"
    by (simp add: sqliteVariables_def table_simps)
  show ?thesis
    unfolding runStmt.simps using runUpsert_value [OF sqlite_variables known _ row] by (simp add: key)
qed

lemma scanValue_json: "scanValue (SJson j) = Inr (fromJson j)"
  by (simp add: scanValue_def)

lemma variable_condition:
  "holdsAll sqliteSchema T [ColEq ''process_instance_id'' (SText i), ColEq ''name'' (SText n)] r
     \<longleftrightarrow> cell r ''process_instance_id'' = SText i \<and> cell r ''name'' = SText n"
  by (auto simp: holdsAll_def sameVal_def split: sqlVal.splits)

section \<open>The two representations\<close>

type_synonym entry = "string \<times> string \<times> gval"

fun entryKey :: "entry \<Rightarrow> string \<times> string" where
  "entryKey (p, n, v) = (p, n)"

lemma entryKey_eq: "entryKey x = (fst x, fst (snd x))"
  by (cases x) simp

fun entryRow :: "entry \<Rightarrow> sqlRow" where
  "entryRow (p, n, v) = variableRow p n v"

definition entryAt :: "entry list \<Rightarrow> string \<Rightarrow> string \<Rightarrow> gval option" where
  "entryAt xs p n = map_of (map (\<lambda>(p, n, v). ((p, n), v)) xs) (p, n)"

definition asJson :: "gval \<Rightarrow> gval" where
  "asJson v = fromJson (toJson v)"

lemma asJson_idem [simp]: "asJson (asJson v) = asJson v"
  by (simp add: asJson_def)

definition varsDistinct :: "vars gomap \<Rightarrow> bool" where
  "varsDistinct m \<longleftrightarrow> (\<forall>p vs. map_of m p = Some vs \<longrightarrow> distinct (map fst vs))"

definition variablesAgree :: "tables \<Rightarrow> Store \<Rightarrow> bool" where
  "variablesAgree T M \<longleftrightarrow> varsDistinct (variables M)
     \<and> (\<exists>xs. rowsOf T ''variables'' = map entryRow xs \<and> distinct (map entryKey xs)
        \<and> (\<forall>p n. map_option asJson (map_of (instanceVars M p) n) = map_option asJson (entryAt xs p n)))"

definition variablesFrom :: "tables \<Rightarrow> tables \<Rightarrow> Store \<Rightarrow> bool" where
  "variablesFrom T0 T M \<longleftrightarrow> variablesAgree T M \<and> (\<forall>t'. t' \<noteq> ''variables'' \<longrightarrow> rowsOf T t' = rowsOf T0 t')"

lemma variablesAgreeE:
  assumes "variablesAgree T M"
  obtains xs where "rowsOf T ''variables'' = map entryRow xs" and "distinct (map entryKey xs)"
    and "\<And>p n. map_option asJson (map_of (instanceVars M p) n) = map_option asJson (entryAt xs p n)"
    and "varsDistinct (variables M)"
  using assms by (auto simp: variablesAgree_def)

lemma instanceVars_distinct: "varsDistinct (variables M) \<Longrightarrow> distinct (map fst (instanceVars M p))"
  by (simp add: varsDistinct_def instanceVars_def split: option.split)

lemma entryAt_Some: "distinct (map entryKey xs) \<Longrightarrow> entryAt xs p n = Some v \<longleftrightarrow> (p, n, v) \<in> set xs"
proof -
  assume "distinct (map entryKey xs)"
  moreover have "map fst (map (\<lambda>(p, n, v). ((p, n), v)) xs) = map entryKey xs" by (induction xs) auto
  ultimately have "distinct (map fst (map (\<lambda>(p, n, v). ((p, n), v)) xs))" by metis
  then show ?thesis unfolding entryAt_def by (subst map_of_eq_Some_iff) force+
qed

lemma entryAt_None: "entryAt xs p n = None \<longleftrightarrow> (p, n) \<notin> entryKey ` set xs"
  by (force simp: entryAt_def map_of_eq_None_iff)

lemma entryAt_simps [simp]:
  "entryAt [] p n = None" "entryAt ((p', n', v) # xs) p n = (if (p, n) = (p', n') then Some v else entryAt xs p n)"
  by (simp_all add: entryAt_def)

lemma entryAt_replaced:
  "entryAt (filter (\<lambda>x. entryKey x \<noteq> (p, n)) xs @ ys) p' n' =
     (if (p', n') = (p, n) then entryAt ys p' n'
      else case entryAt xs p' n' of None \<Rightarrow> entryAt ys p' n' | Some v \<Rightarrow> Some v)"
proof (induction xs)
  case (Cons x xs)
  then show ?case by (cases x) auto
qed simp

lemma entry_condition:
  "holdsAll sqliteSchema T [ColEq ''process_instance_id'' (SText p), ColEq ''name'' (SText n)] (entryRow x) = (entryKey x = (p, n))"
  "holdsAll sqliteSchema T [ColEq ''process_instance_id'' (SText p)] (entryRow x) = (fst (entryKey x) = p)"
  by (cases x; auto simp: variableRow_def holdsAll_def sameVal_def cell_def)+

lemma filter_entryKey:
  "distinct (map entryKey xs) \<Longrightarrow> filter (\<lambda>x. entryKey x = (p, n)) xs = (case entryAt xs p n of None \<Rightarrow> [] | Some v \<Rightarrow> [(p, n, v)])"
proof (induction xs)
  case (Cons x xs)
  obtain p' n' v where x: "x = (p', n', v)" by (cases x)
  show ?case
  proof (cases "(p', n') = (p, n)")
    case True
    then have "(p, n) \<notin> entryKey ` set xs" using Cons.prems by (auto simp: x)
    then have "filter (\<lambda>x. entryKey x = (p, n)) xs = []" by (metis (mono_tags, lifting) filter_empty_conv image_eqI)
    then show ?thesis using True by (auto simp: x entryAt_def)
  next
    case False
    then show ?thesis using Cons by (auto simp: x entryAt_def)
  qed
qed (simp add: entryAt_def)

section \<open>The calls\<close>

datatype variableCall =
    CallSetVariable string string gval
  | CallGetVariable string string
  | CallGetAllVariables string
  | CallDeleteVariable string string

text \<open>Results as named values.\<close>

primrec sqlVariableCall :: "'db SqlStore \<Rightarrow> callContext \<Rightarrow> variableCall \<Rightarrow> ('db, (string \<times> gval) list) sqlM" where
  "sqlVariableCall S c (CallSetVariable p n v) = noneOf (sqlSetVariable S c p n v)"
| "sqlVariableCall S c (CallGetVariable p n) = bindM (sqlGetVariable S c p n) (\<lambda>v. returnM [(n, v)])"
| "sqlVariableCall S c (CallGetAllVariables p) = sqlGetAllVariables S c p"
| "sqlVariableCall S c (CallDeleteVariable p n) = noneOf (sqlDeleteVariable S c p n)"

primrec memVariableCall :: "variableCall \<Rightarrow> (string \<times> gval) list storeM" where
  "memVariableCall (CallSetVariable p n v) = noneOf (SetVariable p n v)"
| "memVariableCall (CallGetVariable p n) = bindM (GetVariable p n) (\<lambda>v. returnM [(n, v)])"
| "memVariableCall (CallGetAllVariables p) = GetAllVariables p"
| "memVariableCall (CallDeleteVariable p n) = noneOf (DeleteVariable p n)"

definition keptVariable :: "string \<times> gval \<Rightarrow> string \<times> gval" where
  "keptVariable = map_prod id asJson"

lemma keptVariable_distinct:
  assumes "distinct (map fst kvs)"
  shows "distinct (map keptVariable kvs)"
proof -
  have "map fst (map keptVariable kvs) = map fst kvs" by (simp add: keptVariable_def)
  with assms show ?thesis by (metis distinct_map)
qed

lemma agree_replaced:
  assumes xs: "distinct (map entryKey xs)" and same: "\<And>p n. map_option asJson (map_of (instanceVars M p) n) = map_option asJson (entryAt xs p n)"
    and d: "varsDistinct (variables M')" and ys: "ys = [] \<or> (\<exists>v. ys = [(p, n, v)])"
    and M': "\<And>p' n'. map_of (instanceVars M' p') n' = (if (p', n') = (p, n) then entryAt ys p n else map_of (instanceVars M p') n')"
    and T: "T = AList.update ''variables'' (map entryRow (filter (\<lambda>x. entryKey x \<noteq> (p, n)) xs @ ys)) T0"
  shows "variablesFrom T0 T M'"
proof -
  have "distinct (map entryKey (filter (\<lambda>x. entryKey x \<noteq> (p, n)) xs @ ys))" using xs ys by (auto simp: distinct_map_filter)
  moreover have "map_option asJson (map_of (instanceVars M' p') n')
      = map_option asJson (entryAt (filter (\<lambda>x. entryKey x \<noteq> (p, n)) xs @ ys) p' n')" for p' n'
    using ys same [of p' n'] by (auto simp: M' entryAt_replaced split: option.splits)
  ultimately show ?thesis using d unfolding T variablesFrom_def variablesAgree_def
    by (auto intro!: exI [of _ "filter (\<lambda>x. entryKey x \<noteq> (p, n)) xs @ ys"] simp del: map_append)
qed

lemma SetVariable_vars:
  "instanceVars (snd (SetVariable p n v M)) p' = (if p' = p then AList.update n v (instanceVars M p) else instanceVars M p')"
  by (simp add: SetVariable_def instanceVars_def)

lemma DeleteVariable_vars:
  "map_of (instanceVars M p) n \<noteq> None \<Longrightarrow>
    instanceVars (snd (DeleteVariable p n M)) p' = (if p' = p then AList.delete n (instanceVars M p) else instanceVars M p')"
  by (auto simp: DeleteVariable_def instanceVars_def split: option.splits)

lemma varsDistinct_update: "varsDistinct m \<Longrightarrow> distinct (map fst vs) \<Longrightarrow> varsDistinct (AList.update p vs m)"
  by (simp add: varsDistinct_def)

lemma update_all: "distinct (map fst kvs) \<Longrightarrow> fold (\<lambda>(k, v). AList.update k v) kvs [] = kvs"
proof -
  have "distinct (map fst (acc @ kvs)) \<Longrightarrow> fold (\<lambda>(k, v). AList.update k v) kvs acc = acc @ kvs" for acc
  proof (induction kvs arbitrary: acc)
    case (Cons kv kvs)
    obtain k v where kv: "kv = (k, v)" by (cases kv)
    then have "k \<notin> fst ` set acc" using Cons.prems by auto
    then have "AList.update k v acc = acc @ [(k, v)]" by (induction acc) auto
    then show ?case using Cons by (simp add: kv)
  qed simp
  then show "distinct (map fst kvs) \<Longrightarrow> fold (\<lambda>(k, v). AList.update k v) kvs [] = kvs" by force
qed

context sqlite_database
begin

lemma set_variable:
  assumes u: "usable c (phase s)" and a: "variablesAgree (contents s) M"
  shows "corresponds (\<lambda>_ _. True) (variablesFrom (contents s)) contents phase s
           (sqlSetVariable (sqliteStore D) c p n v s) (SetVariable p n v M)"
proof -
  obtain xs where xs: "rowsOf (contents s) ''variables'' = map entryRow xs" "distinct (map entryKey xs)"
    "\<And>p n. map_option asJson (map_of (instanceVars M p) n) = map_option asJson (entryAt xs p n)" "varsDistinct (variables M)"
    using a by (rule variablesAgreeE) blast
  let ?xs = "filter (\<lambda>x. entryKey x \<noteq> (p, n)) xs @ [(p, n, v)]"
  have "filter (\<lambda>r. \<not> (cell r ''process_instance_id'' = SText p \<and> cell r ''name'' = SText n)) (map entryRow xs) @ [variableRow p n v]
      = map entryRow ?xs"
    by (induction xs) (auto simp: variableRow_def cell_def)
  then obtain s' where s': "sqlSetVariable (sqliteStore D) c p n v s = (Inr (), s')"
    "contents s' = AList.update ''variables'' (map entryRow ?xs) (contents s)" "phase s' = phase s"
    unfolding sqlSetVariable_def
    using execAny_done [of "sqliteStore D" c s _ 1 "\<lambda>_. AList.update ''variables'' (map entryRow ?xs) (contents s)", OF _ u]
      variable_upsert [of _ p n v "contents s"] by (auto simp: xs(1) leaves_def)
  have "variablesFrom (contents s) (contents s') (snd (SetVariable p n v M))"
  proof (rule agree_replaced [OF xs(2,3) _ _ _ s'(2)])
    show "varsDistinct (variables (snd (SetVariable p n v M)))"
      using xs(4) instanceVars_distinct [OF xs(4), of p] by (simp add: SetVariable_def varsDistinct_update distinct_update)
  qed (auto simp: SetVariable_vars)
  then show ?thesis using s' by (simp add: corresponds_def sameOutcome_def SetVariable_def)
qed

lemma variables_select:
  assumes "rowsOf T ''variables'' = map entryRow xs"
  shows "runQuery sqliteSchema (selectFrom [''value''] ''variables''
        [ColEq ''process_instance_id'' (SText p), ColEq ''name'' (SText n)]) T = Done (map entryRow (filter (\<lambda>x. entryKey x = (p, n)) xs))"
    and "runQuery sqliteSchema (selectFrom [''name'', ''value''] ''variables'' [ColEq ''process_instance_id'' (SText p)]) T
      = Done (map entryRow (filter (\<lambda>x. fst (entryKey x) = p) xs))"
  by (rule runQuery_value [OF sqlite_variables assms]; simp add: entry_condition sqliteVariables_def table_simps)+

lemma get_variable:
  assumes u: "usable c (phase s)" and a: "variablesAgree (contents s) M"
  shows "corresponds (sameKept keptVariable) (variablesFrom (contents s)) contents phase s
           (sqlVariableCall (sqliteStore D) c (CallGetVariable p n) s) (memVariableCall (CallGetVariable p n) M)"
proof -
  obtain xs where xs: "rowsOf (contents s) ''variables'' = map entryRow xs" "distinct (map entryKey xs)"
    "\<And>p n. map_option asJson (map_of (instanceVars M p) n) = map_option asJson (entryAt xs p n)" "varsDistinct (variables M)"
    using a by (rule variablesAgreeE) blast
  let ?hit = "map_option (\<lambda>v. (p, n, v)) (entryAt xs p n)"
  have "\<exists>s'. leaves contents phase s (contents s) s' \<and> sqlGetVariable (sqliteStore D) c p n s
     = (case ?hit of None \<Rightarrow> Inl (RowNotFound n) | Some x \<Rightarrow> Inr (asJson (snd (snd x))), s')"
    unfolding sqlGetVariable_def
    by (rule queryRow_done [OF _ u variables_select(1) [OF xs(1)]])
       (auto simp: filter_entryKey [OF xs(2)] variableRow_def cell_def scanValue_json asJson_def split: option.splits)
  then obtain s' where s': "leaves contents phase s (contents s) s'" "sqlGetVariable (sqliteStore D) c p n s
     = (case ?hit of None \<Rightarrow> Inl (RowNotFound n) | Some x \<Rightarrow> Inr (asJson (snd (snd x))), s')" by blast
  have "variablesFrom (contents s) (contents s') M" using s'(1) a by (simp add: variablesFrom_def leaves_def)
  moreover have "GetVariable p n M = (case map_of (instanceVars M p) n of None \<Rightarrow> Inl (NotFound n) | Some v \<Rightarrow> Inr v, M)"
    by (auto simp: GetVariable_def instanceVars_def split: option.splits)
  ultimately show ?thesis using s' xs(3) [of p n]
    by (cases "entryAt xs p n"; cases "map_of (instanceVars M p) n")
       (auto simp: corresponds_def sameOutcome_def bindM_Inr bindM_Inl returnM_def leaves_def sameKept_def keptVariable_def)
qed

lemma delete_variable:
  assumes u: "usable c (phase s)" and a: "variablesAgree (contents s) M"
  shows "corresponds (\<lambda>_ _. True) (variablesFrom (contents s)) contents phase s
           (sqlDeleteVariable (sqliteStore D) c p n s) (DeleteVariable p n M)"
proof -
  obtain xs where xs: "rowsOf (contents s) ''variables'' = map entryRow xs" "distinct (map entryKey xs)"
    "\<And>p n. map_option asJson (map_of (instanceVars M p) n) = map_option asJson (entryAt xs p n)" "varsDistinct (variables M)"
    using a by (rule variablesAgreeE) blast
  let ?ys = "filter (\<lambda>x. entryKey x \<noteq> (p, n)) xs"
  have del: "runStmt now sqliteSchema (DeleteFrom ''variables'' [ColEq ''process_instance_id'' (SText p), ColEq ''name'' (SText n)]) (contents s)
      = Done (int (length (filter (\<lambda>x. entryKey x = (p, n)) xs)), AList.update ''variables'' (map entryRow ?ys) (contents s))" for now
    unfolding runStmt.simps
    by (rule runDelete_value [OF sqlite_variables xs(1)]) (simp_all add: entry_condition sqliteVariables_def table_simps)
  obtain s' where s': "sqlDeleteVariable (sqliteStore D) c p n s
      = (if length (filter (\<lambda>x. entryKey x = (p, n)) xs) = 0 then Inl (RowNotFound n) else Inr (), s')"
    "contents s' = AList.update ''variables'' (map entryRow ?ys) (contents s)" "phase s' = phase s"
    unfolding sqlDeleteVariable_def
    using execOne_done [where S = "sqliteStore D" and f = "\<lambda>_. AList.update ''variables'' (map entryRow ?ys) (contents s)" and i = n,
        OF _ u del] by (auto simp: leaves_def)
  have gone: "length (filter (\<lambda>x. entryKey x = (p, n)) xs) = 0 \<longleftrightarrow> map_of (instanceVars M p) n = None"
    using xs(3) [of p n] by (auto simp: filter_entryKey [OF xs(2)] split: option.splits)
  have mem: "DeleteVariable p n M = (if map_of (instanceVars M p) n = None then (Inl (NotFound n), M)
      else (Inr (), snd (DeleteVariable p n M)))"
    by (auto simp: DeleteVariable_def instanceVars_def split: option.splits)
  show ?thesis
  proof (cases "map_of (instanceVars M p) n")
    case None
    then have "entryAt xs p n = None" using xs(3) [of p n] by simp
    then have "filter (\<lambda>x. entryKey x = (p, n)) xs = []" by (simp add: filter_entryKey [OF xs(2)])
    then have "?ys = xs" by (metis (mono_tags, lifting) filter_True filter_empty_conv)
    then have "variablesFrom (contents s) (contents s') M"
      using s'(2) xs unfolding variablesFrom_def variablesAgree_def by auto
    then show ?thesis using None gone s'(1) mem by (simp add: corresponds_def sameOutcome_def)
  next
    case (Some v)
    have "variablesFrom (contents s) (contents s') (snd (DeleteVariable p n M))"
    proof (rule agree_replaced [OF xs(2,3), where ys = "[]"])
      show "varsDistinct (variables (snd (DeleteVariable p n M)))"
        using xs(4) by (auto simp: DeleteVariable_def varsDistinct_def distinct_delete split: option.splits)
    qed (use s'(2) Some in \<open>auto simp: DeleteVariable_vars\<close>)
    moreover have "fst (DeleteVariable p n M) = Inr ()" using mem Some by (metis fst_conv option.distinct(1))
    ultimately show ?thesis using Some gone s'(1,3) by (simp add: corresponds_def sameOutcome_def)
  qed
qed

lemma get_all_variables:
  assumes u: "usable c (phase s)" and a: "variablesAgree (contents s) M"
  shows "corresponds (sameKept keptVariable) (variablesFrom (contents s)) contents phase s
           (sqlGetAllVariables (sqliteStore D) c p s) (GetAllVariables p M)"
proof -
  obtain xs where xs: "rowsOf (contents s) ''variables'' = map entryRow xs" "distinct (map entryKey xs)"
    "\<And>p n. map_option asJson (map_of (instanceVars M p) n) = map_option asJson (entryAt xs p n)" "varsDistinct (variables M)"
    using a by (rule variablesAgreeE) blast
  let ?h = "\<lambda>x :: entry. (fst (snd x), asJson (snd (snd x)))"
  have "\<exists>ys s'. mset ys = mset (filter (\<lambda>x. fst (entryKey x) = p) xs) \<and> leaves contents phase s (contents s) s'
     \<and> queryRows (sqliteStore D) c (selectFrom [''name'', ''value''] ''variables'' [ColEq ''process_instance_id'' (SText p)]) scanNamed s
         = (Inr (map ?h ys), s')"
  proof (rule queryRows_done [OF _ u variables_select(2) [OF xs(1)]])
    show "scanNamed (map (cell (entryRow x)) [''name'', ''value'']) = Inr (?h x)" for x
      by (cases x) (simp add: scanNamed_def variableRow_def cell_def scanValue_json asJson_def)
  qed simp
  then obtain ys s' where ys: "mset ys = mset (filter (\<lambda>x. fst (entryKey x) = p) xs)" and s': "leaves contents phase s (contents s) s'"
    and q: "queryRows (sqliteStore D) c (selectFrom [''name'', ''value''] ''variables'' [ColEq ''process_instance_id'' (SText p)]) scanNamed s
         = (Inr (map ?h ys), s')" by blast
  have set_ys: "set ys = {x \<in> set xs. fst x = p}" using mset_eq_setD [OF ys] by (simp add: entryKey_eq)
  have "distinct (map entryKey (filter (\<lambda>x. fst (entryKey x) = p) xs))" using xs(2) by (rule distinct_map_filter)
  then have "distinct (map entryKey ys)" using mset_eq_imp_distinct_iff [of "map entryKey ys" "map entryKey (filter (\<lambda>x. fst (entryKey x) = p) xs)"] ys
    by (simp add: mset_map)
  then have names: "distinct (map fst (map ?h ys))" using set_ys by (auto simp: distinct_map inj_on_def entryKey_eq)
  have "set (map (keptVariable \<circ> ?h) ys) = set (map keptVariable (instanceVars M p))"
  proof -
    have "(n, w) \<in> set (map (keptVariable \<circ> ?h) ys) \<longleftrightarrow> map_option asJson (entryAt xs p n) = Some w" for n w
      using set_ys by (force simp: keptVariable_def entryAt_Some [OF xs(2)])
    moreover have "(n, w) \<in> set (map keptVariable (instanceVars M p)) \<longleftrightarrow> map_option asJson (map_of (instanceVars M p) n) = Some w" for n w
      using instanceVars_distinct [OF xs(4), of p] by (force simp: keptVariable_def map_of_eq_Some_iff)
    ultimately have "kv \<in> set (map (keptVariable \<circ> ?h) ys) \<longleftrightarrow> kv \<in> set (map keptVariable (instanceVars M p))" for kv
      by (cases kv) (simp only: xs(3))
    then show ?thesis by blast
  qed
  moreover have "distinct (map (keptVariable \<circ> ?h) ys)" "distinct (map keptVariable (instanceVars M p))"
    using keptVariable_distinct [OF names] keptVariable_distinct [OF instanceVars_distinct [OF xs(4)]] by simp_all
  ultimately have "mset (map (keptVariable \<circ> ?h) ys) = mset (map keptVariable (instanceVars M p))"
    using set_eq_iff_mset_eq_distinct by blast
  then have "sameKept keptVariable (map ?h ys) (instanceVars M p)" by (simp add: sameKept_def)
  moreover have "variablesFrom (contents s) (contents s') M" using s' a by (simp add: variablesFrom_def leaves_def)
  ultimately show ?thesis
    using s' q update_all [OF names] by (simp add: corresponds_def sameOutcome_def sqlGetAllVariables_def bindM_Inr returnM_def GetAllVariables_def leaves_def)
qed

lemma variable_call:
  assumes "usable c (phase s)" and "variablesAgree (contents s) M"
  shows "corresponds (sameKept keptVariable) (variablesFrom (contents s)) contents phase s
           (sqlVariableCall (sqliteStore D) c call s) (memVariableCall call M)"
proof (cases call)
  case (CallGetVariable p n)
  then show ?thesis using get_variable [OF assms] by simp
qed (auto intro: set_variable get_all_variables delete_variable corresponds_noneOf assms)

end

end
