(* ===== verification/SqlDefinitions.thy ===== *)
theory SqlDefinitions imports SqlVariables Runs begin

text \<open>
  The process definitions in the SQLite store against those of the memory store. A row holds the JSON document of
  a definition; a definition read back has the same elements, as a map. Both stores find the same latest version.
\<close>

section \<open>Definitions up to the order of their elements\<close>

definition canonMap :: "'v gomap \<Rightarrow> 'v gomap" where
  "canonMap m = map (\<lambda>k. (k, the (map_of m k))) (sorted_list_of_set (fst ` set m))"

lemma canonMap_cong: "map_of m = map_of m' \<Longrightarrow> canonMap m = canonMap m'"
  unfolding canonMap_def by (metis dom_map_of_conv_image_fst)

definition canonDef :: "ProcessDefinition \<Rightarrow> ProcessDefinition" where
  "canonDef d = d\<lparr>pd_Elements := canonMap (pd_Elements d)\<rparr>"

lemma canonDef_eqD:
  assumes "canonDef d = canonDef e"
  shows "pd_ID d = pd_ID e" "pd_Key d = pd_Key e" "pd_Version d = pd_Version e"
  using assms by (cases d; cases e; simp add: canonDef_def)+

text \<open>A stored definition has the time its row was made.\<close>

type_synonym storedDef = "ProcessDefinition \<times> int"

definition storedID :: "storedDef \<Rightarrow> string" where
  "storedID x = pd_ID (fst x)"

definition keptDef :: "storedDef \<Rightarrow> storedDef" where
  "keptDef x = (canonDef (fst x), 0)"

definition wellKeyed :: "ProcessDefinition \<Rightarrow> bool" where
  "wellKeyed d \<longleftrightarrow> distinct (map fst (pd_Elements d)) \<and> (\<forall>(i, el)\<in>set (pd_Elements d). GetID el = i)"

definition docOf :: "ProcessDefinition \<Rightarrow> elementRecord list" where
  "docOf d = map (\<lambda>(_, el). marshalElement el) (pd_Elements d)"

definition readDef :: "ProcessDefinition \<Rightarrow> ProcessDefinition" where
  "readDef d = (case UnmarshalJSON (docOf d) of Inr els \<Rightarrow> if wellKeyed d then d\<lparr>pd_Elements := els\<rparr> else d | Inl _ \<Rightarrow> d)"

lemma readDef_value:
  assumes "wellKeyed d"
  obtains els where "UnmarshalJSON (docOf d) = Inr els" and "readDef d = d\<lparr>pd_Elements := els\<rparr>" and "map_of els = map_of (pd_Elements d)"
proof -
  have "\<forall>(i, el)\<in>set (pd_Elements d). GetID el = i" "distinct (map fst (pd_Elements d))" using assms by (auto simp: wellKeyed_def)
  from unmarshalLoop_marshal [OF this, of "[]"] obtain els where els: "UnmarshalJSON (docOf d) = Inr els"
    "\<forall>i. map_of els i = (case map_of (pd_Elements d) i of Some el \<Rightarrow> Some el | None \<Rightarrow> None)"
    by (auto simp only: UnmarshalJSON_def docOf_def map_of.simps)
  then have "map_of els = map_of (pd_Elements d)" by (auto simp: fun_eq_iff split: option.splits)
  then show ?thesis using that els(1) assms by (simp add: readDef_def)
qed

lemma canonDef_readDef [simp]: "canonDef (readDef d) = canonDef d"
proof (cases "wellKeyed d")
  case True
  then obtain els where "readDef d = d\<lparr>pd_Elements := els\<rparr>" "map_of els = map_of (pd_Elements d)" by (rule readDef_value)
  moreover from this(2) have "canonMap els = canonMap (pd_Elements d)" by (rule canonMap_cong)
  ultimately show ?thesis by (simp add: canonDef_def)
qed (simp add: readDef_def split: sum.split)

lemma mrange_same:
  assumes "fair_order ord" and "wellKeyed d"
  shows "wellKeyed (d\<lparr>pd_Elements := mrange ord (pd_Elements d)\<rparr>)"
    and "canonDef (d\<lparr>pd_Elements := mrange ord (pd_Elements d)\<rparr>) = canonDef d"
proof -
  have d: "distinct (map fst (pd_Elements d))" using assms(2) by (simp add: wellKeyed_def)
  have s: "set (mrange ord (pd_Elements d)) = set (pd_Elements d)" using assms(1) d by (rule set_mrange)
  have dk: "distinct (map fst (mrange ord (pd_Elements d)))" using assms(1) d by (rule mrange_keys_distinct)
  show "wellKeyed (d\<lparr>pd_Elements := mrange ord (pd_Elements d)\<rparr>)" using assms(2) s dk by (simp add: wellKeyed_def)
  have "map_of (mrange ord (pd_Elements d)) = map_of (pd_Elements d)"
    using dk d s by (rule map_of_inject_set [THEN iffD2])
  then have "canonMap (mrange ord (pd_Elements d)) = canonMap (pd_Elements d)" by (rule canonMap_cong)
  then show "canonDef (d\<lparr>pd_Elements := mrange ord (pd_Elements d)\<rparr>) = canonDef d"
    by (simp add: canonDef_def)
qed

section \<open>The table\<close>

definition definitionRow :: "storedDef \<Rightarrow> sqlRow" where
  "definitionRow x = (let d = fst x in
     [(''id'', SText (pd_ID d)), (''name'', SText (pd_Name d)), (''key'', SText (pd_Key d)), (''version'', SInt (pd_Version d)),
      (''data'', SDef (d\<lparr>pd_Elements := []\<rparr>) (docOf d)), (''created_at'', STime (snd x))])"

definition sqliteDefinitions :: sqlTable where
  "sqliteDefinitions = tableWith [''id'']
     [column ''id'' (TextType None) Required, column ''name'' (TextType None) (DefaultTo (SText '''')),
      column ''key'' (TextType None) (DefaultTo (SText '''')), column ''version'' (IntType 64 True) (DefaultTo (SInt 1)),
      column ''data'' BlobType Required, column ''created_at'' (TimeType 1) CurrentTime]"

lemma sqlite_definitions: "map_of (sc_tables sqliteSchema) ''process_definitions'' = Some sqliteDefinitions"
  by (simp add: sqliteSchema_def texts_def emptyTexts_def sqliteDefinitions_def Let_def)

definition storedKeeps :: "storedDef \<Rightarrow> bool" where
  "storedKeeps x \<longleftrightarrow> wellKeyed (fst x)"

definition storedDefs :: "Store \<Rightarrow> storedDef gomap" where
  "storedDefs M = map (\<lambda>(k, d). (k, (d, 0))) (definitions M)"

lemma storedDefs_map_of: "map_of (storedDefs M) i = map_option (\<lambda>d. (d, 0)) (map_of (definitions M) i)"
  by (simp add: storedDefs_def map_of_map)

interpretation definitionAgreement: entity_agreement storedID keptDef
  by unfold_locales (simp add: storedID_def keptDef_def canonDef_def)

sublocale sqlite_database \<subseteq> defs: sqlite_entity D contents phase storedID keptDef "''process_definitions''" sqliteDefinitions
    definitionRow storedKeeps storedDefs
  by unfold_locales (simp_all add: sqlite_definitions sqliteDefinitions_def table_simps definitionRow_def cell_def storedID_def Let_def)

lemma scan_definitionRow:
  "storedKeeps x \<Longrightarrow> deserializeProcessDefinition (map (cell (definitionRow x)) [''data'']) = Inr (readDef (fst x))"
proof -
  assume "storedKeeps x"
  then have "wellKeyed (fst x)" by (simp add: storedKeeps_def)
  then obtain els where "UnmarshalJSON (docOf (fst x)) = Inr els" "readDef (fst x) = fst x\<lparr>pd_Elements := els\<rparr>"
    by (rule readDef_value)
  then show ?thesis by (simp add: deserializeProcessDefinition_def definitionRow_def cell_def Let_def)
qed

lemma definition_columns: "list_all (\<lambda>c. columnNamed sqliteDefinitions c \<noteq> None) [''data'']"
  by (simp add: sqliteDefinitions_def table_simps)

lemma definition_conds:
  "holdsAll sqliteSchema T [ColEq ''key'' (SText k)] (definitionRow x) = (pd_Key (fst x) = k)"
  "holdsAll sqliteSchema T [ColEq ''key'' (SText k), ColEq ''version'' (SInt v)] (definitionRow x)
     = (pd_Key (fst x) = k \<and> pd_Version (fst x) = v)"
  "holdsAll sqliteSchema T [] (definitionRow x)"
  by (simp_all add: definitionRow_def holdsAll_def sameVal_def cell_def Let_def)

lemma sqlite_key [simp]: "dl_key (dialect (sqliteStore D)) = ''key''"
  by (simp add: sqliteDialect_def)

lemma mvalues_map: "mvalues ord P (map (\<lambda>(k, d). (k, f d)) m) = map f (mvalues ord (\<lambda>d. P (f d)) m)"
proof -
  have "mrange ord (map (\<lambda>(k, d). (k, f d)) m) = map (\<lambda>(k, d). (k, f d)) (mrange ord m)"
    by (simp add: mrange_def map_concat comp_def map_of_map case_prod_beta) (rule arg_cong [where f = concat], simp split: option.split)
  then show ?thesis by (simp add: mvalues_def filter_map comp_def case_prod_beta)
qed

section \<open>The calls\<close>

datatype definitionCall =
    CallCreateDefinition ProcessDefinition
  | CallGetDefinition string
  | CallGetByKeyVersion string int
  | CallGetLatest string
  | CallListDefinitions
  | CallDeleteDefinition string

primrec sqlDefinitionCall :: "'db SqlStore \<Rightarrow> callContext \<Rightarrow> order \<Rightarrow> definitionCall \<Rightarrow> ('db, ProcessDefinition list) sqlM" where
  "sqlDefinitionCall S c ord (CallCreateDefinition d) = noneOf (sqlCreateProcessDefinition S c ord d)"
| "sqlDefinitionCall S c ord (CallGetDefinition i) = oneOf (sqlGetProcessDefinition S c i)"
| "sqlDefinitionCall S c ord (CallGetByKeyVersion k v) = oneOf (sqlGetProcessDefinitionByKeyVersion S c k v)"
| "sqlDefinitionCall S c ord (CallGetLatest k) = oneOf (sqlGetLatestProcessDefinitionByKey S c k)"
| "sqlDefinitionCall S c ord CallListDefinitions = sqlListProcessDefinitions S c"
| "sqlDefinitionCall S c ord (CallDeleteDefinition i) = noneOf (sqlDeleteProcessDefinition S c i)"

primrec memDefinitionCall :: "order \<Rightarrow> definitionCall \<Rightarrow> ProcessDefinition list storeM" where
  "memDefinitionCall ord (CallCreateDefinition d) = noneOf (CreateProcessDefinition d)"
| "memDefinitionCall ord (CallGetDefinition i) = oneOf (GetProcessDefinition i)"
| "memDefinitionCall ord (CallGetByKeyVersion k v) = oneOf (GetProcessDefinitionByKeyVersion ord k v)"
| "memDefinitionCall ord (CallGetLatest k) = oneOf (GetLatestProcessDefinitionByKey ord k)"
| "memDefinitionCall ord CallListDefinitions = ListProcessDefinitions ord"
| "memDefinitionCall ord (CallDeleteDefinition i) = noneOf (DeleteProcessDefinition i)"

text \<open>
  What deployment keeps to: elements are keyed by their identifiers, versions are integers of Go, and a version of a key
  exists once.
\<close>

definition versionsUnique :: "ProcessDefinition gomap \<Rightarrow> bool" where
  "versionsUnique m \<longleftrightarrow> (\<forall>i\<in>fst ` set m. \<forall>j\<in>fst ` set m. case (map_of m i, map_of m j) of
     (Some d, Some e) \<Rightarrow> pd_Key d = pd_Key e \<and> pd_Version d = pd_Version e \<longrightarrow> i = j
   | _ \<Rightarrow> True)"

lemma versionsUniqueD:
  assumes "versionsUnique m" and "map_of m i = Some d" and "map_of m j = Some e"
    and "pd_Key d = pd_Key e" and "pd_Version d = pd_Version e"
  shows "i = j"
proof -
  have "i \<in> fst ` set m" "j \<in> fst ` set m" using assms(2,3) by (auto dest: map_of_SomeD intro: rev_image_eqI)
  with assms show ?thesis unfolding versionsUnique_def by fastforce
qed

definition definitionCallOk :: "ProcessDefinition gomap \<Rightarrow> definitionCall \<Rightarrow> bool" where
  "definitionCallOk m call = (case call of
       CallCreateDefinition d \<Rightarrow> wellKeyed d \<and> in64 (pd_Version d)
     | CallGetByKeyVersion k v \<Rightarrow> versionsUnique m
     | CallGetLatest k \<Rightarrow> versionsUnique m
     | _ \<Rightarrow> True)"

abbreviation definitionsAgree :: "tables \<Rightarrow> Store \<Rightarrow> bool" where
  "definitionsAgree T M \<equiv> rowsAgree ''process_definitions'' definitionRow storedKeeps storedID keptDef T (storedDefs M)"

lemma storedDefs_update: "storedDefs (M\<lparr>definitions := AList.update k d m\<rparr>) = AList.update k (d, 0) (storedDefs (M\<lparr>definitions := m\<rparr>))"
  by (induction m) (auto simp: storedDefs_def)

lemma storedDefs_delete: "storedDefs (M\<lparr>definitions := AList.delete k m\<rparr>) = AList.delete k (storedDefs (M\<lparr>definitions := m\<rparr>))"
  by (induction m) (auto simp: storedDefs_def)

lemma definition_newRow:
  assumes "fair_order ord" and "wellKeyed d" and "in64 (pd_Version d)"
  shows "newRow now sqliteDefinitions [''id'', ''name'', ''key'', ''version'', ''data'']
      [SText (pd_ID d), SText (pd_Name d), SText (pd_Key d), SInt (pd_Version d), serializeProcessDefinition ord d]
    = Done (definitionRow (d\<lparr>pd_Elements := mrange ord (pd_Elements d)\<rparr>, now))"
  using assms(3) by (simp add: newRow_def columnValue_def sqliteDefinitions_def table_simps definitionRow_def in64_def
      serializeProcessDefinition_def docOf_def MarshalJSON_def Let_def)

lemma keptDef_canon: "keptDef x = keptDef w \<Longrightarrow> canonDef (readDef (fst x)) = canonDef (fst w)"
  by (simp add: keptDef_def)

lemma fst_canonDef: "pd_Key (fst (keptDef x)) = pd_Key (fst x)" "pd_Version (fst (keptDef x)) = pd_Version (fst x)"
  by (simp_all add: keptDef_def canonDef_def)

lemma filter_unique:
  assumes "distinct xs" and "\<And>x y. x \<in> set xs \<Longrightarrow> y \<in> set xs \<Longrightarrow> P x \<Longrightarrow> P y \<Longrightarrow> x = y"
  shows "filter P xs = (case find P xs of None \<Rightarrow> [] | Some x \<Rightarrow> [x])"
  using assms
proof (induction xs)
  case (Cons x xs)
  show ?case
  proof (cases "P x")
    case True
    then have "filter P xs = []" using Cons.prems by (force simp: filter_empty_conv)
    with True show ?thesis by simp
  next
    case False
    moreover have "filter P xs = (case find P xs of None \<Rightarrow> [] | Some x \<Rightarrow> [x])"
      using Cons.prems by (intro Cons.IH) auto
    ultimately show ?thesis by simp
  qed
qed simp

text \<open>Rows and map hold the same definitions.\<close>

lemma stored_distinct: "agree storedID keptDef (storedDefs M) xs \<Longrightarrow> distinct (map fst (definitions M))"
  by (simp add: agree_def storedDefs_def comp_def case_prod_beta)

lemma stored_in_map:
  assumes "agree storedID keptDef (storedDefs M) xs" and "x \<in> set xs"
  shows "\<exists>d. map_of (definitions M) (storedID x) = Some d \<and> canonDef d = canonDef (fst x)"
proof -
  have "byId storedID xs (storedID x) = Some x"
    using assms by (simp add: definitionAgreement.byId_Some agree_def)
  moreover have "map_option keptDef (map_of (storedDefs M) (storedID x)) = map_option keptDef (byId storedID xs (storedID x))"
    using assms(1) by (simp add: agree_def)
  ultimately show ?thesis by (auto simp: storedDefs_map_of keptDef_def)
qed

lemma stored_in_rows:
  assumes "agree storedID keptDef (storedDefs M) xs" and "map_of (definitions M) i = Some d"
  shows "\<exists>x\<in>set xs. storedID x = i \<and> canonDef (fst x) = canonDef d"
proof -
  have "map_of (storedDefs M) i = Some (d, 0)" using assms(2) by (simp add: storedDefs_map_of)
  then obtain x where "x \<in> set xs" "storedID x = i" "keptDef x = keptDef (d, 0)"
    using definitionAgreement.agree_Some [OF assms(1)] by metis
  then show ?thesis by (auto simp: keptDef_def)
qed

lemma stored_unique:
  assumes ag: "agree storedID keptDef (storedDefs M) xs" and unique: "versionsUnique (definitions M)"
    and x: "x \<in> set xs" "y \<in> set xs" "pd_Key (fst x) = pd_Key (fst y)" "pd_Version (fst x) = pd_Version (fst y)"
  shows "x = y"
proof -
  obtain d e where d: "map_of (definitions M) (storedID x) = Some d" "canonDef d = canonDef (fst x)"
    and e: "map_of (definitions M) (storedID y) = Some e" "canonDef e = canonDef (fst y)"
    using stored_in_map [OF ag x(1)] stored_in_map [OF ag x(2)] by blast
  have "storedID x = storedID y"
    using versionsUniqueD [OF unique d(1) e(1)] x(3,4) canonDef_eqD [OF d(2)] canonDef_eqD [OF e(2)] by simp
  moreover have "inj_on storedID (set xs)" using ag by (simp add: agree_def distinct_map)
  ultimately show ?thesis using x(1,2) by (simp add: inj_on_def)
qed

context sqlite_database
begin

lemma create_definition:
  assumes "usable c (phase s)" and "definitionsAgree (contents s) M" and ord: "fair_order ord"
    and ok: "definitionCallOk (definitions M) (CallCreateDefinition d)"
  shows "corresponds (\<lambda>_ _. True) (defs.stepFrom s) contents phase s
           (sqlCreateProcessDefinition (sqliteStore D) c ord d s) (CreateProcessDefinition d M)"
proof -
  have d: "wellKeyed d" "in64 (pd_Version d)" using ok by (simp_all add: definitionCallOk_def)
  let ?x = "\<lambda>now. (d\<lparr>pd_Elements := mrange ord (pd_Elements d)\<rparr>, now :: int)"
  have row: "newRow now sqliteDefinitions [''id'', ''name'', ''key'', ''version'', ''data'']
      [SText (pd_ID d), SText (pd_Name d), SText (pd_Key d), SInt (pd_Version d), serializeProcessDefinition ord d]
      = Done (definitionRow (?x now)) \<and> storedKeeps (?x now) \<and> keptDef (?x now) = keptDef (d, 0)" for now
    using definition_newRow [OF ord d] mrange_same [OF ord d(1)] by (simp add: storedKeeps_def keptDef_def)
  show ?thesis
    unfolding sqlCreateProcessDefinition_def sqlite_key
    by (rule defs.insert_corresponds [where v = "(d, 0)" and e = "AlreadyExists (pd_ID d)"
          and M' = "M\<lparr>definitions := AList.update (pd_ID d) d (definitions M)\<rparr>", OF assms(1,2) _ _ row])
       (simp_all add: sqliteDefinitions_def table_simps storedID_def CreateProcessDefinition_def storedDefs_map_of storedDefs_update)
qed

lemma get_definition:
  assumes "usable c (phase s)" and "definitionsAgree (contents s) M"
  shows "corresponds (sameKept canonDef) (defs.stepFrom s) contents phase s
           (oneOf (sqlGetProcessDefinition (sqliteStore D) c i) s) (oneOf (GetProcessDefinition i) M)"
  unfolding sqlGetProcessDefinition_def
proof (rule defs.get_row_as [where rd = "\<lambda>x. readDef (fst x)" and wr = fst and e = "NotFound i", OF assms definition_columns])
  show "canonDef (readDef (fst x)) = canonDef (fst w)" if "keptDef x = keptDef w" for x w using that by (rule keptDef_canon)
qed (simp_all add: scan_definitionRow [simplified] GetProcessDefinition_def storedDefs_map_of split: option.split)

lemma list_definitions:
  assumes "usable c (phase s)" and "definitionsAgree (contents s) M" and "fair_order ord"
  shows "corresponds (sameKept canonDef) (defs.stepFrom s) contents phase s
           (sqlListProcessDefinitions (sqliteStore D) c s) (ListProcessDefinitions ord M)"
proof -
  have "map fst (mvalues ord (\<lambda>_. True) (storedDefs M)) = mvalues ord (\<lambda>_. True) (definitions M)"
    unfolding storedDefs_def mvalues_map by (simp add: comp_def)
  moreover have "corresponds (sameKept canonDef) (defs.stepFrom s) contents phase s
      (queryRows (sqliteStore D) c (selectFrom [''data''] ''process_definitions'' []) deserializeProcessDefinition s)
      (Inr (map fst (mvalues ord (\<lambda>_. True) (storedDefs M))), M)"
  proof (rule defs.list_rows_as [where rd = "\<lambda>x. readDef (fst x)", OF assms definition_columns])
    show "canonDef (readDef (fst x)) = canonDef (fst w)" if "keptDef x = keptDef w" for x w using that by (rule keptDef_canon)
  qed (simp_all add: scan_definitionRow [simplified] definition_conds)
  ultimately show ?thesis by (simp add: sqlListProcessDefinitions_def ListProcessDefinitions_def)
qed

lemma delete_definition:
  assumes "usable c (phase s)" and "definitionsAgree (contents s) M"
  shows "corresponds (\<lambda>_ _. True) (defs.stepFrom s) contents phase s
           (sqlDeleteProcessDefinition (sqliteStore D) c i s) (DeleteProcessDefinition i M)"
  unfolding sqlDeleteProcessDefinition_def
  by (rule defs.delete_row [where e = "NotFound i" and M' = "M\<lparr>definitions := AList.delete i (definitions M)\<rparr>", OF assms])
     (auto simp: DeleteProcessDefinition_def storedDefs_map_of storedDefs_delete)

lemma get_by_key_version:
  assumes u: "usable c (phase s)" and a: "definitionsAgree (contents s) M" and ord: "fair_order ord"
    and unique: "versionsUnique (definitions M)"
  shows "corresponds (sameKept canonDef) (defs.stepFrom s) contents phase s
           (oneOf (sqlGetProcessDefinitionByKeyVersion (sqliteStore D) c k v) s) (oneOf (GetProcessDefinitionByKeyVersion ord k v) M)"
proof -
  let ?P = "\<lambda>x. pd_Key (fst x) = k \<and> pd_Version (fst x) = v" and ?Q = "\<lambda>d. pd_Key d = k \<and> pd_Version d = v"
  obtain xs where rows: "rowsOf (contents s) ''process_definitions'' = map definitionRow xs" and keeps: "list_all storedKeeps xs"
    and ag: "agree storedID keptDef (storedDefs M) xs"
    using a by (rule defs.agreeingE)
  have one: "filter ?P xs = (case find ?P xs of None \<Rightarrow> [] | Some x \<Rightarrow> [x])"
  proof (rule filter_unique)
    show "distinct xs" using ag by (auto simp: agree_def distinct_map)
    fix x y assume "x \<in> set xs" "y \<in> set xs" "?P x" "?P y"
    then show "x = y" using stored_unique [OF ag unique] by metis
  qed
  obtain s' where s': "leaves contents phase s (contents s) s'" and sql: "sqlGetProcessDefinitionByKeyVersion (sqliteStore D) c k v s
      = (case find ?P xs of None \<Rightarrow> Inl (RowNotFound k) | Some x \<Rightarrow> Inr (readDef (fst x)), s')"
  proof -
    have "\<exists>s'. leaves contents phase s (contents s) s' \<and> sqlGetProcessDefinitionByKeyVersion (sqliteStore D) c k v s
      = (case find ?P xs of None \<Rightarrow> Inl (RowNotFound k) | Some x \<Rightarrow> Inr (readDef (fst x)), s')"
      unfolding sqlGetProcessDefinitionByKeyVersion_def sqlite_key
      by (rule queryRow_done [OF _ u defs.select_value [OF rows definition_columns] _ one])
         (use keeps in \<open>auto simp: list_all_iff scan_definitionRow [simplified] definition_conds sqliteDefinitions_def table_simps\<close>)
    then show ?thesis using that by blast
  qed
  have step: "defs.stepFrom s (contents s') M"
    using s' rows keeps ag by (auto simp: agreeFrom_def rowsAgree_def leaves_def)
  have mem: "set (mvalues ord (\<lambda>_. True) (definitions M)) = {d. \<exists>i. map_of (definitions M) i = Some d}"
    using ord stored_distinct [OF ag] by (simp add: set_mvalues)
  show ?thesis
  proof (cases "find ?P xs")
    case None
    have "\<not> ?Q d" if el: "d \<in> set (mvalues ord (\<lambda>_. True) (definitions M))" for d
    proof
      assume "?Q d"
      obtain i where "map_of (definitions M) i = Some d" using el unfolding mem by blast
      then obtain x where "x \<in> set xs" "canonDef (fst x) = canonDef d" using stored_in_rows [OF ag, of i d] by blast
      then have "?P x" using \<open>?Q d\<close> canonDef_eqD [of "fst x" d] by simp
      then show False using None \<open>x \<in> set xs\<close> unfolding find_None_iff by blast
    qed
    then have "find ?Q (mvalues ord (\<lambda>_. True) (definitions M)) = None" by (auto simp: find_None_iff)
    then show ?thesis using None sql step
      by (simp add: corresponds_def oneOf_def bindM_Inl sameOutcome_def GetProcessDefinitionByKeyVersion_def)
  next
    case (Some x)
    then have x: "x \<in> set xs" "?P x" by (auto simp: find_Some_iff)
    obtain d where d: "map_of (definitions M) (storedID x) = Some d" "canonDef d = canonDef (fst x)"
      using stored_in_map [OF ag x(1)] by blast
    then have dP: "?Q d" using x(2) canonDef_eqD [OF d(2)] by simp
    have "\<exists>e. find ?Q (mvalues ord (\<lambda>_. True) (definitions M)) = Some e"
      using d(1) dP mem by (cases "find ?Q (mvalues ord (\<lambda>_. True) (definitions M))") (auto simp: find_None_iff)
    then obtain e where e: "find ?Q (mvalues ord (\<lambda>_. True) (definitions M)) = Some e" by blast
    then have eQ: "?Q e" "e \<in> set (mvalues ord (\<lambda>_. True) (definitions M))" by (auto simp: find_Some_iff)
    then obtain j where j: "map_of (definitions M) j = Some e" using mem by auto
    then have "j = storedID x" using versionsUniqueD [OF unique j d(1)] dP eQ(1) by simp
    then have "e = d" using j d(1) by simp
    then show ?thesis using Some sql step s' e d(2)
      by (simp add: corresponds_def oneOf_def bindM_Inr returnM_def sameOutcome_def sameKept_def leaves_def GetProcessDefinitionByKeyVersion_def)
  qed
qed

text \<open>The row that comes first by descending version.\<close>

lemma latest_row:
  assumes u: "usable c (phase s)" and rows: "rowsOf (contents s) ''process_definitions'' = map definitionRow xs"
    and keeps: "list_all storedKeeps xs"
  shows "\<exists>ys s'. mset ys = mset (filter (\<lambda>x. pd_Key (fst x) = k) xs)
     \<and> sorted_wrt (\<lambda>x y. pd_Version (fst y) \<le> pd_Version (fst x)) ys \<and> leaves contents phase s (contents s) s'
     \<and> sqlGetLatestProcessDefinitionByKey (sqliteStore D) c k s
         = (case ys of [] \<Rightarrow> Inl (RowNotFound k) | y # _ \<Rightarrow> Inr (readDef (fst y)), s')"
proof -
  let ?fs = "filter (\<lambda>x. pd_Key (fst x) = k) xs"
  let ?q = "(selectFrom [''data''] ''process_definitions'' [ColEq ''key'' (SText k)])\<lparr>q_order := Some (''version'', True), q_limit := Some 1\<rparr>"
  have "runQuery sqliteSchema (selectFrom [''data''] ''process_definitions'' [ColEq ''key'' (SText k)]) (contents s) = Done (map definitionRow ?fs)"
    by (rule defs.select_value [OF rows definition_columns]) (simp_all add: definition_conds sqliteDefinitions_def table_simps)
  moreover have "columnNamed sqliteDefinitions ''version'' \<noteq> None" by (simp add: sqliteDefinitions_def table_simps)
  ultimately have "runQuery sqliteSchema ?q (contents s) = Done (map definitionRow ?fs)"
    by (auto simp: runQuery_def selectFrom_def selectionColumns_def sqlite_definitions split: if_splits)
  from query_done [OF u this] obtain res s' where q: "db_query D c ?q s = (Inr res, s')" "answers ?q (map definitionRow ?fs) res"
    and s': "leaves contents phase s (contents s) s'" by (auto simp: leaves_def)
  from q(2) obtain rs where rs: "mset rs = mset (map definitionRow ?fs)" "inOrder ?q rs"
    and res: "res = map (\<lambda>r. map (cell r) [''data'']) (take 1 rs)"
    by (auto simp: answers_def selectFrom_def window_def Let_def)
  from rs(1) obtain ys where ys: "mset ys = mset ?fs" "rs = map definitionRow ys" by (rule mset_map_obtain)
  have "cell (definitionRow x) ''version'' = SInt (pd_Version (fst x))" for x by (simp add: definitionRow_def cell_def Let_def)
  then have "sorted_wrt (\<lambda>x y. pd_Version (fst y) \<le> pd_Version (fst x)) ys"
    using rs(2) unfolding ys(2) by (simp add: inOrder_def sorted_wrt_map)
  moreover have "storedKeeps y" if "y \<in> set ys" for y
    using that keeps mset_eq_setD [OF ys(1)] by (auto simp: list_all_iff)
  then have "sqlGetLatestProcessDefinitionByKey (sqliteStore D) c k s
      = (case ys of [] \<Rightarrow> Inl (RowNotFound k) | y # _ \<Rightarrow> Inr (readDef (fst y)), s')"
    using q(1) res unfolding ys(2) sqlGetLatestProcessDefinitionByKey_def sqlite_key
    by (cases ys) (simp_all add: queryRowContext_def queryContext_def bindM_Inr throwM_def scanM_def scan_definitionRow [simplified])
  ultimately show ?thesis using ys(1) s' by blast
qed

lemma get_latest:
  assumes u: "usable c (phase s)" and a: "definitionsAgree (contents s) M" and ord: "fair_order ord"
    and unique: "versionsUnique (definitions M)"
  shows "corresponds (sameKept canonDef) (defs.stepFrom s) contents phase s
           (oneOf (sqlGetLatestProcessDefinitionByKey (sqliteStore D) c k) s) (oneOf (GetLatestProcessDefinitionByKey ord k) M)"
proof -
  obtain xs where rows: "rowsOf (contents s) ''process_definitions'' = map definitionRow xs" and keeps: "list_all storedKeeps xs"
    and ag: "agree storedID keptDef (storedDefs M) xs"
    using a by (rule defs.agreeingE)
  obtain ys s' where ys: "mset ys = mset (filter (\<lambda>x. pd_Key (fst x) = k) xs)"
    "sorted_wrt (\<lambda>x y. pd_Version (fst y) \<le> pd_Version (fst x)) ys" and s': "leaves contents phase s (contents s) s'"
    and sql: "sqlGetLatestProcessDefinitionByKey (sqliteStore D) c k s
         = (case ys of [] \<Rightarrow> Inl (RowNotFound k) | y # _ \<Rightarrow> Inr (readDef (fst y)), s')"
    using latest_row [OF u rows keeps] by blast
  have set_ys: "set ys = {x \<in> set xs. pd_Key (fst x) = k}" using mset_eq_setD [OF ys(1)] by simp
  have step: "defs.stepFrom s (contents s') M"
    using s' rows keeps ag by (auto simp: agreeFrom_def rowsAgree_def leaves_def)
  consider (none) "GetLatestProcessDefinitionByKey ord k M = (Inl (NotFound k), M)" "storedVersions k M = {}"
    | (some) i d where "GetLatestProcessDefinitionByKey ord k M = (Inr d, M)" "map_of (definitions M) i = Some d" "pd_Key d = k"
        "\<forall>v\<in>storedVersions k M. v \<le> pd_Version d"
    using GetLatest_cases [OF ord stored_distinct [OF ag], of k] by blast
  then show ?thesis
  proof cases
    case none
    have "ys = []"
    proof (cases ys)
      case (Cons y ys')
      then have "y \<in> set xs" "pd_Key (fst y) = k" using set_ys by auto
      then obtain d where d: "map_of (definitions M) (storedID y) = Some d" "canonDef d = canonDef (fst y)"
        using stored_in_map [OF ag] by blast
      then have "pd_Version d \<in> storedVersions k M"
        using canonDef_eqD(2) [OF d(2)] \<open>pd_Key (fst y) = k\<close> unfolding storedVersions_def by fastforce
      with none(2) show ?thesis by simp
    qed simp
    then show ?thesis using none(1) sql step by (simp add: corresponds_def oneOf_def bindM_Inl sameOutcome_def)
  next
    case some
    obtain x where x: "x \<in> set xs" "storedID x = i" "canonDef (fst x) = canonDef d"
      using stored_in_rows [OF ag some(2)] by blast
    then have "x \<in> set ys" using set_ys canonDef_eqD [OF x(3)] some(3) by simp
    then obtain y ys' where y: "ys = y # ys'" by (cases ys) auto
    have yx: "y \<in> set xs" "pd_Key (fst y) = k" using set_ys y by auto
    obtain e where e: "map_of (definitions M) (storedID y) = Some e" "canonDef e = canonDef (fst y)"
      using stored_in_map [OF ag yx(1)] by blast
    have "pd_Version e \<in> storedVersions k M" using e(1) canonDef_eqD [OF e(2)] yx(2) unfolding storedVersions_def by fastforce
    then have "pd_Version (fst y) \<le> pd_Version d" using some(4) canonDef_eqD [OF e(2)] by simp
    moreover have "pd_Version (fst x) \<le> pd_Version (fst y)" using ys(2) \<open>x \<in> set ys\<close> unfolding y by auto
    ultimately have "pd_Version (fst x) = pd_Version (fst y)" using canonDef_eqD [OF x(3)] by simp
    then have "x = y" using stored_unique [OF ag unique x(1) yx(1)] canonDef_eqD [OF x(3)] some(3) yx(2) by simp
    then show ?thesis using some(1) sql step s' x(3) unfolding y
      by (simp add: corresponds_def oneOf_def bindM_Inr returnM_def sameOutcome_def sameKept_def leaves_def)
  qed
qed

lemma definition_call:
  assumes "usable c (phase s)" and "definitionsAgree (contents s) M" and "fair_order ord"
    and "definitionCallOk (definitions M) call"
  shows "corresponds (sameKept canonDef) (defs.stepFrom s) contents phase s
           (sqlDefinitionCall (sqliteStore D) c ord call s) (memDefinitionCall ord call M)"
proof (cases call)
  case (CallCreateDefinition d)
  then show ?thesis using create_definition [OF assms(1-3)] assms(4) by (auto intro: corresponds_noneOf)
next
  case (CallGetByKeyVersion k v)
  then show ?thesis using get_by_key_version [OF assms(1-3)] assms(4) by (simp add: definitionCallOk_def)
next
  case (CallGetLatest k)
  then show ?thesis using get_latest [OF assms(1-3)] assms(4) by (simp add: definitionCallOk_def)
qed (auto intro: get_definition list_definitions delete_definition corresponds_noneOf assms)

end

end
