(* ===== verification/SqlTransactions.thy ===== *)
theory SqlTransactions imports SqlLaws begin

text \<open>
  Transactions of the SQL stores: what \<open>RunInTransaction\<close> leaves when the function, a statement or the commit fails.
\<close>

text \<open>
  \<open>stays Q\<close>: a function that leaves the connection in a phase of the kind it found it in. The operations of a store and their
  compositions are such functions, for every kind of phase that the calls of their context keep: a transaction that is open or
  aborted by an error, or no transaction at all.
\<close>

definition stays :: "('db \<Rightarrow> phase) \<Rightarrow> (phase \<Rightarrow> bool) \<Rightarrow> ('db, 'a) sqlM \<Rightarrow> bool" where
  "stays phase Q m \<longleftrightarrow> (\<forall>s. Q (phase s) \<longrightarrow> Q (phase (snd (m s))))"

definition keptByCalls :: "callContext \<Rightarrow> (phase \<Rightarrow> bool) \<Rightarrow> bool" where
  "keptByCalls c Q \<longleftrightarrow> (\<forall>p. Q p \<longrightarrow> usable c p \<and> (\<forall>p'. afterError p p' \<longrightarrow> Q p') \<or> c = OnTx \<and> (\<exists>T. p = Aborted T))"

definition inTransaction :: "tables \<Rightarrow> phase \<Rightarrow> bool" where
  "inTransaction T p \<longleftrightarrow> p = Within T \<or> p = Aborted T"

definition staysOpen :: "('db \<Rightarrow> phase) \<Rightarrow> ('db, 'a) sqlM \<Rightarrow> bool" where
  "staysOpen phase m \<longleftrightarrow> (\<forall>T. stays phase (inTransaction T) m)"

lemma inTransaction_kept: "keptByCalls OnTx (inTransaction T)"
  by (auto simp: keptByCalls_def inTransaction_def usable_def afterError_def)

lemma idle_kept: "keptByCalls OnPool (\<lambda>p. p = Idle)"
  by (auto simp: keptByCalls_def usable_def afterError_def)

named_theorems stays_rule \<open>functions that keep the kind of phase\<close>

lemma stays_return [stays_rule]: "stays phase Q (returnM x)" "stays phase Q (throwM e)" "stays phase Q (scanM r)"
  "stays phase Q (requireM b e)"
  by (auto simp: stays_def returnM_def throwM_def scanM_def requireM_def)

lemma stays_bind [stays_rule]:
  assumes "stays phase Q m" and "\<And>x. stays phase Q (f x)"
  shows "stays phase Q (bindM m f)"
  unfolding stays_def
proof (intro allI impI)
  fix s assume "Q (phase s)"
  obtain r s' where m: "m s = (r, s')" by fastforce
  then have "Q (phase s')" using assms(1) \<open>Q (phase s)\<close> by (metis stays_def snd_conv)
  then show "Q (phase (snd (bindM m f s)))"
    using assms(2) m by (cases r) (auto simp: bindM_Inl bindM_Inr stays_def)
qed

context sql_database
begin

lemma stays_exec:
  assumes "db S = D" and "keptByCalls c Q"
  shows "stays phase Q (execContext S c st)"
  unfolding stays_def
proof (intro allI impI)
  fix s assume s: "Q (phase s)"
  obtain r s' where e: "db_exec D c st s = (r, s')" by fastforce
  have "Q (phase s')"
  proof (cases "usable c (phase s) \<and> (\<forall>p'. afterError (phase s) p' \<longrightarrow> Q p')")
    case True
    then show ?thesis using exec [OF _ e] by blast
  next
    case False
    then obtain T where "c = OnTx" "phase s = Aborted T" using assms(2) s unfolding keptByCalls_def by blast
    then show ?thesis using s exec_aborted [of s T] e by metis
  qed
  then show "Q (phase (snd (execContext S c st s)))"
    using e assms(1) by (cases r) (simp_all add: execContext_def)
qed

lemma stays_query:
  assumes "db S = D" and "keptByCalls c Q"
  shows "stays phase Q (queryContext S c q)"
  unfolding stays_def
proof (intro allI impI)
  fix s assume s: "Q (phase s)"
  obtain r s' where e: "db_query D c q s = (r, s')" by fastforce
  have "Q (phase s')"
  proof (cases "usable c (phase s) \<and> (\<forall>p'. afterError (phase s) p' \<longrightarrow> Q p')")
    case True
    then show ?thesis using query [OF _ e] by blast
  next
    case False
    then obtain T where "c = OnTx" "phase s = Aborted T" using assms(2) s unfolding keptByCalls_def by blast
    then show ?thesis using s query_aborted [of s T] e by metis
  qed
  then show "Q (phase (snd (queryContext S c q s)))"
    using e assms(1) by (cases r) (simp_all add: queryContext_def)
qed

lemma stays_calls [stays_rule]:
  assumes "db S = D" and "keptByCalls c Q"
  shows "stays phase Q (execAny S c st)" "stays phase Q (execOne S c st i)"
    "stays phase Q (queryRowContext S c q i scan)" "stays phase Q (queryRows S c q scan2)"
  unfolding execAny_def execOne_def queryRowContext_def queryRows_def
  by (auto intro!: stays_bind stays_exec stays_query assms stays_return split: list.split)

lemma transaction:
  assumes S: "db S = D" and idle: "phase s = Idle" and fn: "staysOpen phase (fn OnTx)"
    and run: "sqlRunInTransaction S OnPool fn s = (r, s')"
  shows "phase s' = Idle \<and> (case r of
      Inl e \<Rightarrow> contents s' = contents s
    | Inr _ \<Rightarrow> \<exists>s1 s2. contents s1 = contents s \<and> fn OnTx s1 = (Inr (), s2) \<and> contents s' = contents s2)"
proof -
  obtain b s1 where b: "db_begin D s = (b, s1)" by fastforce
  have s1: "b = Inr ()" "contents s1 = contents s" "phase s1 = Within (contents s)" using start [OF idle b] by simp_all
  obtain x s2 where x: "fn OnTx s1 = (x, s2)" by fastforce
  have still: "phase s2 = Within (contents s) \<or> phase s2 = Aborted (contents s)"
    using fn s1(3) x unfolding staysOpen_def stays_def inTransaction_def by (metis snd_conv)
  show ?thesis
  proof (cases x)
    case (Inl e)
    then have "r = Inl e" "s' = db_rollback D s2" using run S b s1(1) x by (simp_all add: sqlRunInTransaction_def)
    then show ?thesis using rollback [OF still] by simp
  next
    case (Inr u)
    obtain d s3 where d: "db_commit D s2 = (d, s3)" by fastforce
    show ?thesis using still
    proof
      assume "phase s2 = Within (contents s)"
      then have s3: "d = Inr ()" "contents s3 = contents s2" "phase s3 = Idle" using commit [OF _ d] by simp_all
      then have "r = Inr ()" "s' = s3" using run S b s1(1) x d Inr by (simp_all add: sqlRunInTransaction_def)
      then show ?thesis using s3 s1(2) x Inr by auto
    next
      assume "phase s2 = Aborted (contents s)"
      then have s3: "isl d" "contents s3 = contents s" "phase s3 = Idle" using commit_aborted [OF _ d] by simp_all
      then obtain e where "r = Inl (DbFailed e)" "s' = s3"
        using run S b s1(1) x d Inr by (cases d) (auto simp: sqlRunInTransaction_def)
      then show ?thesis using s3 by simp
    qed
  qed
qed

end

end
