(* ===== verification/SqlRun.thy ===== *)
theory SqlRun imports SqlTables SqlDefinitions SqlTransactions begin

text \<open>
  The refinement of whole runs: a sequence of calls on the SQLite store, over all tables, has the outcome of the same
  sequence on the memory store.
\<close>

section \<open>Calls on any table\<close>

datatype entity =
    EToken Token
  | EActivity ActivityInstance
  | EInstance ProcessInstance
  | EVariable "string \<times> gval"
  | EHistory HistoricActivityInstance
  | ESubscription SignalSubscription
  | ETimer TimerJob
  | EDefinition ProcessDefinition

primrec keptEntity :: "entity \<Rightarrow> entity" where
  "keptEntity (EToken t) = EToken (keptToken t)"
| "keptEntity (EActivity a) = EActivity (keptActivity a)"
| "keptEntity (EInstance p) = EInstance (keptInstance p)"
| "keptEntity (EVariable v) = EVariable (keptVariable v)"
| "keptEntity (EHistory h) = EHistory (keptHistory h)"
| "keptEntity (ESubscription b) = ESubscription (keptSubscription b)"
| "keptEntity (ETimer j) = ETimer (keptTimer j)"
| "keptEntity (EDefinition d) = EDefinition (canonDef d)"

datatype storeCall =
    OnTokens tokenCall
  | OnActivities activityCall
  | OnInstances instanceCall
  | OnVariables variableCall
  | OnHistory historyCall
  | OnSubscriptions subscriptionCall
  | OnTimers timerCall
  | OnDefinitions definitionCall

definition entitiesOf :: "('v \<Rightarrow> entity) \<Rightarrow> ('s, 'e, 'v list) sem \<Rightarrow> ('s, 'e, entity list) sem" where
  "entitiesOf wrap m = bindM m (\<lambda>xs. returnM (map wrap xs))"

primrec sqlCall :: "'db SqlStore \<Rightarrow> callContext \<Rightarrow> order \<Rightarrow> storeCall \<Rightarrow> ('db, entity list) sqlM" where
  "sqlCall S c ord (OnTokens call) = entitiesOf EToken (sqlTokenCall S c call)"
| "sqlCall S c ord (OnActivities call) = entitiesOf EActivity (sqlActivityCall S c call)"
| "sqlCall S c ord (OnInstances call) = entitiesOf EInstance (sqlInstanceCall S c call)"
| "sqlCall S c ord (OnVariables call) = entitiesOf EVariable (sqlVariableCall S c call)"
| "sqlCall S c ord (OnHistory call) = entitiesOf EHistory (sqlHistoryCall S c call)"
| "sqlCall S c ord (OnSubscriptions call) = entitiesOf ESubscription (sqlSubscriptionCall S c call)"
| "sqlCall S c ord (OnTimers call) = entitiesOf ETimer (sqlTimerCall S c call)"
| "sqlCall S c ord (OnDefinitions call) = entitiesOf EDefinition (sqlDefinitionCall S c ord call)"

primrec memCall :: "order \<Rightarrow> storeCall \<Rightarrow> entity list storeM" where
  "memCall ord (OnTokens call) = entitiesOf EToken (memTokenCall ord call)"
| "memCall ord (OnActivities call) = entitiesOf EActivity (memActivityCall ord call)"
| "memCall ord (OnInstances call) = entitiesOf EInstance (memInstanceCall ord call)"
| "memCall ord (OnVariables call) = entitiesOf EVariable (memVariableCall call)"
| "memCall ord (OnHistory call) = entitiesOf EHistory (memHistoryCall ord call)"
| "memCall ord (OnSubscriptions call) = entitiesOf ESubscription (memSubscriptionCall ord call)"
| "memCall ord (OnTimers call) = entitiesOf ETimer (memTimerCall call)"
| "memCall ord (OnDefinitions call) = entitiesOf EDefinition (memDefinitionCall ord call)"

primrec callOk :: "Store \<Rightarrow> storeCall \<Rightarrow> bool" where
  "callOk M (OnTokens call) = tokenCallOk (tokens M) call"
| "callOk M (OnActivities call) = activityCallOk (activities M) call"
| "callOk M (OnInstances call) = instanceCallOk (instances M) call"
| "callOk M (OnVariables call) = True"
| "callOk M (OnHistory call) = historyCallOk (historicActivities M) call"
| "callOk M (OnSubscriptions call) = subscriptionCallOk (signalSubsMap M) call"
| "callOk M (OnTimers call) = timerCallOk (timerJobsMap M) call"
| "callOk M (OnDefinitions call) = definitionCallOk (definitions M) call"

text \<open>All eight tables and maps agree.\<close>

definition storesAgree :: "tables \<Rightarrow> Store \<Rightarrow> bool" where
  "storesAgree T M \<longleftrightarrow> definitionsAgree T M \<and> instancesAgree T M \<and> activitiesAgree T M \<and> tokensAgree T M
     \<and> variablesAgree T M \<and> historyAgree T M \<and> timersAgree T M \<and> subscriptionsAgree T M"

lemma storesAgreeD:
  assumes "storesAgree T M"
  shows "definitionsAgree T M" "instancesAgree T M" "activitiesAgree T M" "tokensAgree T M"
    "variablesAgree T M" "historyAgree T M" "timersAgree T M" "subscriptionsAgree T M"
  using assms by (simp_all add: storesAgree_def)

section \<open>A call changes one map and one table\<close>

lemmas sem_defs = noneOf_def oneOf_def bindM_def returnM_def

lemma entitiesOf_state [simp]: "snd (entitiesOf wrap m M) = snd (m M)"
  by (cases "m M") (simp add: entitiesOf_def sem_defs split: sum.splits)

lemma tokens_only: "\<exists>m. snd (memTokenCall ord call M) = M\<lparr>tokens := m\<rparr>"
  by (rule exI [of _ "tokens (snd (memTokenCall ord call M))"], cases call)
     (simp_all add: sem_defs CreateToken_def UpdateToken_def GetToken_def ListActiveTokens_def DeleteToken_def split: option.split)

lemma activities_only: "\<exists>m. snd (memActivityCall ord call M) = M\<lparr>activities := m\<rparr>"
  by (rule exI [of _ "activities (snd (memActivityCall ord call M))"], cases call)
     (simp_all add: sem_defs CreateActivityInstance_def UpdateActivityInstance_def GetActivityInstance_def ListActiveActivities_def
        ListActivitiesByProcessInstance_def ListActivitiesByLoopID_def split: option.split)

lemma instances_only: "\<exists>m. snd (memInstanceCall ord call M) = M\<lparr>instances := m\<rparr>"
  by (rule exI [of _ "instances (snd (memInstanceCall ord call M))"], cases call)
     (simp_all add: sem_defs CreateProcessInstance_def UpdateProcessInstance_def GetProcessInstance_def ListProcessInstances_def
        split: option.split)

lemma variables_only: "\<exists>m. snd (memVariableCall call M) = M\<lparr>variables := m\<rparr>"
  by (rule exI [of _ "variables (snd (memVariableCall call M))"], cases call)
     (simp_all add: sem_defs SetVariable_def GetVariable_def GetAllVariables_def DeleteVariable_def split: option.split)

lemma history_only: "\<exists>m. snd (memHistoryCall ord call M) = M\<lparr>historicActivities := m\<rparr>"
  by (rule exI [of _ "historicActivities (snd (memHistoryCall ord call M))"], cases call)
     (simp_all add: sem_defs CreateHistoricActivityInstance_def ListHistoricByProcessInstance_def)

lemma subscriptions_only: "\<exists>m. snd (memSubscriptionCall ord call M) = M\<lparr>signalSubsMap := m\<rparr>"
  by (rule exI [of _ "signalSubsMap (snd (memSubscriptionCall ord call M))"], cases call)
     (simp_all add: sem_defs CreateSignalSubscription_def ListSignalSubscriptions_def DeleteSignalSubscription_def
        DeleteSubscriptionsByInstance_def)

lemma timers_only: "\<exists>m. snd (memTimerCall call M) = M\<lparr>timerJobsMap := m\<rparr>"
  by (rule exI [of _ "timerJobsMap (snd (memTimerCall call M))"], cases call)
     (simp_all add: sem_defs CreateTimerJob_def UpdateTimerJob_def DeleteTimerJob_def DeleteTimerJobsByInstance_def)

lemma definitions_only: "\<exists>m. snd (memDefinitionCall ord call M) = M\<lparr>definitions := m\<rparr>"
  by (rule exI [of _ "definitions (snd (memDefinitionCall ord call M))"], cases call)
     (simp_all add: sem_defs CreateProcessDefinition_def GetProcessDefinition_def GetProcessDefinitionByKeyVersion_def
        GetLatestProcessDefinitionByKey_def ListProcessDefinitions_def DeleteProcessDefinition_def split: option.split)

text \<open>So the agreement of the one carries over to the agreement of all.\<close>

lemma agreeFrom_stores:
  assumes "storesAgree T0 M"
  shows "agreeFrom ''tokens'' tokenRow tokenKeeps tok_ID keptToken tokens T0 T (M\<lparr>tokens := m1\<rparr>) \<Longrightarrow> storesAgree T (M\<lparr>tokens := m1\<rparr>)"
    and "agreeFrom ''activity_instances'' activityRow activityKeeps ai_ID keptActivity activities T0 T (M\<lparr>activities := m2\<rparr>)
      \<Longrightarrow> storesAgree T (M\<lparr>activities := m2\<rparr>)"
    and "agreeFrom ''process_instances'' instanceRow (\<lambda>_. True) pi_ID keptInstance instances T0 T (M\<lparr>instances := m3\<rparr>)
      \<Longrightarrow> storesAgree T (M\<lparr>instances := m3\<rparr>)"
    and "variablesFrom T0 T (M\<lparr>variables := m4\<rparr>) \<Longrightarrow> storesAgree T (M\<lparr>variables := m4\<rparr>)"
    and "agreeFrom ''historic_activity_instances'' historyRow historyKeeps hai_ID keptHistory historicActivities T0 T
      (M\<lparr>historicActivities := m5\<rparr>) \<Longrightarrow> storesAgree T (M\<lparr>historicActivities := m5\<rparr>)"
    and "agreeFrom ''signal_subscriptions'' subscriptionRow (\<lambda>_. True) ss_ID keptSubscription signalSubsMap T0 T
      (M\<lparr>signalSubsMap := m6\<rparr>) \<Longrightarrow> storesAgree T (M\<lparr>signalSubsMap := m6\<rparr>)"
    and "agreeFrom ''timer_jobs'' timerRow (\<lambda>_. True) tj_ID keptTimer timerJobsMap T0 T (M\<lparr>timerJobsMap := m7\<rparr>)
      \<Longrightarrow> storesAgree T (M\<lparr>timerJobsMap := m7\<rparr>)"
    and "agreeFrom ''process_definitions'' definitionRow storedKeeps storedID keptDef storedDefs T0 T (M\<lparr>definitions := m8\<rparr>)
      \<Longrightarrow> storesAgree T (M\<lparr>definitions := m8\<rparr>)"
  using assms
  by (simp_all add: storesAgree_def agreeFrom_def variablesFrom_def rowsAgree_def variablesAgree_def instanceVars_def storedDefs_def)


lemma corresponds_entities:
  assumes "corresponds (sameKept kept) rel contents phase s (f s) (g M)"
    and "\<And>x. keptEntity (wrap x) = wrap (kept x)"
    and "\<And>T. rel T (snd (g M)) \<Longrightarrow> rel' T (snd (g M))"
  shows "corresponds (sameKept keptEntity) rel' contents phase s (entitiesOf wrap f s) (entitiesOf wrap g M)"
proof -
  obtain p s' where f: "f s = (p, s')" by fastforce
  obtain q M' where g: "g M = (q, M')" by fastforce
  have rel: "rel' (contents s') M'" using assms(1,3) f g by (simp add: corresponds_def)
  show ?thesis
  proof (cases p)
    case (Inl e)
    then show ?thesis using assms(1) f g rel by (cases q) (simp_all add: corresponds_def entitiesOf_def bindM_Inl sameOutcome_def)
  next
    case (Inr xs)
    then obtain ys where ys: "q = Inr ys" "sameKept kept xs ys" "phase s' = phase s"
      using assms(1) f g by (cases q) (simp_all add: corresponds_def sameOutcome_def)
    from ys(2) have "image_mset (wrap \<circ> kept) (mset xs) = image_mset (wrap \<circ> kept) (mset ys)"
      unfolding sameKept_def mset_map by (metis multiset.map_comp)
    then have "sameKept keptEntity (map wrap xs) (map wrap ys)"
      by (simp add: sameKept_def multiset.map_comp comp_def assms(2))
    then show ?thesis using f g rel Inr ys by (simp add: corresponds_def entitiesOf_def bindM_Inr returnM_def sameOutcome_def)
  qed
qed

section \<open>Runs\<close>

primrec sqlRun :: "'db SqlStore \<Rightarrow> callContext \<Rightarrow> (order \<times> storeCall) list \<Rightarrow> ('db, entity list list) sqlM" where
  "sqlRun S c [] = returnM []"
| "sqlRun S c (x # xs) = bindM (sqlCall S c (fst x) (snd x)) (\<lambda>r. bindM (sqlRun S c xs) (\<lambda>rs. returnM (r # rs)))"

primrec memRun :: "(order \<times> storeCall) list \<Rightarrow> entity list list storeM" where
  "memRun [] = returnM []"
| "memRun (x # xs) = bindM (memCall (fst x) (snd x)) (\<lambda>r. bindM (memRun xs) (\<lambda>rs. returnM (r # rs)))"

text \<open>Every call of the run is one that the engine makes; a run ends with its first error.\<close>

primrec callsOk :: "(order \<times> storeCall) list \<Rightarrow> Store \<Rightarrow> bool" where
  "callsOk [] M = True"
| "callsOk (x # xs) M = (callOk M (snd x)
     \<and> (case memCall (fst x) (snd x) M of (Inl e, M') \<Rightarrow> True | (Inr r, M') \<Rightarrow> callsOk xs M'))"

context sqlite_database
begin

lemma call_refines:
  assumes u: "usable c (phase s)" and a: "storesAgree (contents s) M" and ord: "fair_order ord" and ok: "callOk M call"
  shows "corresponds (sameKept keptEntity) storesAgree contents phase s (sqlCall (sqliteStore D) c ord call s) (memCall ord call M)"
proof (cases call)
  case (OnTokens t)
  with ok have "corresponds (sameKept keptToken) (tok.stepFrom s) contents phase s (sqlTokenCall (sqliteStore D) c t s) (memTokenCall ord t M)"
    by (intro token_call [OF u storesAgreeD(4) [OF a] ord]) simp
  then show ?thesis using OnTokens agreeFrom_stores(1) [OF a] tokens_only [of ord t M] by (auto intro: corresponds_entities)
next
  case (OnActivities t)
  with ok have "corresponds (sameKept keptActivity) (act.stepFrom s) contents phase s (sqlActivityCall (sqliteStore D) c t s) (memActivityCall ord t M)"
    by (intro activity_call [OF u storesAgreeD(3) [OF a] ord]) simp
  then show ?thesis using OnActivities agreeFrom_stores(2) [OF a] activities_only [of ord t M] by (auto intro: corresponds_entities)
next
  case (OnInstances t)
  with ok have "corresponds (sameKept keptInstance) (inst.stepFrom s) contents phase s (sqlInstanceCall (sqliteStore D) c t s) (memInstanceCall ord t M)"
    by (intro instance_call [OF u storesAgreeD(2) [OF a] ord]) simp
  then show ?thesis using OnInstances agreeFrom_stores(3) [OF a] instances_only [of ord t M] by (auto intro: corresponds_entities)
next
  case (OnVariables t)
  have "corresponds (sameKept keptVariable) (variablesFrom (contents s)) contents phase s (sqlVariableCall (sqliteStore D) c t s) (memVariableCall t M)"
    by (rule variable_call [OF u storesAgreeD(5) [OF a]])
  then show ?thesis using OnVariables agreeFrom_stores(4) [OF a] variables_only [of t M] by (auto intro: corresponds_entities)
next
  case (OnHistory t)
  with ok have "corresponds (sameKept keptHistory) (hist.stepFrom s) contents phase s (sqlHistoryCall (sqliteStore D) c t s) (memHistoryCall ord t M)"
    by (intro history_call [OF u storesAgreeD(6) [OF a] ord]) simp
  then show ?thesis using OnHistory agreeFrom_stores(5) [OF a] history_only [of ord t M] by (auto intro: corresponds_entities)
next
  case (OnSubscriptions t)
  with ok have "corresponds (sameKept keptSubscription) (subs.stepFrom s) contents phase s (sqlSubscriptionCall (sqliteStore D) c t s) (memSubscriptionCall ord t M)"
    by (intro subscription_call [OF u storesAgreeD(8) [OF a] ord]) simp
  then show ?thesis using OnSubscriptions agreeFrom_stores(6) [OF a] subscriptions_only [of ord t M] by (auto intro: corresponds_entities)
next
  case (OnTimers t)
  with ok have "corresponds (sameKept keptTimer) (timer.stepFrom s) contents phase s (sqlTimerCall (sqliteStore D) c t s) (memTimerCall t M)"
    by (intro timer_call [OF u storesAgreeD(7) [OF a]]) simp
  then show ?thesis using OnTimers agreeFrom_stores(7) [OF a] timers_only [of t M] by (auto intro: corresponds_entities)
next
  case (OnDefinitions t)
  with ok have "corresponds (sameKept canonDef) (defs.stepFrom s) contents phase s (sqlDefinitionCall (sqliteStore D) c ord t s) (memDefinitionCall ord t M)"
    by (intro definition_call [OF u storesAgreeD(1) [OF a] ord]) simp
  then show ?thesis using OnDefinitions agreeFrom_stores(8) [OF a] definitions_only [of ord t M] by (auto intro: corresponds_entities)
qed

lemma run_refines:
  assumes "usable c (phase s)" and "storesAgree (contents s) M" and "\<And>x. x \<in> set calls \<Longrightarrow> fair_order (fst x)" and "callsOk calls M"
  shows "corresponds (list_all2 (sameKept keptEntity)) storesAgree contents phase s (sqlRun (sqliteStore D) c calls s) (memRun calls M)"
  using assms
proof (induction calls arbitrary: s M)
  case Nil
  then show ?case by (simp add: corresponds_def sameOutcome_def returnM_def)
next
  case (Cons x calls)
  obtain p s1 where sql: "sqlCall (sqliteStore D) c (fst x) (snd x) s = (p, s1)" by fastforce
  obtain q M1 where mem: "memCall (fst x) (snd x) M = (q, M1)" by fastforce
  have "corresponds (sameKept keptEntity) storesAgree contents phase s (p, s1) (q, M1)"
    unfolding sql [symmetric] mem [symmetric] using Cons.prems by (intro call_refines) simp_all
  then consider (fails) e e' where "p = Inl e" "q = Inl e'" "storesAgree (contents s1) M1"
    | (goes_on) a b where "p = Inr a" "q = Inr b" "sameKept keptEntity a b" "storesAgree (contents s1) M1" "phase s1 = phase s"
    by (cases p; cases q) (auto simp: corresponds_def sameOutcome_def)
  then show ?case
  proof cases
    case fails
    then show ?thesis using sql mem by (simp add: bindM_Inl corresponds_def sameOutcome_def)
  next
    case goes_on
    have "corresponds (list_all2 (sameKept keptEntity)) storesAgree contents phase s1 (sqlRun (sqliteStore D) c calls s1) (memRun calls M1)"
      by (rule Cons.IH) (use Cons.prems goes_on mem in auto)
    then show ?thesis using sql mem goes_on
      by (cases "sqlRun (sqliteStore D) c calls s1"; cases "memRun calls M1")
         (auto simp: bindM_Inr corresponds_def sameOutcome_def sem_defs split: sum.splits)
  qed
qed

end

section \<open>Runs in a transaction\<close>

lemma stays_lists [stays_rule]:
  "stays phase Q m \<Longrightarrow> stays phase Q (noneOf m)" "stays phase Q m' \<Longrightarrow> stays phase Q (oneOf m')"
  "stays phase Q m'' \<Longrightarrow> stays phase Q (entitiesOf wrap m'')"
  unfolding noneOf_def oneOf_def entitiesOf_def by (intro stays_rule; assumption)+

text \<open>Every call of a store, on any of the three databases, keeps the kind of phase.\<close>

context sql_database
begin

lemma stays_call:
  assumes "db S = D" and "keptByCalls c Q"
  shows "stays phase Q (sqlCall S c ord call)"
proof -
  note open_rules = stays_rule stays_calls [OF assms]
  show ?thesis
  proof (cases call)
    case (OnTokens t)
    then show ?thesis by (cases t) (auto simp: sqlCreateToken_def sqlUpdateToken_def sqlGetToken_def sqlListActiveTokens_def
        sqlDeleteToken_def
        intro!: open_rules)
  next
    case (OnActivities t)
    then show ?thesis by (cases t) (auto simp: sqlCreateActivityInstance_def sqlUpdateActivityInstance_def
        sqlGetActivityInstance_def sqlListActiveActivities_def sqlListActivitiesByProcessInstance_def
        sqlListActivitiesByLoopID_def
        intro!: open_rules)
  next
    case (OnInstances t)
    then show ?thesis by (cases t) (auto simp: sqlCreateProcessInstance_def sqlUpdateProcessInstance_def
        sqlGetProcessInstance_def sqlListProcessInstances_def
        intro!: open_rules)
  next
    case (OnVariables t)
    then show ?thesis by (cases t) (auto simp: sqlSetVariable_def sqlGetVariable_def sqlGetAllVariables_def
        sqlDeleteVariable_def
        intro!: open_rules)
  next
    case (OnHistory t)
    then show ?thesis by (cases t) (auto simp: sqlCreateHistoricActivityInstance_def sqlListHistoricByProcessInstance_def
        intro!: open_rules)
  next
    case (OnSubscriptions t)
    then show ?thesis by (cases t) (auto simp: sqlCreateSignalSubscription_def sqlListSignalSubscriptions_def
        sqlDeleteSignalSubscription_def sqlDeleteSubscriptionsByInstance_def
        intro!: open_rules)
  next
    case (OnTimers t)
    then show ?thesis by (cases t) (auto simp: sqlCreateTimerJob_def sqlUpdateTimerJob_def sqlDeleteTimerJob_def
        sqlDeleteTimerJobsByInstance_def
        intro!: open_rules)
  next
    case (OnDefinitions t)
    then show ?thesis by (cases t) (auto simp: sqlCreateProcessDefinition_def sqlGetProcessDefinition_def
        sqlGetProcessDefinitionByKeyVersion_def sqlGetLatestProcessDefinitionByKey_def sqlListProcessDefinitions_def
        sqlDeleteProcessDefinition_def
        intro!: open_rules)
  qed
qed

lemma stays_run:
  assumes "db S = D" and "keptByCalls c Q"
  shows "stays phase Q (sqlRun S c calls)"
  by (induction calls) (auto intro!: stays_rule stays_call assms)

end

context sqlite_database
begin

text \<open>
  A transaction around a run: both stores report an error or neither does; without one they agree again, and with one the tables
  are those from before, while the memory store has what the run did until then.
\<close>

lemma transaction_run:
  assumes idle: "phase s = Idle" and a: "storesAgree (contents s) M" and ord: "\<And>x. x \<in> set calls \<Longrightarrow> fair_order (fst x)"
    and ok: "callsOk calls M"
  shows "case (sqlRunInTransaction (sqliteStore D) OnPool (\<lambda>c. bindM (sqlRun (sqliteStore D) c calls) (\<lambda>_. returnM ())) s,
        RunInTransaction (memRun calls) M) of ((r, s'), (r', M')) \<Rightarrow>
      isl r = isl r' \<and> phase s' = Idle
      \<and> (if isl r then contents s' = contents s else storesAgree (contents s') M')"
proof -
  let ?fn = "\<lambda>c. bindM (sqlRun (sqliteStore D) c calls) (\<lambda>_. returnM ())"
  obtain b s1 where b: "db_begin D s = (b, s1)" by fastforce
  have s1: "b = Inr ()" "contents s1 = contents s" "phase s1 = Within (contents s)" using start [OF idle b] by simp_all
  have run: "corresponds (list_all2 (sameKept keptEntity)) storesAgree contents phase s1
      (sqlRun (sqliteStore D) OnTx calls s1) (memRun calls M)"
    by (rule run_refines) (use s1 a ord ok in \<open>simp_all add: usable_def\<close>)
  obtain x s2 where x: "sqlRun (sqliteStore D) OnTx calls s1 = (x, s2)" by fastforce
  obtain y M2 where y: "memRun calls M = (y, M2)" by fastforce
  show ?thesis
  proof (cases x)
    case (Inl e)
    have "stays phase (inTransaction (contents s)) (sqlRun (sqliteStore D) OnTx calls)"
      by (rule stays_run [OF _ inTransaction_kept]) simp
    then have "inTransaction (contents s) (phase (snd (sqlRun (sqliteStore D) OnTx calls s1)))"
      using s1(3) by (simp add: stays_def inTransaction_def)
    then have "inTransaction (contents s) (phase s2)" using x by simp
    then show ?thesis using run Inl x y b s1(1) rollback [of s2 "contents s"]
      by (cases y) (simp_all add: sqlRunInTransaction_def bindM_Inl corresponds_def sameOutcome_def RunInTransaction_def inTransaction_def)
  next
    case (Inr rs)
    then obtain ys where ys: "y = Inr ys" "storesAgree (contents s2) M2" "phase s2 = Within (contents s)"
      using run x y s1(3) by (cases y) (simp_all add: corresponds_def sameOutcome_def)
    obtain d s3 where d: "db_commit D s2 = (d, s3)" by fastforce
    have "d = Inr ()" "contents s3 = contents s2" "phase s3 = Idle" using commit [OF ys(3) d] by simp_all
    then show ?thesis using Inr x y ys b s1(1) d
      by (simp add: sqlRunInTransaction_def bindM_Inr returnM_def RunInTransaction_def)
  qed
qed

text \<open>Two empty stores agree.\<close>

lemma empty_stores: "(\<And>t. rowsOf T t = []) \<Longrightarrow> storesAgree T NewStore"
  by (auto simp: storesAgree_def rowsAgree_def agree_def byId_def variablesAgree_def varsDistinct_def storedDefs_def NewStore_def
      instanceVars_def entryAt_def)

end

end
