(* ===== verification/Storage.thy ===== *)
theory Storage imports MemStore SqlStore begin

text \<open>
  The interfaces of storage/storage.go. An interface is a record of its methods; \<open>StoreInterface\<close> embeds the smaller ones.
  \<open>memInterface\<close> and \<open>sqlInterface\<close> are the stores behind it. \<open>QueryStore\<close>,
       \<open>TransactionStore\<close> and \<open>Close\<close> are left out: no
  client of the record below calls them.
\<close>

record ('s, 'e) ProcessDefinitionStore =
  createProcessDefinition :: "ProcessDefinition \<Rightarrow> ('s, 'e, unit) sem"
  getProcessDefinition :: "string \<Rightarrow> ('s, 'e, ProcessDefinition) sem"
  getProcessDefinitionByKeyVersion :: "string \<Rightarrow> int \<Rightarrow> ('s, 'e, ProcessDefinition) sem"
  getLatestProcessDefinitionByKey :: "string \<Rightarrow> ('s, 'e, ProcessDefinition) sem"
  listProcessDefinitions :: "('s, 'e, ProcessDefinition list) sem"
  deleteProcessDefinition :: "string \<Rightarrow> ('s, 'e, unit) sem"

record ('s, 'e) ProcessInstanceStore =
  createProcessInstance :: "ProcessInstance \<Rightarrow> ('s, 'e, unit) sem"
  updateProcessInstance :: "ProcessInstance \<Rightarrow> ('s, 'e, unit) sem"
  getProcessInstance :: "string \<Rightarrow> ('s, 'e, ProcessInstance) sem"
  listProcessInstances :: "string \<Rightarrow> ('s, 'e, ProcessInstance list) sem"
  listCompletedProcessInstances :: "int \<Rightarrow> ('s, 'e, ProcessInstance list) sem"

record ('s, 'e) ActivityInstanceStore =
  createActivityInstance :: "ActivityInstance \<Rightarrow> ('s, 'e, unit) sem"
  updateActivityInstance :: "ActivityInstance \<Rightarrow> ('s, 'e, unit) sem"
  getActivityInstance :: "string \<Rightarrow> ('s, 'e, ActivityInstance) sem"
  listActiveActivities :: "string \<Rightarrow> ('s, 'e, ActivityInstance list) sem"
  listActivitiesByProcessInstance :: "string \<Rightarrow> ('s, 'e, ActivityInstance list) sem"
  listActivitiesByLoopID :: "string \<Rightarrow> string \<Rightarrow> ('s, 'e, ActivityInstance list) sem"

record ('s, 'e) TokenStore =
  createToken :: "Token \<Rightarrow> ('s, 'e, unit) sem"
  updateToken :: "Token \<Rightarrow> ('s, 'e, unit) sem"
  getToken :: "string \<Rightarrow> ('s, 'e, Token) sem"
  listActiveTokens :: "string \<Rightarrow> ('s, 'e, Token list) sem"
  deleteToken :: "string \<Rightarrow> ('s, 'e, unit) sem"

record ('s, 'e) VariableStore =
  setVariable :: "string \<Rightarrow> string \<Rightarrow> gval \<Rightarrow> ('s, 'e, unit) sem"
  getVariable :: "string \<Rightarrow> string \<Rightarrow> ('s, 'e, gval) sem"
  getAllVariables :: "string \<Rightarrow> ('s, 'e, vars) sem"
  deleteVariable :: "string \<Rightarrow> string \<Rightarrow> ('s, 'e, unit) sem"

record ('s, 'e) TimerJobStore =
  createTimerJob :: "TimerJob \<Rightarrow> ('s, 'e, unit) sem"
  updateTimerJob :: "TimerJob \<Rightarrow> ('s, 'e, unit) sem"
  listDueTimerJobs :: "int \<Rightarrow> ('s, 'e, TimerJob list) sem"
  deleteTimerJob :: "string \<Rightarrow> ('s, 'e, unit) sem"
  deleteTimerJobsByInstance :: "string \<Rightarrow> ('s, 'e, unit) sem"

record ('s, 'e) SignalSubscriptionStore =
  createSignalSubscription :: "SignalSubscription \<Rightarrow> ('s, 'e, unit) sem"
  listSignalSubscriptions :: "string \<Rightarrow> ('s, 'e, SignalSubscription list) sem"
  deleteSignalSubscription :: "string \<Rightarrow> ('s, 'e, unit) sem"
  deleteSubscriptionsByInstance :: "string \<Rightarrow> ('s, 'e, unit) sem"

record ('s, 'e) HistoricActivityInstanceStore =
  createHistoricActivityInstance :: "HistoricActivityInstance \<Rightarrow> ('s, 'e, unit) sem"
  listHistoricByProcessInstance :: "string \<Rightarrow> ('s, 'e, HistoricActivityInstance list) sem"

record ('s, 'e) StoreInterface =
  theProcessDefinitionStore :: "('s, 'e) ProcessDefinitionStore"
  theProcessInstanceStore :: "('s, 'e) ProcessInstanceStore"
  theActivityInstanceStore :: "('s, 'e) ActivityInstanceStore"
  theTokenStore :: "('s, 'e) TokenStore"
  theVariableStore :: "('s, 'e) VariableStore"
  theTimerJobStore :: "('s, 'e) TimerJobStore"
  theSignalSubscriptionStore :: "('s, 'e) SignalSubscriptionStore"
  theHistoricActivityInstanceStore :: "('s, 'e) HistoricActivityInstanceStore"

definition memInterface :: "order \<Rightarrow> (Store, err) StoreInterface" where
  "memInterface ord = \<lparr>
     theProcessDefinitionStore = \<lparr>createProcessDefinition = CreateProcessDefinition,
       getProcessDefinition = GetProcessDefinition,
       getProcessDefinitionByKeyVersion = GetProcessDefinitionByKeyVersion ord,
       getLatestProcessDefinitionByKey = GetLatestProcessDefinitionByKey ord,
       listProcessDefinitions = ListProcessDefinitions ord, deleteProcessDefinition = DeleteProcessDefinition\<rparr>,
     theProcessInstanceStore = \<lparr>createProcessInstance = CreateProcessInstance,
       updateProcessInstance = UpdateProcessInstance, getProcessInstance = GetProcessInstance,
       listProcessInstances = ListProcessInstances ord,
       listCompletedProcessInstances = ListCompletedProcessInstances ord\<rparr>,
     theActivityInstanceStore = \<lparr>createActivityInstance = CreateActivityInstance,
       updateActivityInstance = UpdateActivityInstance, getActivityInstance = GetActivityInstance,
       listActiveActivities = ListActiveActivities ord,
       listActivitiesByProcessInstance = ListActivitiesByProcessInstance ord,
       listActivitiesByLoopID = ListActivitiesByLoopID ord\<rparr>,
     theTokenStore = \<lparr>createToken = CreateToken, updateToken = UpdateToken, getToken = GetToken,
       listActiveTokens = ListActiveTokens ord, deleteToken = DeleteToken\<rparr>,
     theVariableStore = \<lparr>setVariable = SetVariable, getVariable = GetVariable, getAllVariables = GetAllVariables,
       deleteVariable = DeleteVariable\<rparr>,
     theTimerJobStore = \<lparr>createTimerJob = CreateTimerJob, updateTimerJob = UpdateTimerJob,
       listDueTimerJobs = ListDueTimerJobs ord, deleteTimerJob = DeleteTimerJob,
       deleteTimerJobsByInstance = DeleteTimerJobsByInstance\<rparr>,
     theSignalSubscriptionStore = \<lparr>createSignalSubscription = CreateSignalSubscription,
       listSignalSubscriptions = ListSignalSubscriptions ord, deleteSignalSubscription = DeleteSignalSubscription,
       deleteSubscriptionsByInstance = DeleteSubscriptionsByInstance\<rparr>,
     theHistoricActivityInstanceStore = \<lparr>createHistoricActivityInstance = CreateHistoricActivityInstance,
       listHistoricByProcessInstance = ListHistoricByProcessInstance ord\<rparr>\<rparr>"

definition sqlInterface ::
  "'db SqlStore \<Rightarrow> callContext \<Rightarrow> order
    \<Rightarrow> ('db, sqlError) StoreInterface" where
  "sqlInterface S c ord = \<lparr>
     theProcessDefinitionStore = \<lparr>createProcessDefinition = sqlCreateProcessDefinition S c ord,
       getProcessDefinition = sqlGetProcessDefinition S c,
       getProcessDefinitionByKeyVersion = sqlGetProcessDefinitionByKeyVersion S c,
       getLatestProcessDefinitionByKey = sqlGetLatestProcessDefinitionByKey S c,
       listProcessDefinitions = sqlListProcessDefinitions S c,
       deleteProcessDefinition = sqlDeleteProcessDefinition S c\<rparr>,
     theProcessInstanceStore = \<lparr>createProcessInstance = sqlCreateProcessInstance S c,
       updateProcessInstance = sqlUpdateProcessInstance S c, getProcessInstance = sqlGetProcessInstance S c,
       listProcessInstances = sqlListProcessInstances S c,
       listCompletedProcessInstances = sqlListCompletedProcessInstances S c\<rparr>,
     theActivityInstanceStore = \<lparr>createActivityInstance = sqlCreateActivityInstance S c,
       updateActivityInstance = sqlUpdateActivityInstance S c, getActivityInstance = sqlGetActivityInstance S c,
       listActiveActivities = sqlListActiveActivities S c,
       listActivitiesByProcessInstance = sqlListActivitiesByProcessInstance S c,
       listActivitiesByLoopID = sqlListActivitiesByLoopID S c\<rparr>,
     theTokenStore = \<lparr>createToken = sqlCreateToken S c, updateToken = sqlUpdateToken S c,
       getToken = sqlGetToken S c, listActiveTokens = sqlListActiveTokens S c, deleteToken = sqlDeleteToken S c\<rparr>,
     theVariableStore = \<lparr>setVariable = sqlSetVariable S c, getVariable = sqlGetVariable S c,
       getAllVariables = sqlGetAllVariables S c, deleteVariable = sqlDeleteVariable S c\<rparr>,
     theTimerJobStore = \<lparr>createTimerJob = sqlCreateTimerJob S c, updateTimerJob = sqlUpdateTimerJob S c,
       listDueTimerJobs = sqlListDueTimerJobs S c, deleteTimerJob = sqlDeleteTimerJob S c,
       deleteTimerJobsByInstance = sqlDeleteTimerJobsByInstance S c\<rparr>,
     theSignalSubscriptionStore = \<lparr>createSignalSubscription = sqlCreateSignalSubscription S c,
       listSignalSubscriptions = sqlListSignalSubscriptions S c,
       deleteSignalSubscription = sqlDeleteSignalSubscription S c,
       deleteSubscriptionsByInstance = sqlDeleteSubscriptionsByInstance S c\<rparr>,
     theHistoricActivityInstanceStore = \<lparr>createHistoricActivityInstance = sqlCreateHistoricActivityInstance S c,
       listHistoricByProcessInstance = sqlListHistoricByProcessInstance S c\<rparr>\<rparr>"

end
