(* ===== verification/StorageTest.thy ===== *)
theory StorageTest imports Storage begin

text \<open>
  The contract test suite of storage/storagetest/suite.go, as programs over any store behind the interface. A call of \<open>t.Fatalf\<close>
  ends the test, \<open>t.Errorf\<close> and \<open>t.Error\<close> record a failure and go on; \<open>t.Run\<close> goes on after a test that was ended. Readings of
  \<open>time.Now\<close> are arguments.
\<close>

record 's testState =
  subject :: 's
  failures :: "string list"

type_synonym ('s, 'a) testM = "('s testState, string, 'a) sem"

text \<open>\<open>if err != nil { t.Fatalf(...) }\<close> after a call.\<close>

definition must :: "string \<Rightarrow> ('s, 'e, 'a) sem \<Rightarrow> ('s, 'a) testM" where
  "must msg m = (\<lambda>t. case m (subject t) of
       (Inl e, s') \<Rightarrow> (Inl msg, t\<lparr>subject := s'\<rparr>)
     | (Inr x, s') \<Rightarrow> (Inr x, t\<lparr>subject := s'\<rparr>))"

text \<open>\<open>if !ok { t.Errorf(...) }\<close>, and \<open>if err == nil { t.Error(...) }\<close> after a call that has to fail.\<close>

definition expect :: "bool \<Rightarrow> string \<Rightarrow> ('s, unit) testM" where
  "expect ok msg = (\<lambda>t. (Inr (), if ok then t else t\<lparr>failures := failures t @ [msg]\<rparr>))"

definition mustFail :: "('s, 'e, 'a) sem \<Rightarrow> string \<Rightarrow> ('s, unit) testM" where
  "mustFail m msg = (\<lambda>t. case m (subject t) of
       (Inl e, s') \<Rightarrow> (Inr (), t\<lparr>subject := s'\<rparr>)
     | (Inr x, s') \<Rightarrow> (Inr (), t\<lparr>subject := s', failures := failures t @ [msg]\<rparr>))"

definition runTest :: "('s, unit) testM \<Rightarrow> ('s, unit) testM" where
  "runTest m = (\<lambda>t. case m t of
       (Inl msg, t') \<Rightarrow> (Inr (), t'\<lparr>failures := failures t' @ [msg]\<rparr>)
     | (Inr x, t') \<Rightarrow> (Inr (), t'))"

definition testDefinition :: ProcessDefinition where
  "testDefinition = \<lparr>pd_ID = ''def1'', pd_Name = ''Test Process'', pd_Key = ''test-process'', pd_Version = 1, pd_TenantID = '''',
     pd_Elements = [(''start1'', StartEvent ''start1'' ''''), (''end1'', EndEvent ''end1'' '''')],
     pd_SequenceFlows = [\<lparr>sf_ID = ''sf1'', sf_Name = '''', sf_SourceRef = ''start1'', sf_TargetRef = ''end1'',
       sf_ConditionExpression = None\<rparr>],
     pd_StartEventID = ''start1''\<rparr>"

definition testProcessDefinitionCRUD :: "('s, 'e) StoreInterface \<Rightarrow> ('s, unit) testM" where
  "testProcessDefinitionCRUD S = (let s = theProcessDefinitionStore S in
     bindM (must ''CreateProcessDefinition'' (createProcessDefinition s testDefinition)) (\<lambda>_.
     bindM (must ''GetProcessDefinition'' (getProcessDefinition s ''def1'')) (\<lambda>got.
     bindM (expect (\<not> (pd_ID got \<noteq> ''def1'' \<or> pd_Name got \<noteq> ''Test Process'')) ''id and name'') (\<lambda>_.
     bindM (must ''GetProcessDefinitionByKeyVersion'' (getProcessDefinitionByKeyVersion s ''test-process'' 1)) (\<lambda>got.
     bindM (expect (pd_ID got = ''def1'') ''id'') (\<lambda>_.
     bindM (must ''ListProcessDefinitions'' (listProcessDefinitions s)) (\<lambda>defs.
     bindM (expect (length defs = 1) ''1 definition'') (\<lambda>_.
     bindM (must ''DeleteProcessDefinition'' (deleteProcessDefinition s ''def1'')) (\<lambda>_.
     bindM (mustFail (getProcessDefinition s ''def1'') ''error after deleting definition'') (\<lambda>_.
     mustFail (getProcessDefinition s ''nonexistent'') ''error for nonexistent definition''))))))))))"

definition testProcessInstanceCRUD :: "int \<Rightarrow> int \<Rightarrow> ('s, 'e) StoreInterface \<Rightarrow> ('s, unit) testM" where
  "testProcessInstanceCRUD started now S = (let s = theProcessInstanceStore S;
       p = NewProcessInstance started ''pi1'' ''def1'' [(''key'', GString ''value'')] in
     bindM (must ''CreateProcessInstance'' (createProcessInstance s p)) (\<lambda>_.
     bindM (must ''GetProcessInstance'' (getProcessInstance s ''pi1'')) (\<lambda>got.
     bindM (expect (pi_State got = Running) ''running'') (\<lambda>_.
     bindM (expect (map_of (pi_Variables got) ''key'' = Some (GString ''value'')) ''value'') (\<lambda>_.
     bindM (must ''UpdateProcessInstance'' (updateProcessInstance s (p\<lparr>pi_State := Completed, pi_EndedAt := Some now\<rparr>))) (\<lambda>_.
     bindM (must ''GetProcessInstance after update'' (getProcessInstance s ''pi1'')) (\<lambda>got.
     bindM (expect (pi_State got = Completed) ''completed'') (\<lambda>_.
     bindM (expect (pi_EndedAt got \<noteq> None) ''EndedAt'') (\<lambda>_.
     bindM (must ''ListProcessInstances'' (listProcessInstances s ''def1'')) (\<lambda>list.
     bindM (expect (length list = 1) ''1 instance'') (\<lambda>_.
     mustFail (getProcessInstance s ''nonexistent'') ''error for nonexistent instance'')))))))))))"

definition testActivityInstanceCRUD :: "int \<Rightarrow> int \<Rightarrow> ('s, 'e) StoreInterface \<Rightarrow> ('s, unit) testM" where
  "testActivityInstanceCRUD started now S = (let s = theActivityInstanceStore S;
       a = NewActivityInstance ''ai1'' ''pi_act'' ''task1'' ElementTypeUserTask;
       a2 = NewActivityInstance ''ai2'' ''pi_act'' ''task2'' ElementTypeUserTask in
     bindM (must ''CreateProcessInstance''
       (createProcessInstance (theProcessInstanceStore S) (NewProcessInstance started ''pi_act'' ''def1'' []))) (\<lambda>_.
     bindM (must ''CreateActivityInstance'' (createActivityInstance s a)) (\<lambda>_.
     bindM (must ''GetActivityInstance'' (getActivityInstance s ''ai1'')) (\<lambda>got.
     bindM (expect (ai_State got = ActivityActive) ''active'') (\<lambda>_.
     bindM (must ''UpdateActivityInstance'' (updateActivityInstance s (Complete now a))) (\<lambda>_.
     bindM (must ''GetActivityInstance after update'' (getActivityInstance s ''ai1'')) (\<lambda>got.
     bindM (expect (ai_State got = ActivityCompleted) ''completed'') (\<lambda>_.
     bindM (must ''CreateActivityInstance'' (createActivityInstance s a2)) (\<lambda>_.
     bindM (must ''ListActiveActivities'' (listActiveActivities s ''pi_act'')) (\<lambda>active.
     bindM (expect (length active = 1) ''1 active activity'') (\<lambda>_.
     bindM (must ''ListActivitiesByProcessInstance'' (listActivitiesByProcessInstance s ''pi_act'')) (\<lambda>all.
     expect (length all = 2) ''2 activities''))))))))))))"

definition testTokenCRUD :: "int \<Rightarrow> int \<Rightarrow> int \<Rightarrow> ('s, 'e) StoreInterface \<Rightarrow> ('s, unit) testM" where
  "testTokenCRUD started made made2 S = (let s = theTokenStore S;
       tok = NewToken made ''t1'' ''pi_tok'' ''start1''; tok2 = NewToken made2 ''t2'' ''pi_tok'' ''task1'' in
     bindM (must ''CreateProcessInstance''
       (createProcessInstance (theProcessInstanceStore S) (NewProcessInstance started ''pi_tok'' ''def1'' []))) (\<lambda>_.
     bindM (must ''CreateToken'' (createToken s tok)) (\<lambda>_.
     bindM (must ''GetToken'' (getToken s ''t1'')) (\<lambda>got.
     bindM (expect (tok_State got = TokenActive) ''active'') (\<lambda>_.
     bindM (expect (tok_CurrentElementID got = ''start1'') ''start1'') (\<lambda>_.
     bindM (must ''UpdateToken'' (updateToken s (tok\<lparr>tok_State := TokenConsumed\<rparr>))) (\<lambda>_.
     bindM (must ''GetToken after update'' (getToken s ''t1'')) (\<lambda>got.
     bindM (expect (tok_State got = TokenConsumed) ''consumed'') (\<lambda>_.
     bindM (must ''CreateToken'' (createToken s tok2)) (\<lambda>_.
     bindM (must ''ListActiveTokens'' (listActiveTokens s ''pi_tok'')) (\<lambda>active.
     bindM (expect (length active = 1) ''1 active token'') (\<lambda>_.
     bindM (must ''DeleteToken'' (deleteToken s ''t1'')) (\<lambda>_.
     mustFail (getToken s ''t1'') ''error after deleting token'')))))))))))))"

definition testVariables :: "('s, 'e) StoreInterface \<Rightarrow> ('s, unit) testM" where
  "testVariables S = (let s = theVariableStore S in
     bindM (must ''SetVariable'' (setVariable s ''pi_var'' ''name'' (GString ''test''))) (\<lambda>_.
     bindM (must ''SetVariable'' (setVariable s ''pi_var'' ''count'' (GInt 42))) (\<lambda>_.
     bindM (must ''SetVariable'' (setVariable s ''pi_var'' ''enabled'' (GBool True))) (\<lambda>_.
     bindM (must ''GetVariable'' (getVariable s ''pi_var'' ''name'')) (\<lambda>val.
     bindM (expect (val = GString ''test'') ''test'') (\<lambda>_.
     bindM (must ''GetAllVariables'' (getAllVariables s ''pi_var'')) (\<lambda>vars.
     bindM (expect (length vars = 3) ''3 variables'') (\<lambda>_.
     bindM (expect (\<not> (map_of vars ''count'' \<noteq> Some (GFloat 42) \<and> map_of vars ''count'' \<noteq> Some (GInt 42))) ''42'') (\<lambda>_.
     bindM (must ''DeleteVariable'' (deleteVariable s ''pi_var'' ''name'')) (\<lambda>_.
     bindM (mustFail (getVariable s ''pi_var'' ''name'') ''error after deleting variable'') (\<lambda>_.
     bindM (must ''GetAllVariables'' (getAllVariables s ''pi_var'')) (\<lambda>vars.
     bindM (expect (length vars = 2) ''2 variables'') (\<lambda>_.
     mustFail (getVariable s ''nonexistent'' ''x'') ''error for nonexistent variable'')))))))))))))"

definition RunStoreTestSuite :: "(nat \<Rightarrow> int) \<Rightarrow> ('s, 'e) StoreInterface \<Rightarrow> ('s, unit) testM" where
  "RunStoreTestSuite now S =
     bindM (runTest (testProcessDefinitionCRUD S)) (\<lambda>_.
     bindM (runTest (testProcessInstanceCRUD (now 0) (now 1) S)) (\<lambda>_.
     bindM (runTest (testActivityInstanceCRUD (now 2) (now 3) S)) (\<lambda>_.
     bindM (runTest (testTokenCRUD (now 4) (now 5) (now 6) S)) (\<lambda>_.
     runTest (testVariables S)))))"

text \<open>The failures that the suite reports for a store in the state \<open>s\<close>.\<close>

definition suiteFailures :: "(nat \<Rightarrow> int) \<Rightarrow> ('s, 'e) StoreInterface \<Rightarrow> 's \<Rightarrow> string list" where
  "suiteFailures now S s = failures (snd (RunStoreTestSuite now S \<lparr>subject = s, failures = []\<rparr>))"

end
