(* ===== verification/Conformance.thy ===== *)
theory Conformance imports SqlRun StorageTest begin

text \<open>
  The contract between the engine and a store: whatever stands behind the interface of storage.go answers each call as the
  memory store does. The memory store and the SQLite store keep the contract; under it the test suite of the repository
  reports no failure.
\<close>

section \<open>The contract\<close>

text \<open>A store call made through the interface.\<close>

primrec viaTokenStore :: "('s, 'e) TokenStore \<Rightarrow> tokenCall \<Rightarrow> ('s, 'e, Token list) sem" where
  "viaTokenStore s (CallCreateToken x) = noneOf (createToken s x)"
| "viaTokenStore s (CallUpdateToken x) = noneOf (updateToken s x)"
| "viaTokenStore s (CallGetToken x) = oneOf (getToken s x)"
| "viaTokenStore s (CallListActiveTokens x) = listActiveTokens s x"
| "viaTokenStore s (CallDeleteToken x) = noneOf (deleteToken s x)"

primrec viaActivityInstanceStore :: "('s, 'e) ActivityInstanceStore \<Rightarrow> activityCall \<Rightarrow> ('s, 'e, ActivityInstance list) sem" where
  "viaActivityInstanceStore s (CallCreateActivity x) = noneOf (createActivityInstance s x)"
| "viaActivityInstanceStore s (CallUpdateActivity x) = noneOf (updateActivityInstance s x)"
| "viaActivityInstanceStore s (CallGetActivity x) = oneOf (getActivityInstance s x)"
| "viaActivityInstanceStore s (CallListActive x) = listActiveActivities s x"
| "viaActivityInstanceStore s (CallListByInstance x) = listActivitiesByProcessInstance s x"
| "viaActivityInstanceStore s (CallListByLoop x y) = listActivitiesByLoopID s x y"

primrec viaProcessInstanceStore :: "('s, 'e) ProcessInstanceStore \<Rightarrow> instanceCall \<Rightarrow> ('s, 'e, ProcessInstance list) sem" where
  "viaProcessInstanceStore s (CallCreateInstance x) = noneOf (createProcessInstance s x)"
| "viaProcessInstanceStore s (CallUpdateInstance x) = noneOf (updateProcessInstance s x)"
| "viaProcessInstanceStore s (CallGetInstance x) = oneOf (getProcessInstance s x)"
| "viaProcessInstanceStore s (CallListInstances x) = listProcessInstances s x"

primrec viaVariableStore :: "('s, 'e) VariableStore \<Rightarrow> variableCall \<Rightarrow> ('s, 'e, (string \<times> gval) list) sem" where
  "viaVariableStore s (CallSetVariable x y z) = noneOf (setVariable s x y z)"
| "viaVariableStore s (CallGetVariable x y) = bindM (getVariable s x y) (\<lambda>v. returnM [(y, v)])"
| "viaVariableStore s (CallGetAllVariables x) = getAllVariables s x"
| "viaVariableStore s (CallDeleteVariable x y) = noneOf (deleteVariable s x y)"

primrec viaHistoricActivityInstanceStore :: "('s, 'e) HistoricActivityInstanceStore \<Rightarrow> historyCall \<Rightarrow> ('s, 'e, HistoricActivityInstance list) sem" where
  "viaHistoricActivityInstanceStore s (CallCreateHistoric x) = noneOf (createHistoricActivityInstance s x)"
| "viaHistoricActivityInstanceStore s (CallListHistoric x) = listHistoricByProcessInstance s x"

primrec viaSignalSubscriptionStore :: "('s, 'e) SignalSubscriptionStore \<Rightarrow> subscriptionCall \<Rightarrow> ('s, 'e, SignalSubscription list) sem" where
  "viaSignalSubscriptionStore s (CallCreateSubscription x) = noneOf (createSignalSubscription s x)"
| "viaSignalSubscriptionStore s (CallListSubscriptions x) = listSignalSubscriptions s x"
| "viaSignalSubscriptionStore s (CallDeleteSubscription x) = noneOf (deleteSignalSubscription s x)"
| "viaSignalSubscriptionStore s (CallDeleteSubscriptionsBy x) = noneOf (deleteSubscriptionsByInstance s x)"

primrec viaTimerJobStore :: "('s, 'e) TimerJobStore \<Rightarrow> timerCall \<Rightarrow> ('s, 'e, TimerJob list) sem" where
  "viaTimerJobStore s (CallCreateTimer x) = noneOf (createTimerJob s x)"
| "viaTimerJobStore s (CallUpdateTimer x) = noneOf (updateTimerJob s x)"
| "viaTimerJobStore s (CallDeleteTimer x) = noneOf (deleteTimerJob s x)"
| "viaTimerJobStore s (CallDeleteTimersBy x) = noneOf (deleteTimerJobsByInstance s x)"

primrec viaProcessDefinitionStore :: "('s, 'e) ProcessDefinitionStore \<Rightarrow> definitionCall \<Rightarrow> ('s, 'e, ProcessDefinition list) sem" where
  "viaProcessDefinitionStore s (CallCreateDefinition x) = noneOf (createProcessDefinition s x)"
| "viaProcessDefinitionStore s (CallGetDefinition x) = oneOf (getProcessDefinition s x)"
| "viaProcessDefinitionStore s (CallGetByKeyVersion x y) = oneOf (getProcessDefinitionByKeyVersion s x y)"
| "viaProcessDefinitionStore s (CallGetLatest x) = oneOf (getLatestProcessDefinitionByKey s x)"
| "viaProcessDefinitionStore s CallListDefinitions = listProcessDefinitions s"
| "viaProcessDefinitionStore s (CallDeleteDefinition x) = noneOf (deleteProcessDefinition s x)"

primrec apiCall :: "('s, 'e) StoreInterface \<Rightarrow> storeCall \<Rightarrow> ('s, 'e, entity list) sem" where
  "apiCall S (OnTokens call) = entitiesOf EToken (viaTokenStore (theTokenStore S) call)"
| "apiCall S (OnActivities call) = entitiesOf EActivity (viaActivityInstanceStore (theActivityInstanceStore S) call)"
| "apiCall S (OnInstances call) = entitiesOf EInstance (viaProcessInstanceStore (theProcessInstanceStore S) call)"
| "apiCall S (OnVariables call) = entitiesOf EVariable (viaVariableStore (theVariableStore S) call)"
| "apiCall S (OnHistory call) = entitiesOf EHistory (viaHistoricActivityInstanceStore (theHistoricActivityInstanceStore S) call)"
| "apiCall S (OnSubscriptions call) = entitiesOf ESubscription (viaSignalSubscriptionStore (theSignalSubscriptionStore S) call)"
| "apiCall S (OnTimers call) = entitiesOf ETimer (viaTimerJobStore (theTimerJobStore S) call)"
| "apiCall S (OnDefinitions call) = entitiesOf EDefinition (viaProcessDefinitionStore (theProcessDefinitionStore S) call)"

lemma apiCall_mem: "apiCall (memInterface ord) call = memCall ord call"
proof (cases call)
  case (OnTokens c)
  then show ?thesis by (cases c) (simp_all add: memInterface_def)
next
  case (OnActivities c)
  then show ?thesis by (cases c) (simp_all add: memInterface_def)
next
  case (OnInstances c)
  then show ?thesis by (cases c) (simp_all add: memInterface_def)
next
  case (OnVariables c)
  then show ?thesis by (cases c) (simp_all add: memInterface_def)
next
  case (OnHistory c)
  then show ?thesis by (cases c) (simp_all add: memInterface_def)
next
  case (OnSubscriptions c)
  then show ?thesis by (cases c) (simp_all add: memInterface_def)
next
  case (OnTimers c)
  then show ?thesis by (cases c) (simp_all add: memInterface_def)
next
  case (OnDefinitions c)
  then show ?thesis by (cases c) (simp_all add: memInterface_def)
qed

lemma apiCall_sql: "apiCall (sqlInterface S c ord) call = sqlCall S c ord call"
proof (cases call)
  case (OnTokens t)
  then show ?thesis by (cases t) (simp_all add: sqlInterface_def)
next
  case (OnActivities t)
  then show ?thesis by (cases t) (simp_all add: sqlInterface_def)
next
  case (OnInstances t)
  then show ?thesis by (cases t) (simp_all add: sqlInterface_def)
next
  case (OnVariables t)
  then show ?thesis by (cases t) (simp_all add: sqlInterface_def)
next
  case (OnHistory t)
  then show ?thesis by (cases t) (simp_all add: sqlInterface_def)
next
  case (OnSubscriptions t)
  then show ?thesis by (cases t) (simp_all add: sqlInterface_def)
next
  case (OnTimers t)
  then show ?thesis by (cases t) (simp_all add: sqlInterface_def)
next
  case (OnDefinitions t)
  then show ?thesis by (cases t) (simp_all add: sqlInterface_def)
qed

text \<open>
  A store that keeps the contract: its states represent states of the memory store, and each call the engine may make has the
  outcome that it has there, up to what a row does not keep. Values of variables come back as they are or as JSON makes them.
\<close>

locale store_contract =
  fixes S :: "('s, 'e) StoreInterface" and rep :: "'s \<Rightarrow> Store \<Rightarrow> bool" and ord :: order
  assumes call: "fair_order ord \<Longrightarrow> rep s M \<Longrightarrow> callOk M cl \<Longrightarrow> apiCall S cl s = (r, s') \<Longrightarrow> memCall ord cl M = (r', M')
      \<Longrightarrow> rep s' M' \<and> sameOutcome (sameKept keptEntity) r r'"
    and vars: "rep s M \<Longrightarrow> getAllVariables (theVariableStore S) p s = (Inr xs, s') \<Longrightarrow> (k, v) \<in> set xs
      \<Longrightarrow> asJson v = v \<or> (k, v) \<in> set (instanceVars M p)"

text \<open>The memory store keeps it, by definition.\<close>

interpretation memContract: store_contract "memInterface ord" "(=)" ord for ord
proof unfold_locales
  fix M M' :: Store and s s' cl r r'
  assume "s = M" and "apiCall (memInterface ord) cl s = (r, s')" and "memCall ord cl M = (r', M')"
  then show "s' = M' \<and> sameOutcome (sameKept keptEntity) r r'"
    by (cases r) (simp_all add: apiCall_mem sameOutcome_def sameKept_def)
qed (simp add: memInterface_def GetAllVariables_def)

text \<open>So does the SQLite store, outside of transactions.\<close>

lemma document_kept [simp]: "toJson (fromJson j) = j"
proof (induction j)
  case (JObject kjs)
  then show ?case by (auto intro!: map_idI)
qed (auto intro: map_idI)

lemma scanned_values:
  assumes "scanRows scanNamed rows = Inr kvs" and "(k, v) \<in> set kvs"
  shows "asJson v = v"
  using assms
proof (induction rows arbitrary: kvs)
  case (Cons row rows)
  then show ?case
    by (auto simp: scanNamed_def scanValue_def bindE_def asJson_def split: sum.splits list.splits sqlVal.splits)
qed simp

lemma set_update_subset: "set (AList.update k v vs) \<subseteq> insert (k, v) (set vs)"
  by (induction vs) auto

lemma read_values:
  assumes "sqlGetAllVariables S c p s = (Inr xs, s')" and "(k, v) \<in> set xs"
  shows "asJson v = v"
proof -
  let ?upd = "\<lambda>(k, v). AList.update k v"
  have upd: "set (?upd kv vs) \<subseteq> insert kv (set vs)" for kv and vs :: vars
    using set_update_subset by (cases kv) simp
  have fold: "set (fold ?upd kvs vs) \<subseteq> set kvs \<union> set vs" for kvs and vs :: vars
  proof (induction kvs arbitrary: vs)
    case (Cons kv kvs)
    have "set (fold ?upd (kv # kvs) vs) \<subseteq> set kvs \<union> set (?upd kv vs)" using Cons.IH by simp
    also have "\<dots> \<subseteq> set (kv # kvs) \<union> set vs" using upd [of kv vs] by auto
    finally show ?case .
  qed simp
  obtain r s1 where q: "queryContext S c (selectFrom [''name'', ''value''] ''variables'' [ColEq ''process_instance_id'' (SText p)]) s = (r, s1)"
    by fastforce
  then obtain rows kvs where "r = Inr rows" "scanRows scanNamed rows = Inr kvs" "xs = fold ?upd kvs []"
    using assms(1) unfolding sqlGetAllVariables_def queryRows_def
    by (cases r; cases "case r of Inl e \<Rightarrow> Inr [] | Inr rows \<Rightarrow> scanRows scanNamed rows") (simp_all add: bindM_def returnM_def scanM_def)
  then show ?thesis using scanned_values [of rows kvs k v] fold [of kvs "[]"] assms(2) by auto
qed

sublocale sqlite_database \<subseteq> sqlContract: store_contract "sqlInterface (sqliteStore D) OnPool ord"
    "\<lambda>s M. phase s = Idle \<and> storesAgree (contents s) M" ord for ord
proof unfold_locales
  fix s M cl r s' r' M'
  assume ord: "fair_order ord" and rep: "phase s = Idle \<and> storesAgree (contents s) M" and ok: "callOk M cl"
    and sql: "apiCall (sqlInterface (sqliteStore D) OnPool ord) cl s = (r, s')" and mem: "memCall ord cl M = (r', M')"
  have "corresponds (sameKept keptEntity) storesAgree contents phase s (sqlCall (sqliteStore D) OnPool ord cl s) (memCall ord cl M)"
    by (rule call_refines) (use rep ok ord in \<open>simp_all add: usable_def\<close>)
  moreover have "stays phase (\<lambda>p. p = Idle) (sqlCall (sqliteStore D) OnPool ord cl)"
    by (rule stays_call [OF _ idle_kept]) simp
  ultimately show "(phase s' = Idle \<and> storesAgree (contents s') M') \<and> sameOutcome (sameKept keptEntity) r r'"
    using rep sql mem by (auto simp: apiCall_sql corresponds_def stays_def)
qed (auto simp: sqlInterface_def dest: read_values)

section \<open>Test programs under the contract\<close>

text \<open>
  \<open>passes rep M m Q\<close>: from a state that represents \<open>M\<close> the test \<open>m\<close> goes through without a failure, and its result and the
  represented state satisfy \<open>Q\<close>.
\<close>

definition passes :: "('s \<Rightarrow> Store \<Rightarrow> bool) \<Rightarrow> Store \<Rightarrow> ('s, 'a) testM \<Rightarrow> ('a \<Rightarrow> Store \<Rightarrow> bool) \<Rightarrow> bool" where
  "passes rep M m Q \<longleftrightarrow> (\<forall>s fs. rep s M \<longrightarrow> (\<exists>x s' M'.
     m \<lparr>subject = s, failures = fs\<rparr> = (Inr x, \<lparr>subject = s', failures = fs\<rparr>) \<and> rep s' M' \<and> Q x M'))"

lemma passesE:
  assumes "passes rep M m Q" and "rep s M"
  obtains x s' M' where "m \<lparr>subject = s, failures = fs\<rparr> = (Inr x, \<lparr>subject = s', failures = fs\<rparr>)" and "rep s' M'" and "Q x M'"
  using assms unfolding passes_def by blast

lemma passes_bind:
  assumes m: "passes rep M m Q" and f: "\<And>x M'. Q x M' \<Longrightarrow> passes rep M' (f x) R"
  shows "passes rep M (bindM m f) R"
  unfolding passes_def
proof (intro allI impI)
  fix s fs assume "rep s M"
  then obtain x s' M' where m': "m \<lparr>subject = s, failures = fs\<rparr> = (Inr x, \<lparr>subject = s', failures = fs\<rparr>)" "rep s' M'" "Q x M'"
    by (rule passesE [OF m])
  obtain y s'' M'' where f': "f x \<lparr>subject = s', failures = fs\<rparr> = (Inr y, \<lparr>subject = s'', failures = fs\<rparr>)" "rep s'' M''" "R y M''"
    by (rule passesE [OF f [OF m'(3)] m'(2)])
  then show "\<exists>x s' M'. bindM m f \<lparr>subject = s, failures = fs\<rparr> = (Inr x, \<lparr>subject = s', failures = fs\<rparr>) \<and> rep s' M' \<and> R x M'"
    using m'(1) by (auto simp: bindM_Inr)
qed

lemma passes_expect: "ok \<Longrightarrow> Q () M \<Longrightarrow> passes rep M (expect ok msg) Q"
  by (auto simp: passes_def expect_def)

lemma passes_then: "ok \<Longrightarrow> passes rep M (f ()) R \<Longrightarrow> passes rep M (bindM (expect ok msg) f) R"
  by (rule passes_bind [where Q = "\<lambda>_ M'. M' = M"]) (auto intro: passes_expect)

lemma passes_run: "passes rep M m Q \<Longrightarrow> passes rep M (runTest m) Q"
proof -
  assume m: "passes rep M m Q"
  show ?thesis
    unfolding passes_def
  proof (intro allI impI)
    fix s fs assume "rep s M"
    then obtain x s' M' where "m \<lparr>subject = s, failures = fs\<rparr> = (Inr x, \<lparr>subject = s', failures = fs\<rparr>)" "rep s' M'" "Q x M'"
      by (rule passesE [OF m])
    then show "\<exists>x s' M'. runTest m \<lparr>subject = s, failures = fs\<rparr> = (Inr x, \<lparr>subject = s', failures = fs\<rparr>) \<and> rep s' M' \<and> Q x M'"
      by (auto simp: runTest_def)
  qed
qed

context store_contract
begin

lemma after_call:
  assumes "fair_order ord" and "callOk M cl" and mem: "memCall ord cl M = (Inr ys, M')"
    and op: "apiCall S cl = entitiesOf wrap (bindM m (\<lambda>x. returnM (g x)))"
    and extra: "\<And>s x s'. rep s M \<Longrightarrow> m s = (Inr x, s') \<Longrightarrow> E x"
    and rest: "\<And>x. mset (map keptEntity (map wrap (g x))) = mset (map keptEntity ys) \<Longrightarrow> E x \<Longrightarrow> passes rep M' (f x) R"
  shows "passes rep M (bindM (must msg m) f) R"
proof (rule passes_bind)
  show "passes rep M (must msg m)
      (\<lambda>x M''. M'' = M' \<and> mset (map keptEntity (map wrap (g x))) = mset (map keptEntity ys) \<and> E x)"
    unfolding passes_def
  proof (intro allI impI)
    fix s fs assume rep: "rep s M"
    obtain r s' where m: "m s = (r, s')" by fastforce
    then have "apiCall S cl s = (map_sum id (\<lambda>x. map wrap (g x)) r, s')"
      by (cases r) (simp_all add: op entitiesOf_def sem_defs)
    from call [OF assms(1) rep assms(2) this mem]
    obtain x where "r = Inr x" "rep s' M'" "mset (map keptEntity (map wrap (g x))) = mset (map keptEntity ys)"
      by (cases r) (auto simp: sameOutcome_def sameKept_def simp del: map_map mset_map)
    then show "\<exists>x s' M''. must msg m \<lparr>subject = s, failures = fs\<rparr> = (Inr x, \<lparr>subject = s', failures = fs\<rparr>) \<and> rep s' M''
        \<and> M'' = M' \<and> mset (map keptEntity (map wrap (g x))) = mset (map keptEntity ys) \<and> E x"
      using m extra [OF rep] by (simp add: must_def)
  qed
qed (use rest in blast)

lemma after_error:
  assumes "fair_order ord" and "callOk M cl" and mem: "memCall ord cl M = (Inl e, M')"
    and op: "apiCall S cl = entitiesOf wrap (bindM m (\<lambda>x. returnM (g x)))" and "Q () M'"
  shows "passes rep M (mustFail m msg) Q"
  unfolding passes_def
proof (intro allI impI)
  fix s fs assume rep: "rep s M"
  obtain r s' where m: "m s = (r, s')" by fastforce
  then have "apiCall S cl s = (map_sum id (\<lambda>x. map wrap (g x)) r, s')"
    by (cases r) (simp_all add: op entitiesOf_def sem_defs)
  from call [OF assms(1) rep assms(2) this mem] obtain e' where "r = Inl e'" "rep s' M'" by (cases r) (auto simp: sameOutcome_def)
  then show "\<exists>x s' M''. mustFail m msg \<lparr>subject = s, failures = fs\<rparr> = (Inr x, \<lparr>subject = s', failures = fs\<rparr>) \<and> rep s' M'' \<and> Q x M''"
    using m assms(5) by (auto simp: mustFail_def)
qed

end

text \<open>What the engine reads of an entity from the contract.\<close>

lemma kept_fields:
  "keptToken x = keptToken y \<Longrightarrow> tok_State x = tok_State y \<and> tok_CurrentElementID x = tok_CurrentElementID y"
  "keptActivity a = keptActivity b \<Longrightarrow> ai_State a = ai_State b"
  "keptInstance p = keptInstance q \<Longrightarrow> pi_State p = pi_State q \<and> pi_EndedAt p = pi_EndedAt q
     \<and> jsonVars (pi_Variables p) = jsonVars (pi_Variables q)"
  "canonDef d = canonDef e \<Longrightarrow> pd_ID d = pd_ID e \<and> pd_Name d = pd_Name e"
proof -
  show "keptToken x = keptToken y \<Longrightarrow> tok_State x = tok_State y \<and> tok_CurrentElementID x = tok_CurrentElementID y"
    by (cases x; cases y) (simp add: keptToken_def)
  show "keptActivity a = keptActivity b \<Longrightarrow> ai_State a = ai_State b"
    by (cases a; cases b) (simp add: keptActivity_def)
  show "keptInstance p = keptInstance q \<Longrightarrow> pi_State p = pi_State q \<and> pi_EndedAt p = pi_EndedAt q
     \<and> jsonVars (pi_Variables p) = jsonVars (pi_Variables q)"
    by (cases p; cases q) (simp add: keptInstance_def)
  show "canonDef d = canonDef e \<Longrightarrow> pd_ID d = pd_ID e \<and> pd_Name d = pd_Name e"
    by (cases d; cases e) (simp add: canonDef_def)
qed

context store_contract
begin

text \<open>A write succeeds when the memory store does it.\<close>

lemma after_write:
  assumes "fair_order ord" and "callOk M cl" and op: "apiCall S cl = entitiesOf wrap (noneOf m)"
    and mem: "memCall ord cl = entitiesOf wrap (noneOf m')"
    and rest: "case m' M of (Inl e, M') \<Rightarrow> False | (Inr u, M') \<Rightarrow> passes rep M' (f ()) R"
  shows "passes rep M (bindM (must msg m) f) R"
proof -
  obtain M' where "m' M = (Inr (), M')" "passes rep M' (f ()) R"
    using rest by (cases "m' M"; cases "fst (m' M)") auto
  then show ?thesis
    by (intro after_call [OF assms(1,2), where wrap = wrap and m = m and g = "\<lambda>_. []" and ys = "[]" and M' = M' and E = "\<lambda>_. True"])
       (simp_all add: mem op entitiesOf_def sem_defs)
qed

text \<open>A read gives what the memory store has, up to what is kept.\<close>

lemma after_read:
  assumes "fair_order ord" and "callOk M cl" and op: "apiCall S cl = entitiesOf wrap (bindM m (\<lambda>x. returnM [g x]))"
    and mem: "memCall ord cl = entitiesOf wrap (bindM m' (\<lambda>x. returnM [g x]))"
    and know: "\<And>x y. keptEntity (wrap (g x)) = keptEntity (wrap (g y)) \<Longrightarrow> K x y"
    and rest: "case m' M of (Inl e, M') \<Rightarrow> False | (Inr y, M') \<Rightarrow> \<forall>x. K x y \<longrightarrow> passes rep M' (f x) R"
  shows "passes rep M (bindM (must msg m) f) R"
proof -
  obtain y M' where "m' M = (Inr y, M')" and "\<And>x. K x y \<Longrightarrow> passes rep M' (f x) R"
    using rest by (cases "m' M"; cases "fst (m' M)") auto
  then show ?thesis
    by (intro after_call [OF assms(1,2), where wrap = wrap and m = m and g = "\<lambda>x. [g x]" and ys = "[wrap (g y)]" and M' = M'
          and E = "\<lambda>_. True"])
       (simp_all add: mem op know entitiesOf_def sem_defs)
qed

lemma after_list:
  assumes "fair_order ord" and "callOk M cl" and op: "apiCall S cl = entitiesOf wrap m"
    and mem: "memCall ord cl = entitiesOf wrap m'"
    and extra: "\<And>s x s'. rep s M \<Longrightarrow> m s = (Inr x, s') \<Longrightarrow> E x"
    and rest: "case m' M of (Inl e, M') \<Rightarrow> False
      | (Inr ys, M') \<Rightarrow> \<forall>xs. length xs = length ys \<and> (\<lambda>x. keptEntity (wrap x)) ` set xs = (\<lambda>x. keptEntity (wrap x)) ` set ys
          \<and> E xs \<longrightarrow> passes rep M' (f xs) R"
  shows "passes rep M (bindM (must msg m) f) R"
proof -
  let ?kept = "\<lambda>x. keptEntity (wrap x)"
  obtain ys M' where ys: "m' M = (Inr ys, M')"
    "\<And>xs. length xs = length ys \<Longrightarrow> ?kept ` set xs = ?kept ` set ys \<Longrightarrow> E xs \<Longrightarrow> passes rep M' (f xs) R"
    using rest by (cases "m' M"; cases "fst (m' M)") auto
  have id: "m = bindM m (\<lambda>x. returnM x)" by (auto simp: bindM_def returnM_def fun_eq_iff split: sum.split prod.split)
  show ?thesis
  proof (rule after_call [OF assms(1,2), where wrap = wrap and m = m and g = "\<lambda>x. x" and ys = "map wrap ys" and M' = M' and E = E])
    fix xs assume xs: "mset (map keptEntity (map wrap xs)) = mset (map keptEntity (map wrap ys))" "E xs"
    have "length xs = length ys" using arg_cong [OF xs(1), of size] by simp
    moreover have "?kept ` set xs = ?kept ` set ys" using mset_eq_setD [OF xs(1)] by (simp add: image_image)
    ultimately show "passes rep M' (f xs) R" using ys(2) xs(2) by blast
  next
    show "apiCall S cl = entitiesOf wrap (bindM m (\<lambda>x. returnM x))" using op id by simp
  qed (use extra in \<open>simp_all add: mem entitiesOf_def sem_defs ys(1)\<close>)
qed

end

text \<open>The calls of the test suite, one by one.\<close>

context store_contract
begin

lemma after_createProcessDefinition:
  assumes "fair_order ord" and "definitionCallOk (definitions M) (CallCreateDefinition d)" and "case CreateProcessDefinition d M of (Inl e, M') \<Rightarrow> False | (Inr u, M') \<Rightarrow> passes rep M' (f ()) R"
  shows "passes rep M (bindM (must msg (createProcessDefinition (theProcessDefinitionStore S) d)) f) R"
  by (rule after_write [where cl = "OnDefinitions (CallCreateDefinition d)" and m' = "CreateProcessDefinition d"]) (use assms in \<open>simp_all add: definitionCallOk_def\<close>)

lemma after_getProcessDefinition:
  assumes "fair_order ord" and "case GetProcessDefinition i M of (Inl e, M') \<Rightarrow> False
    | (Inr y, M') \<Rightarrow> \<forall>x. pd_ID x = pd_ID y \<and> pd_Name x = pd_Name y \<longrightarrow> passes rep M' (f x) R"
  shows "passes rep M (bindM (must msg (getProcessDefinition (theProcessDefinitionStore S) i)) f) R"
  by (rule after_read [where cl = "OnDefinitions (CallGetDefinition i)" and m' = "GetProcessDefinition i" and K = "\<lambda>x y. pd_ID x = pd_ID y \<and> pd_Name x = pd_Name y"])
     (use assms in \<open>auto simp: oneOf_def definitionCallOk_def dest: kept_fields\<close>)

lemma after_getProcessDefinitionByKeyVersion:
  assumes "fair_order ord" and "versionsUnique (definitions M)" and "case GetProcessDefinitionByKeyVersion ord k v M of (Inl e, M') \<Rightarrow> False
    | (Inr y, M') \<Rightarrow> \<forall>x. pd_ID x = pd_ID y \<and> pd_Name x = pd_Name y \<longrightarrow> passes rep M' (f x) R"
  shows "passes rep M (bindM (must msg (getProcessDefinitionByKeyVersion (theProcessDefinitionStore S) k v)) f) R"
  by (rule after_read [where cl = "OnDefinitions (CallGetByKeyVersion k v)" and m' = "GetProcessDefinitionByKeyVersion ord k v" and K = "\<lambda>x y. pd_ID x = pd_ID y \<and> pd_Name x = pd_Name y"])
     (use assms in \<open>auto simp: oneOf_def definitionCallOk_def dest: kept_fields\<close>)

lemma after_listProcessDefinitions:
  assumes "fair_order ord" and "case ListProcessDefinitions ord  M of (Inl e, M') \<Rightarrow> False
    | (Inr ys, M') \<Rightarrow> \<forall>xs. length xs = length ys \<longrightarrow> passes rep M' (f xs) R"
  shows "passes rep M (bindM (must msg (listProcessDefinitions (theProcessDefinitionStore S) )) f) R"
  by (rule after_list [where cl = "OnDefinitions CallListDefinitions" and m' = "ListProcessDefinitions ord " and E = "\<lambda>_. True"])
     (use assms in \<open>auto simp: definitionCallOk_def split: prod.splits sum.splits\<close>)

lemma after_deleteProcessDefinition:
  assumes "fair_order ord" and "case DeleteProcessDefinition i M of (Inl e, M') \<Rightarrow> False | (Inr u, M') \<Rightarrow> passes rep M' (f ()) R"
  shows "passes rep M (bindM (must msg (deleteProcessDefinition (theProcessDefinitionStore S) i)) f) R"
  by (rule after_write [where cl = "OnDefinitions (CallDeleteDefinition i)" and m' = "DeleteProcessDefinition i"]) (use assms in \<open>simp_all add: definitionCallOk_def\<close>)

lemma after_createProcessInstance:
  assumes "fair_order ord" and "instanceCallOk (instances M) (CallCreateInstance p)" and "case CreateProcessInstance p M of (Inl e, M') \<Rightarrow> False | (Inr u, M') \<Rightarrow> passes rep M' (f ()) R"
  shows "passes rep M (bindM (must msg (createProcessInstance (theProcessInstanceStore S) p)) f) R"
  by (rule after_write [where cl = "OnInstances (CallCreateInstance p)" and m' = "CreateProcessInstance p"]) (use assms in \<open>simp_all add: definitionCallOk_def\<close>)

lemma after_updateProcessInstance:
  assumes "fair_order ord" and "instanceCallOk (instances M) (CallUpdateInstance p)" and "case UpdateProcessInstance p M of (Inl e, M') \<Rightarrow> False | (Inr u, M') \<Rightarrow> passes rep M' (f ()) R"
  shows "passes rep M (bindM (must msg (updateProcessInstance (theProcessInstanceStore S) p)) f) R"
  by (rule after_write [where cl = "OnInstances (CallUpdateInstance p)" and m' = "UpdateProcessInstance p"]) (use assms in \<open>simp_all add: definitionCallOk_def\<close>)

lemma after_getProcessInstance:
  assumes "fair_order ord" and "case GetProcessInstance i M of (Inl e, M') \<Rightarrow> False
    | (Inr y, M') \<Rightarrow> \<forall>x. pi_State x = pi_State y \<and> pi_EndedAt x = pi_EndedAt y
      \<and> jsonVars (pi_Variables x) = jsonVars (pi_Variables y) \<longrightarrow> passes rep M' (f x) R"
  shows "passes rep M (bindM (must msg (getProcessInstance (theProcessInstanceStore S) i)) f) R"
  by (rule after_read [where cl = "OnInstances (CallGetInstance i)" and m' = "GetProcessInstance i" and K = "\<lambda>x y. pi_State x = pi_State y \<and> pi_EndedAt x = pi_EndedAt y
      \<and> jsonVars (pi_Variables x) = jsonVars (pi_Variables y)"])
     (use assms in \<open>auto simp: oneOf_def definitionCallOk_def dest: kept_fields\<close>)

lemma after_listProcessInstances:
  assumes "fair_order ord" and "case ListProcessInstances ord d M of (Inl e, M') \<Rightarrow> False
    | (Inr ys, M') \<Rightarrow> \<forall>xs. length xs = length ys \<longrightarrow> passes rep M' (f xs) R"
  shows "passes rep M (bindM (must msg (listProcessInstances (theProcessInstanceStore S) d)) f) R"
  by (rule after_list [where cl = "OnInstances (CallListInstances d)" and m' = "ListProcessInstances ord d" and E = "\<lambda>_. True"])
     (use assms in \<open>auto simp: definitionCallOk_def split: prod.splits sum.splits\<close>)

lemma after_createActivityInstance:
  assumes "fair_order ord" and "activityCallOk (activities M) (CallCreateActivity a)" and "case CreateActivityInstance a M of (Inl e, M') \<Rightarrow> False | (Inr u, M') \<Rightarrow> passes rep M' (f ()) R"
  shows "passes rep M (bindM (must msg (createActivityInstance (theActivityInstanceStore S) a)) f) R"
  by (rule after_write [where cl = "OnActivities (CallCreateActivity a)" and m' = "CreateActivityInstance a"]) (use assms in \<open>simp_all add: definitionCallOk_def\<close>)

lemma after_updateActivityInstance:
  assumes "fair_order ord" and "activityCallOk (activities M) (CallUpdateActivity a)" and "case UpdateActivityInstance a M of (Inl e, M') \<Rightarrow> False | (Inr u, M') \<Rightarrow> passes rep M' (f ()) R"
  shows "passes rep M (bindM (must msg (updateActivityInstance (theActivityInstanceStore S) a)) f) R"
  by (rule after_write [where cl = "OnActivities (CallUpdateActivity a)" and m' = "UpdateActivityInstance a"]) (use assms in \<open>simp_all add: definitionCallOk_def\<close>)

lemma after_getActivityInstance:
  assumes "fair_order ord" and "case GetActivityInstance i M of (Inl e, M') \<Rightarrow> False
    | (Inr y, M') \<Rightarrow> \<forall>x. ai_State x = ai_State y \<longrightarrow> passes rep M' (f x) R"
  shows "passes rep M (bindM (must msg (getActivityInstance (theActivityInstanceStore S) i)) f) R"
  by (rule after_read [where cl = "OnActivities (CallGetActivity i)" and m' = "GetActivityInstance i" and K = "\<lambda>x y. ai_State x = ai_State y"])
     (use assms in \<open>auto simp: oneOf_def definitionCallOk_def dest: kept_fields\<close>)

lemma after_listActiveActivities:
  assumes "fair_order ord" and "case ListActiveActivities ord i M of (Inl e, M') \<Rightarrow> False
    | (Inr ys, M') \<Rightarrow> \<forall>xs. length xs = length ys \<longrightarrow> passes rep M' (f xs) R"
  shows "passes rep M (bindM (must msg (listActiveActivities (theActivityInstanceStore S) i)) f) R"
  by (rule after_list [where cl = "OnActivities (CallListActive i)" and m' = "ListActiveActivities ord i" and E = "\<lambda>_. True"])
     (use assms in \<open>auto simp: definitionCallOk_def split: prod.splits sum.splits\<close>)

lemma after_listActivitiesByProcessInstance:
  assumes "fair_order ord" and "case ListActivitiesByProcessInstance ord i M of (Inl e, M') \<Rightarrow> False
    | (Inr ys, M') \<Rightarrow> \<forall>xs. length xs = length ys \<longrightarrow> passes rep M' (f xs) R"
  shows "passes rep M (bindM (must msg (listActivitiesByProcessInstance (theActivityInstanceStore S) i)) f) R"
  by (rule after_list [where cl = "OnActivities (CallListByInstance i)" and m' = "ListActivitiesByProcessInstance ord i" and E = "\<lambda>_. True"])
     (use assms in \<open>auto simp: definitionCallOk_def split: prod.splits sum.splits\<close>)

lemma after_createToken:
  assumes "fair_order ord" and "tokenCallOk (tokens M) (CallCreateToken t)" and "case CreateToken t M of (Inl e, M') \<Rightarrow> False | (Inr u, M') \<Rightarrow> passes rep M' (f ()) R"
  shows "passes rep M (bindM (must msg (createToken (theTokenStore S) t)) f) R"
  by (rule after_write [where cl = "OnTokens (CallCreateToken t)" and m' = "CreateToken t"]) (use assms in \<open>simp_all add: definitionCallOk_def\<close>)

lemma after_updateToken:
  assumes "fair_order ord" and "tokenCallOk (tokens M) (CallUpdateToken t)" and "case UpdateToken t M of (Inl e, M') \<Rightarrow> False | (Inr u, M') \<Rightarrow> passes rep M' (f ()) R"
  shows "passes rep M (bindM (must msg (updateToken (theTokenStore S) t)) f) R"
  by (rule after_write [where cl = "OnTokens (CallUpdateToken t)" and m' = "UpdateToken t"]) (use assms in \<open>simp_all add: definitionCallOk_def\<close>)

lemma after_deleteToken:
  assumes "fair_order ord" and "case DeleteToken i M of (Inl e, M') \<Rightarrow> False | (Inr u, M') \<Rightarrow> passes rep M' (f ()) R"
  shows "passes rep M (bindM (must msg (deleteToken (theTokenStore S) i)) f) R"
  by (rule after_write [where cl = "OnTokens (CallDeleteToken i)" and m' = "DeleteToken i"]) (use assms in \<open>simp_all add: definitionCallOk_def\<close>)

lemma after_getToken:
  assumes "fair_order ord" and "case GetToken i M of (Inl e, M') \<Rightarrow> False
    | (Inr y, M') \<Rightarrow> \<forall>x. tok_State x = tok_State y \<and> tok_CurrentElementID x = tok_CurrentElementID y \<longrightarrow> passes rep M' (f x) R"
  shows "passes rep M (bindM (must msg (getToken (theTokenStore S) i)) f) R"
  by (rule after_read [where cl = "OnTokens (CallGetToken i)" and m' = "GetToken i" and K = "\<lambda>x y. tok_State x = tok_State y \<and> tok_CurrentElementID x = tok_CurrentElementID y"])
     (use assms in \<open>auto simp: oneOf_def definitionCallOk_def dest: kept_fields\<close>)

lemma after_listActiveTokens:
  assumes "fair_order ord" and "case ListActiveTokens ord i M of (Inl e, M') \<Rightarrow> False
    | (Inr ys, M') \<Rightarrow> \<forall>xs. length xs = length ys \<longrightarrow> passes rep M' (f xs) R"
  shows "passes rep M (bindM (must msg (listActiveTokens (theTokenStore S) i)) f) R"
  by (rule after_list [where cl = "OnTokens (CallListActiveTokens i)" and m' = "ListActiveTokens ord i" and E = "\<lambda>_. True"])
     (use assms in \<open>auto simp: definitionCallOk_def split: prod.splits sum.splits\<close>)

lemma after_setVariable:
  assumes "fair_order ord" and "case SetVariable p n v M of (Inl e, M') \<Rightarrow> False | (Inr u, M') \<Rightarrow> passes rep M' (f ()) R"
  shows "passes rep M (bindM (must msg (setVariable (theVariableStore S) p n v)) f) R"
  by (rule after_write [where cl = "OnVariables (CallSetVariable p n v)" and m' = "SetVariable p n v"]) (use assms in \<open>simp_all add: definitionCallOk_def\<close>)

lemma after_deleteVariable:
  assumes "fair_order ord" and "case DeleteVariable p n M of (Inl e, M') \<Rightarrow> False | (Inr u, M') \<Rightarrow> passes rep M' (f ()) R"
  shows "passes rep M (bindM (must msg (deleteVariable (theVariableStore S) p n)) f) R"
  by (rule after_write [where cl = "OnVariables (CallDeleteVariable p n)" and m' = "DeleteVariable p n"]) (use assms in \<open>simp_all add: definitionCallOk_def\<close>)

lemma after_getVariable:
  assumes "fair_order ord" and "case GetVariable p n M of (Inl e, M') \<Rightarrow> False
    | (Inr y, M') \<Rightarrow> \<forall>x. asJson x = asJson y \<longrightarrow> passes rep M' (f x) R"
  shows "passes rep M (bindM (must msg (getVariable (theVariableStore S) p n)) f) R"
  by (rule after_read [where cl = "OnVariables (CallGetVariable p n)" and m' = "GetVariable p n" and g = "\<lambda>v. (n, v)"
        and K = "\<lambda>x y. asJson x = asJson y"])
     (use assms in \<open>auto simp: keptVariable_def\<close>)

lemma after_getAllVariables:
  assumes "fair_order ord" and "\<And>xs. length xs = length (instanceVars M p)
      \<Longrightarrow> keptVariable ` set xs = keptVariable ` set (instanceVars M p)
      \<Longrightarrow> \<forall>(k, v)\<in>set xs. asJson v = v \<or> (k, v) \<in> set (instanceVars M p) \<Longrightarrow> passes rep M (f xs) R"
  shows "passes rep M (bindM (must msg (getAllVariables (theVariableStore S) p)) f) R"
proof (rule after_list [where cl = "OnVariables (CallGetAllVariables p)" and m' = "GetAllVariables p" and wrap = EVariable
      and E = "\<lambda>xs. \<forall>(k, v)\<in>set xs. asJson v = v \<or> (k, v) \<in> set (instanceVars M p)"])
  show "case GetAllVariables p M of (Inl e, M') \<Rightarrow> False
      | (Inr ys, M') \<Rightarrow> \<forall>xs. length xs = length ys \<and> (\<lambda>x. keptEntity (EVariable x)) ` set xs = (\<lambda>x. keptEntity (EVariable x)) ` set ys
          \<and> (\<forall>(k, v)\<in>set xs. asJson v = v \<or> (k, v) \<in> set (instanceVars M p)) \<longrightarrow> passes rep M' (f xs) R"
  proof -
    have "(\<lambda>x. keptEntity (EVariable x)) ` A = EVariable ` keptVariable ` A" for A by (simp add: image_image)
    moreover have "X = Y" if "EVariable ` X = EVariable ` Y" for X Y using that by (simp add: inj_image_eq_iff inj_def)
    ultimately show ?thesis using assms(2) by (simp add: GetAllVariables_def)
  qed
  show "\<forall>(k, v)\<in>set xs. asJson v = v \<or> (k, v) \<in> set (instanceVars M p)"
    if "rep s M" "getAllVariables (theVariableStore S) p s = (Inr xs, s')" for s xs s'
    using vars [OF that] by blast
qed (use assms(1) in simp_all)

end

section \<open>The suite\<close>

lemma asJson_string [simp]: "asJson v = GString t \<longleftrightarrow> v = GString t"
  by (cases v) (simp_all add: asJson_def)

lemma asJson_GString [simp]: "asJson (GString t) = GString t"
  by simp

lemma jsonVars_string:
  "jsonVars vs = jsonVars [(k, GString t)] \<longleftrightarrow> vs = [(k, GString t)]"
  by (auto simp: jsonVars_def asJson_def [symmetric])

lemma length_mvalues_filter:
  assumes "fair_order ord" and "distinct (map fst m)"
  shows "length (mvalues ord P m) = length (filter P (map snd m))"
proof -
  have d: "distinct (mrange ord m)" "distinct m"
    using mrange_keys_distinct [OF assms] assms(2) by (simp_all add: distinct_map)
  have "length (filter (P \<circ> snd) (mrange ord m)) = card (set (filter (P \<circ> snd) (mrange ord m)))"
    by (rule distinct_card [symmetric]) (simp add: d)
  also have "\<dots> = card (set (filter (P \<circ> snd) m))" using set_mrange [OF assms] by simp
  also have "\<dots> = length (filter (P \<circ> snd) m)" by (rule distinct_card) (simp add: d)
  finally show ?thesis by (simp add: mvalues_def filter_map)
qed

lemma mvalues_single:
  assumes "fair_order ord"
  shows "mvalues ord (\<lambda>_. True) [(k, v)] = [v]"
proof -
  have "length (mvalues ord (\<lambda>_. True) [(k, v)]) = 1" using length_mvalues_filter [OF assms, of "[(k, v)]"] by simp
  moreover have "set (mvalues ord (\<lambda>_. True) [(k, v)]) = {v}" using set_mvalues [OF assms, of "[(k, v)]"] by simp
  ultimately show ?thesis by (auto simp: length_Suc_conv)
qed

lemma length_mvalues_few:
  assumes "fair_order ord"
  shows "length (mvalues ord P [(k, v)]) = (if P v then 1 else 0)"
    and "k \<noteq> l \<Longrightarrow> length (mvalues ord P [(k, v), (l, w)]) = (if P v then 1 else 0) + (if P w then 1 else 0)"
  using length_mvalues_filter [OF assms, of "[(k, v)]" P] length_mvalues_filter [OF assms, of "[(k, v), (l, w)]" P] by simp_all

lemma passes_then_fail:
  "passes rep M (mustFail m msg) (\<lambda>_ M'. passes rep M' (f ()) R) \<Longrightarrow> passes rep M (bindM (mustFail m msg) f) R"
  by (rule passes_bind) (auto simp: mustFail_def)

context store_contract
begin

lemma gone:
  assumes "fair_order ord"
  shows "case GetProcessDefinition i M of (Inl e, M') \<Rightarrow> Q () M' | (Inr y, M') \<Rightarrow> False
      \<Longrightarrow> passes rep M (mustFail (getProcessDefinition (theProcessDefinitionStore S) i) msg) Q"
    and "case GetProcessInstance i M of (Inl e, M') \<Rightarrow> Q () M' | (Inr y, M') \<Rightarrow> False
      \<Longrightarrow> passes rep M (mustFail (getProcessInstance (theProcessInstanceStore S) i) msg) Q"
    and "case GetToken i M of (Inl e, M') \<Rightarrow> Q () M' | (Inr y, M') \<Rightarrow> False
      \<Longrightarrow> passes rep M (mustFail (getToken (theTokenStore S) i) msg) Q"
    and "case GetVariable i n M of (Inl e, M') \<Rightarrow> Q () M' | (Inr y, M') \<Rightarrow> False
      \<Longrightarrow> passes rep M (mustFail (getVariable (theVariableStore S) i n) msg) Q"
proof -
  show "passes rep M (mustFail (getProcessDefinition (theProcessDefinitionStore S) i) msg) Q"
    if "case GetProcessDefinition i M of (Inl e, M') \<Rightarrow> Q () M' | (Inr y, M') \<Rightarrow> False"
    using that by (cases "GetProcessDefinition i M"; cases "fst (GetProcessDefinition i M)")
      (auto simp: oneOf_def entitiesOf_def sem_defs definitionCallOk_def
         intro!: after_error [OF assms, where cl = "OnDefinitions (CallGetDefinition i)" and wrap = EDefinition and g = "\<lambda>x. [x]"])
  show "passes rep M (mustFail (getProcessInstance (theProcessInstanceStore S) i) msg) Q"
    if "case GetProcessInstance i M of (Inl e, M') \<Rightarrow> Q () M' | (Inr y, M') \<Rightarrow> False"
    using that by (cases "GetProcessInstance i M"; cases "fst (GetProcessInstance i M)")
      (auto simp: oneOf_def entitiesOf_def sem_defs
         intro!: after_error [OF assms, where cl = "OnInstances (CallGetInstance i)" and wrap = EInstance and g = "\<lambda>x. [x]"])
  show "passes rep M (mustFail (getToken (theTokenStore S) i) msg) Q"
    if "case GetToken i M of (Inl e, M') \<Rightarrow> Q () M' | (Inr y, M') \<Rightarrow> False"
    using that by (cases "GetToken i M"; cases "fst (GetToken i M)")
      (auto simp: oneOf_def entitiesOf_def sem_defs
         intro!: after_error [OF assms, where cl = "OnTokens (CallGetToken i)" and wrap = EToken and g = "\<lambda>x. [x]"])
  show "passes rep M (mustFail (getVariable (theVariableStore S) i n) msg) Q"
    if "case GetVariable i n M of (Inl e, M') \<Rightarrow> Q () M' | (Inr y, M') \<Rightarrow> False"
    using that by (cases "GetVariable i n M"; cases "fst (GetVariable i n M)")
      (auto simp: entitiesOf_def sem_defs
         intro!: after_error [OF assms, where cl = "OnVariables (CallGetVariable i n)" and wrap = EVariable and g = "\<lambda>x. [(n, x)]"])
qed

lemmas test_rules =
  after_createProcessDefinition after_getProcessDefinition after_getProcessDefinitionByKeyVersion after_listProcessDefinitions
  after_deleteProcessDefinition after_createProcessInstance after_updateProcessInstance after_getProcessInstance
  after_listProcessInstances after_createActivityInstance after_updateActivityInstance after_getActivityInstance
  after_listActiveActivities after_listActivitiesByProcessInstance after_createToken after_updateToken after_getToken
  after_listActiveTokens after_deleteToken after_setVariable after_getVariable after_deleteVariable
  passes_then passes_then_fail passes_expect gone

lemma definitions_pass:
  assumes ord: "fair_order ord" and "definitions M = []"
  shows "passes rep M (testProcessDefinitionCRUD S) (\<lambda>_ M'. M' = M)"
proof -
  have M: "M\<lparr>definitions := []\<rparr> = M" using assms(2) by simp
  show ?thesis
    unfolding testProcessDefinitionCRUD_def Let_def
    by (rule ord test_rules allI impI
      | simp add: testDefinition_def definitionCallOk_def wellKeyed_def in64_def versionsUnique_def mvalues_single [OF ord] M assms(2)
          CreateProcessDefinition_def GetProcessDefinition_def GetProcessDefinitionByKeyVersion_def ListProcessDefinitions_def
          DeleteProcessDefinition_def)+
qed

lemma instances_pass:
  assumes ord: "fair_order ord" and "instances M = []"
  shows "passes rep M (testProcessInstanceCRUD t0 t1 S) 
    (\<lambda>_ M'. variables M' = variables M \<and> activities M' = activities M \<and> tokens M' = tokens M \<and> (\<forall>i. i \<noteq> ''pi1'' \<longrightarrow> map_of (instances M') i = None))"
  unfolding testProcessInstanceCRUD_def Let_def
  by (rule ord test_rules allI impI
    | simp add: NewProcessInstance_def assms(2) jsonVars_string length_mvalues_few [OF ord]
        CreateProcessInstance_def GetProcessInstance_def UpdateProcessInstance_def ListProcessInstances_def)+

lemma activities_pass:
  assumes ord: "fair_order ord" and "map_of (instances M) ''pi_act'' = None" and "activities M = []"
  shows "passes rep M (testActivityInstanceCRUD t0 t1 S) 
    (\<lambda>_ M'. variables M' = variables M \<and> tokens M' = tokens M \<and> (\<forall>i. i \<noteq> ''pi_act'' \<longrightarrow> map_of (instances M') i = map_of (instances M) i))"
  unfolding testActivityInstanceCRUD_def Let_def
  by (rule ord test_rules allI impI
    | simp add: NewProcessInstance_def NewActivityInstance_def Complete_def assms(2,3) length_mvalues_few [OF ord] activityInts_def in64_def
        activityKeeps_def elementTypeOf_def update_conv
        CreateProcessInstance_def CreateActivityInstance_def GetActivityInstance_def UpdateActivityInstance_def
        ListActiveActivities_def ListActivitiesByProcessInstance_def)+

lemma tokens_pass:
  assumes ord: "fair_order ord" and "map_of (instances M) ''pi_tok'' = None" and "tokens M = []"
  shows "passes rep M (testTokenCRUD t0 t1 t2 S) (\<lambda>_ M'. variables M' = variables M)"
  unfolding testTokenCRUD_def Let_def
  by (rule ord test_rules allI impI
    | simp add: NewProcessInstance_def NewToken_def assms(2,3) length_mvalues_few [OF ord]
        CreateProcessInstance_def CreateToken_def GetToken_def UpdateToken_def ListActiveTokens_def DeleteToken_def)+

text \<open>\<open>count\<close> is an \<open>int\<close> or, from JSON, a \<open>float64\<close>.\<close>

lemma count_read:
  assumes "keptVariable ` set xs = keptVariable ` set ys" and "(n, GInt i) \<in> set ys" and "distinct (map fst ys)"
    and "\<forall>(k, v)\<in>set xs. asJson v = v \<or> (k, v) \<in> set ys"
  shows "map_of xs n = Some (GFloat (of_int i)) \<or> map_of xs n = Some (GInt i)"
proof -
  have "keptVariable (n, GInt i) \<in> keptVariable ` set xs" using assms(1,2) by blast
  then obtain w where "(n, w) \<in> set xs" by (auto simp: keptVariable_def)
  then obtain v where v: "map_of xs n = Some v" "(n, v) \<in> set xs" by (metis map_of_SomeD weak_map_of_SomeI)
  then have "keptVariable (n, v) \<in> keptVariable ` set ys" using assms(1) by blast
  then obtain u where "(n, u) \<in> set ys" "asJson u = asJson v" by (auto simp: keptVariable_def)
  then have "u = GInt i" by (intro eq_key_imp_eq_value [OF assms(3) _ assms(2)])
  then have u: "asJson v = GFloat (of_int i)" using \<open>asJson u = asJson v\<close> by (simp add: asJson_def)
  have "v = GInt i" if "(n, v) \<in> set ys" using that by (intro eq_key_imp_eq_value [OF assms(3) _ assms(2)])
  moreover have "asJson v = v \<or> (n, v) \<in> set ys" using v(2) assms(4) by blast
  ultimately show ?thesis using v(1) u by auto
qed

lemma after_readAll:
  assumes "fair_order ord" and "distinct (map fst (instanceVars M p))"
    and "\<forall>xs. length xs = length (instanceVars M p)
      \<and> (\<forall>n i. (n, GInt i) \<in> set (instanceVars M p) \<longrightarrow> map_of xs n = Some (GFloat (of_int i)) \<or> map_of xs n = Some (GInt i))
      \<longrightarrow> passes rep M (f xs) R"
  shows "passes rep M (bindM (must msg (getAllVariables (theVariableStore S) p)) f) R"
proof (rule after_getAllVariables [OF assms(1)])
  fix xs assume "length xs = length (instanceVars M p)" "keptVariable ` set xs = keptVariable ` set (instanceVars M p)"
    "\<forall>(k, v)\<in>set xs. asJson v = v \<or> (k, v) \<in> set (instanceVars M p)"
  then show "passes rep M (f xs) R" using count_read [OF _ _ assms(2), of xs] by (intro assms(3) [rule_format]) simp
qed

lemma variables_pass:
  assumes ord: "fair_order ord" and "map_of (variables M) ''pi_var'' = None" and "map_of (variables M) ''nonexistent'' = None"
  shows "passes rep M (testVariables S) (\<lambda>_ M'. True)"
  unfolding testVariables_def Let_def
  by (rule ord test_rules after_readAll allI impI
    | simp add: assms(2,3) instanceVars_def SetVariable_def GetVariable_def DeleteVariable_def update_conv)+

lemma suite_passes_contract:
  assumes ord: "fair_order ord" and "rep s NewStore"
  shows "suiteFailures now S s = []"
proof -
  have "passes rep NewStore (RunStoreTestSuite now S) (\<lambda>_ _. True)"
    unfolding RunStoreTestSuite_def
  proof (rule passes_bind [OF passes_run [OF definitions_pass [OF ord]]]; (rule passes_bind [OF passes_run [OF instances_pass [OF ord]]])?;
      (rule passes_bind [OF passes_run [OF activities_pass [OF ord]]])?; (rule passes_bind [OF passes_run [OF tokens_pass [OF ord]]])?;
      (rule passes_run [OF variables_pass [OF ord]])?)
  qed (simp_all add: NewStore_def)
  then obtain x s' M' where "RunStoreTestSuite now S \<lparr>subject = s, failures = []\<rparr> = (Inr x, \<lparr>subject = s', failures = []\<rparr>)"
    using assms(2) by (rule passesE)
  then show ?thesis by (simp add: suiteFailures_def)
qed

end

context sqlite_database
begin

lemma sqlite_suite:
  assumes "fair_order ord" and "phase s = Idle" and "\<And>t. rowsOf (contents s) t = []"
  shows "suiteFailures now (sqlInterface (sqliteStore D) OnPool ord) s = []"
  using assms empty_stores [of "contents s"] by (intro sqlContract.suite_passes_contract) simp_all

end

section \<open>Stores that break the contract\<close>

text \<open>What a test leaves true of its subject; the failures that are recorded stay.\<close>

definition testKeeps :: "('s \<Rightarrow> bool) \<Rightarrow> ('s, 'a) testM \<Rightarrow> bool" where
  "testKeeps Q m \<longleftrightarrow> (\<forall>t :: 's testState. Q (subject t) \<longrightarrow> Q (subject (snd (m t))) \<and> set (failures t) \<subseteq> set (failures (snd (m t))))"

named_theorems test_keeps \<open>tests that keep a fact about their subject\<close>

lemma testKeeps_bind [test_keeps]:
  fixes m :: "('s, 'a) testM" and f :: "'a \<Rightarrow> ('s, 'b) testM"
  assumes m: "testKeeps Q m" and f: "\<And>x. testKeeps Q (f x)"
  shows "testKeeps Q (bindM m f)"
  unfolding testKeeps_def
proof (intro allI impI)
  fix t :: "'s testState" assume t: "Q (subject t)"
  obtain r t' where r: "m t = (r, t')" by fastforce
  then have "Q (subject t')" "set (failures t) \<subseteq> set (failures t')" using m t unfolding testKeeps_def by (metis snd_conv)+
  then show "Q (subject (snd (bindM m f t))) \<and> set (failures t) \<subseteq> set (failures (snd (bindM m f t)))"
    using r f unfolding testKeeps_def by (cases r) (auto simp: bindM_Inl bindM_Inr)
qed

lemma testKeeps_calls [test_keeps]:
  assumes "\<And>s. Q s \<Longrightarrow> Q (snd (m s))"
  shows "testKeeps Q (must msg m)" and "testKeeps Q (mustFail m msg)"
  using assms by (auto simp: testKeeps_def must_def mustFail_def split: prod.split sum.split) (metis snd_conv)+

lemma testKeeps_expect [test_keeps]: "testKeeps Q (expect ok msg)"
  by (auto simp: testKeeps_def expect_def)

lemma testKeeps_run [test_keeps]: "testKeeps Q m \<Longrightarrow> testKeeps Q (runTest m)"
  by (auto simp: testKeeps_def runTest_def split: prod.split sum.split) (metis snd_conv subsetD)+

lemma runTest_ends: "\<exists>t'. runTest m t = (Inr (), t')"
  by (cases "m t"; cases "fst (m t)") (simp_all add: runTest_def)

lemma tests_only_add: "testKeeps (\<lambda>_. True) (testActivityInstanceCRUD t0 t1 S)" "testKeeps (\<lambda>_. True) (testTokenCRUD t0 t1 t2 S)"
  "testKeeps (\<lambda>_. True) (testVariables S)"
  unfolding testActivityInstanceCRUD_def testTokenCRUD_def testVariables_def Let_def by (intro test_keeps TrueI)+

lemma definition_test_keeps:
  assumes "\<And>call s. Q s \<Longrightarrow> Q (snd (apiCall S call s))"
  shows "testKeeps Q (testProcessDefinitionCRUD S)"
proof -
  have "Q (snd (createProcessDefinition (theProcessDefinitionStore S) d s))" "Q (snd (getProcessDefinition (theProcessDefinitionStore S) i s))"
    "Q (snd (getProcessDefinitionByKeyVersion (theProcessDefinitionStore S) k v s))" "Q (snd (listProcessDefinitions (theProcessDefinitionStore S) s))"
    "Q (snd (deleteProcessDefinition (theProcessDefinitionStore S) i s))" if "Q s" for d i k v s
    using assms [OF that, of "OnDefinitions (CallCreateDefinition d)"] assms [OF that, of "OnDefinitions (CallGetDefinition i)"]
      assms [OF that, of "OnDefinitions (CallGetByKeyVersion k v)"] assms [OF that, of "OnDefinitions CallListDefinitions"]
      assms [OF that, of "OnDefinitions (CallDeleteDefinition i)"]
    by (auto simp: noneOf_def oneOf_def bindM_def returnM_def split: prod.splits sum.splits)
  then show ?thesis unfolding testProcessDefinitionCRUD_def Let_def by (intro test_keeps)
qed

text \<open>A store that cannot create a process instance fails the suite.\<close>

lemma suite_reports:
  assumes keeps: "\<And>call s. Q s \<Longrightarrow> Q (snd (apiCall S call s))"
    and refuses: "\<And>p s. Q s \<Longrightarrow> isl (fst (createProcessInstance (theProcessInstanceStore S) p s))"
    and s: "Q s"
  shows "''CreateProcessInstance'' \<in> set (suiteFailures now S s)"
proof -
  let ?t = "\<lparr>subject = s, failures = []\<rparr>"
  obtain t1 where t1: "runTest (testProcessDefinitionCRUD S) ?t = (Inr (), t1)" using runTest_ends by blast
  have "testKeeps Q (runTest (testProcessDefinitionCRUD S))" by (intro test_keeps definition_test_keeps keeps)
  then have "Q (subject t1)" using s t1 unfolding testKeeps_def by (metis select_convs(1) snd_conv)
  then obtain e s' where "createProcessInstance (theProcessInstanceStore S)
      (NewProcessInstance (now 0) ''pi1'' ''def1'' [(''key'', GString ''value'')]) (subject t1) = (Inl e, s')"
    using refuses by (metis isl_def prod.collapse)
  then obtain t2 where t2: "runTest (testProcessInstanceCRUD (now 0) (now 1) S) t1 = (Inr (), t2)"
    "''CreateProcessInstance'' \<in> set (failures t2)"
    by (simp add: runTest_def testProcessInstanceCRUD_def Let_def bindM_def must_def)
  have "testKeeps (\<lambda>_. True) (bindM (runTest (testActivityInstanceCRUD (now 2) (now 3) S)) (\<lambda>_.
     bindM (runTest (testTokenCRUD (now 4) (now 5) (now 6) S)) (\<lambda>_. runTest (testVariables S))))"
    by (intro test_keeps tests_only_add)
  then show ?thesis using t1 t2 unfolding suiteFailures_def RunStoreTestSuite_def testKeeps_def by (simp add: bindM_Inr) blast
qed

end
