(* ===== verification/SqlContracts.thy ===== *)
theory SqlContracts imports Conformance begin

text \<open>
  The properties of the SQL stores, over any database that keeps the promises of \<open>sql_database\<close>; the witnesses run on
  \<open>memoryDatabase\<close>.
\<close>

section \<open>Refinement of the memory store\<close>

text \<open>A SQLite database with one token and one activity, and a memory store with the same.\<close>

definition someToken :: Token where
  "someToken = NewToken 5 ''t1'' ''p1'' ''approve''"

definition someActivity :: ActivityInstance where
  "someActivity = NewActivityInstance ''a1'' ''p1'' ''approve'' ElementTypeUserTask"

definition someTables :: tables where
  "someTables = [(''tokens'', [tokenRow someToken]), (''activity_instances'', [activityRow someActivity])]"

definition someDb :: memoryDb where
  "someDb = \<lparr>md_tables = someTables, md_phase = Idle\<rparr>"

definition someStore :: Store where
  "someStore = NewStore\<lparr>tokens := [(''t1'', someToken)], activities := [(''a1'', someActivity)]\<rparr>"

lemma some_agree: "storesAgree someTables someStore"
  unfolding storesAgree_def
proof (intro conjI)
  show "tokensAgree someTables someStore"
    by (auto simp: rowsAgree_def rowsOf_def someTables_def someStore_def agree_def byId_def tokenKeeps_def someToken_def NewToken_def
        intro!: exI [of _ "[someToken]"])
  show "activitiesAgree someTables someStore"
    by (auto simp: rowsAgree_def rowsOf_def someTables_def someStore_def agree_def byId_def activityKeeps_def someActivity_def
        NewActivityInstance_def elementTypeOf_def intro!: exI [of _ "[someActivity]"])
qed (auto simp: rowsAgree_def rowsOf_def agree_def byId_def variablesAgree_def varsDistinct_def storedDefs_def someStore_def someTables_def
    NewStore_def instanceVars_def entryAt_def)

lemma some_usable: "usable OnPool (md_phase someDb)" "md_tables someDb = someTables" "md_phase someDb = Idle"
  by (simp_all add: someDb_def usable_def)

text \<open>A run over several tables, whose last call has a stale lock version.\<close>

definition someRun :: "(order \<times> storeCall) list" where
  "someRun = [
     (rev, OnInstances (CallCreateInstance (NewProcessInstance 5 ''p1'' ''order:v1'' [(''days'', GInt 3)]))),
     (id, OnVariables (CallSetVariable ''p1'' ''days'' (GInt 3))),
     (id, OnTokens (CallUpdateToken (someToken\<lparr>tok_CurrentElementID := ''notify''\<rparr>))),
     (rev, OnActivities (CallUpdateActivity (Complete 7 someActivity))),
     (rev, OnActivities (CallListActive ''p1'')),
     (id, OnTokens (CallUpdateToken someToken))]"

lemma someRun_ok: "callsOk someRun someStore"
  by code_simp

lemma someRun_fair: "x \<in> set someRun \<Longrightarrow> fair_order (fst x)"
  by (auto simp: someRun_def fair_order_def)

text \<open>C26. A run of store calls over any tables has the same outcome on SQLite as on the memory store: it fails in both or in
  neither (so, taking prefixes, at the same call), each call returns the same entities up to what a row does not keep (tenants, the creation time of
  a token, the Go types that JSON loses), and the contents agree again; an update with a stale lock version fails in both.\<close>

theorem store_refines:
  assumes "sqlite_database D contents phase" and "usable c (phase s)" and "storesAgree (contents s) M"
    and "\<And>x. x \<in> set calls \<Longrightarrow> fair_order (fst x)" and "callsOk calls M"
  shows "corresponds (list_all2 (sameKept keptEntity)) storesAgree contents phase s (sqlRun (sqliteStore D) c calls s) (memRun calls M)"
  using assms by (rule sqlite_database.run_refines)

theorem store_refines_witness:
  "corresponds (list_all2 (sameKept keptEntity)) storesAgree md_tables md_phase someDb
     (sqlRun (sqliteStore (memoryDatabase 9 sqliteSchema)) OnPool someRun someDb) (memRun someRun someStore)"
  by (rule store_refines [OF sqliteMemory.sqlite_database_axioms some_usable(1)])
     (simp_all add: some_usable some_agree someRun_ok someRun_fair)

text \<open>C27. A run of store calls in \<open>RunInTransaction\<close> reports an error on SQLite exactly if it does on the memory store. Without
  an error the two agree afterwards; with one the tables of SQLite are those from before the transaction, while the memory
  store, which does not roll back, has what the run wrote.\<close>

theorem transaction_refines:
  assumes "sqlite_database D contents phase" and "phase s = Idle" and "storesAgree (contents s) M"
    and "\<And>x. x \<in> set calls \<Longrightarrow> fair_order (fst x)" and "callsOk calls M"
  shows "case (sqlRunInTransaction (sqliteStore D) OnPool (\<lambda>c. bindM (sqlRun (sqliteStore D) c calls) (\<lambda>_. returnM ())) s,
        RunInTransaction (memRun calls) M) of ((r, s'), (r', M')) \<Rightarrow>
      isl r = isl r' \<and> phase s' = Idle \<and> (if isl r then contents s' = contents s else storesAgree (contents s') M')"
  using assms by (rule sqlite_database.transaction_run)

theorem transaction_refines_witness:
  "case (sqlRunInTransaction (sqliteStore (memoryDatabase 9 sqliteSchema)) OnPool
          (\<lambda>c. bindM (sqlRun (sqliteStore (memoryDatabase 9 sqliteSchema)) c someRun) (\<lambda>_. returnM ())) someDb,
        RunInTransaction (memRun someRun) someStore) of ((r, s'), (r', M')) \<Rightarrow>
      isl r = isl r' \<and> md_phase s' = Idle
      \<and> (if isl r then md_tables s' = md_tables someDb else storesAgree (md_tables s') M')"
  by (rule transaction_refines [OF sqliteMemory.sqlite_database_axioms])
     (simp_all add: some_usable some_agree someRun_ok someRun_fair)

section \<open>The contract test suite\<close>

text \<open>C28. The test suite of the repository reports no failure on a new memory store, for any iteration order of Go's maps, and none on
  a SQLite store without rows.\<close>

theorem suite_passes:
  assumes "fair_order ord" and "sqlite_database D contents phase" and "phase s = Idle" and "\<And>t. rowsOf (contents s) t = []"
  shows "suiteFailures now (memInterface ord) NewStore = []
     \<and> suiteFailures now (sqlInterface (sqliteStore D) OnPool ord) s = []"
  using memContract.suite_passes_contract [OF assms(1) refl] sqlite_database.sqlite_suite [OF assms(2,1,3,4)] by simp

theorem suite_passes_witness:
  "suiteFailures (\<lambda>i. int i) (memInterface rev) NewStore = []
     \<and> suiteFailures (\<lambda>i. int i) (sqlInterface (sqliteStore (memoryDatabase 9 sqliteSchema)) OnPool rev)
         \<lparr>md_tables = [], md_phase = Idle\<rparr> = []"
  by (rule suite_passes [OF _ sqliteMemory.sqlite_database_axioms]) (simp_all add: fair_order_def rowsOf_def)

section \<open>Transactions\<close>

text \<open>C30. A transaction is all or nothing: when \<open>RunInTransaction\<close> returns an error, whether of the function, of a statement the
  function went on after, or of the commit, the tables are what they were; otherwise they are what the function left.\<close>

theorem transaction_all_or_nothing:
  assumes "sql_database D sc contents phase" and "db S = D" and "phase s = Idle" and "staysOpen phase (fn OnTx)"
  shows "case sqlRunInTransaction S OnPool fn s of
      (Inl e, s') \<Rightarrow> contents s' = contents s \<and> phase s' = Idle
    | (Inr _, s') \<Rightarrow> phase s' = Idle
        \<and> (\<exists>s1 s2. contents s1 = contents s \<and> fn OnTx s1 = (Inr (), s2) \<and> contents s' = contents s2)"
  using sql_database.transaction [where D = D and fn = fn, OF assms] by (auto split: prod.split sum.split)

text \<open>A function that deletes a token and then returns an error.\<close>

definition deletesAndFails :: "memoryDb SqlStore \<Rightarrow> callContext \<Rightarrow> (memoryDb, unit) sqlM" where
  "deletesAndFails S c = bindM (sqlDeleteToken S c ''t1'') (\<lambda>_. throwM (CallerError ''no such task''))"

theorem transaction_all_or_nothing_witness:
  "let S = sqliteStore (memoryDatabase 9 sqliteSchema)
   in case sqlRunInTransaction S OnPool (deletesAndFails S) someDb of
      (Inl e, s') \<Rightarrow> md_tables s' = md_tables someDb \<and> md_phase s' = Idle
    | (Inr _, s') \<Rightarrow> md_phase s' = Idle
        \<and> (\<exists>s1 s2. md_tables s1 = md_tables someDb \<and> deletesAndFails S OnTx s1 = (Inr (), s2) \<and> md_tables s' = md_tables s2)"
  unfolding Let_def
proof (rule transaction_all_or_nothing [OF memoryDatabase.sql_database_axioms])
  show "staysOpen md_phase (deletesAndFails (sqliteStore (memoryDatabase 9 sqliteSchema)) OnTx)"
    unfolding deletesAndFails_def sqlDeleteToken_def staysOpen_def
    by (intro stays_rule sql_database.stays_calls [OF memoryDatabase.sql_database_axioms] inTransaction_kept allI) simp
qed (simp_all add: someDb_def)

section \<open>Variables\<close>

context sqlite_database
begin

lemma set_then_get:
  assumes u: "usable c (phase s)"
  shows "\<exists>s' s''. sqlSetVariable (sqliteStore D) c i n v s = (Inr (), s')
     \<and> sqlGetVariable (sqliteStore D) c i n s' = (Inr (fromJson (toJson v)), s'') \<and> phase s'' = phase s"
proof -
  obtain s' where s': "sqlSetVariable (sqliteStore D) c i n v s = (Inr (), s')" "phase s' = phase s"
    "rowsOf (contents s') ''variables''
      = filter (\<lambda>r. \<not> (cell r ''process_instance_id'' = SText i \<and> cell r ''name'' = SText n)) (rowsOf (contents s) ''variables'')
        @ [variableRow i n v]"
  proof -
    have "\<exists>(now :: int) s'. sqlSetVariable (sqliteStore D) c i n v s = (Inr (), s') \<and> leaves contents phase s (AList.update ''variables''
        (filter (\<lambda>r. \<not> (cell r ''process_instance_id'' = SText i \<and> cell r ''name'' = SText n)) (rowsOf (contents s) ''variables'')
         @ [variableRow i n v]) (contents s)) s'"
      unfolding sqlSetVariable_def
      by (rule execAny_done [where n = 1 and f = "\<lambda>_. AList.update ''variables''
          (filter (\<lambda>r. \<not> (cell r ''process_instance_id'' = SText i \<and> cell r ''name'' = SText n)) (rowsOf (contents s) ''variables'')
           @ [variableRow i n v]) (contents s)", OF _ u variable_upsert]) simp
    then show ?thesis using that by (auto simp: leaves_def)
  qed
  have q: "runQuery sqliteSchema (selectFrom [''value''] ''variables''
        [ColEq ''process_instance_id'' (SText i), ColEq ''name'' (SText n)]) (contents s')
      = Done (map (\<lambda>r. r) (filter (\<lambda>r. cell r ''process_instance_id'' = SText i \<and> cell r ''name'' = SText n) (rowsOf (contents s') ''variables'')))"
    by (rule runQuery_value [OF sqlite_variables])
       (simp_all add: variable_condition sqliteVariables_def table_simps)
  have one: "filter (\<lambda>r. cell r ''process_instance_id'' = SText i \<and> cell r ''name'' = SText n) (rowsOf (contents s') ''variables'')
      = (case Some (variableRow i n v) of None \<Rightarrow> [] | Some r \<Rightarrow> [r])"
    unfolding s'(3) by (simp add: filter_empty_conv variableRow_def cell_def [of "_ # _"])
  have u': "usable c (phase s')" using u s'(2) by simp
  obtain s'' where "sqlGetVariable (sqliteStore D) c i n s' = (Inr (fromJson (toJson v)), s'')" "phase s'' = phase s"
    using queryRow_done [OF _ u' q _ one, where S = "sqliteStore D" and i = n
        and scan = "\<lambda>row. case row of [v] \<Rightarrow> scanValue v | _ \<Rightarrow> Inl BadRow" and h = "\<lambda>_. fromJson (toJson v)"] s'(2)
    by (auto simp: one sqlGetVariable_def leaves_def variableRow_def cell_def [of "_ # _"] scanValue_json)
  with s'(1) show ?thesis by blast
qed

end

text \<open>The values that JSON keeps as they are.\<close>

fun jsonStable :: "gval \<Rightarrow> bool" where
  "jsonStable (GInt i) = False"
| "jsonStable (GInt64 i) = False"
| "jsonStable (GStrings ss) = False"
| "jsonStable (GList vs) = list_all jsonStable vs"
| "jsonStable (GMap kvs) = list_all (\<lambda>(k, v). jsonStable v) kvs"
| "jsonStable _ = True"

lemma json_stable: "jsonStable v \<Longrightarrow> fromJson (toJson v) = v"
proof (induction v rule: jsonStable.induct)
  case (4 vs)
  then show ?case by (auto simp: list_all_iff intro!: map_idI)
next
  case (5 kvs)
  then show ?case by (auto simp: list_all_iff intro!: map_idI)
qed simp_all

text \<open>\<open>SetVariable\<close> succeeds, also where the variable exists, and \<open>GetVariable\<close> then returns what \<open>encoding/json\<close> makes of the
  value, which is the value itself if there is no \<open>int\<close>, \<open>int64\<close> or \<open>[]string\<close> in it; a number comes back as a \<open>float64\<close>.\<close>

theorem variable_roundtrip:
  assumes "sqlite_database D contents phase" and "usable c (phase s)"
  shows "\<exists>s' s''. sqlSetVariable (sqliteStore D) c i n v s = (Inr (), s')
     \<and> sqlGetVariable (sqliteStore D) c i n s' = (Inr (if jsonStable v then v else fromJson (toJson v)), s'')
     \<and> fromJson (toJson (GInt k)) = GFloat (of_int k)"
  using sqlite_database.set_then_get [OF assms, of i n v] json_stable [of v] by fastforce

theorem variable_roundtrip_witness:
  "\<exists>s' s''. sqlSetVariable (sqliteStore (memoryDatabase 9 sqliteSchema)) OnPool ''p1'' ''days'' (GList [GFloat 3, GString ''x'']) someDb = (Inr (), s')
     \<and> sqlGetVariable (sqliteStore (memoryDatabase 9 sqliteSchema)) OnPool ''p1'' ''days'' s'
         = (Inr (if jsonStable (GList [GFloat 3, GString ''x'']) then GList [GFloat 3, GString ''x'']
                 else fromJson (toJson (GList [GFloat 3, GString ''x'']))), s'')
     \<and> fromJson (toJson (GInt 7)) = GFloat (of_int 7)"
  by (rule variable_roundtrip [OF sqliteMemory.sqlite_database_axioms some_usable(1)])

section \<open>PostgreSQL and MySQL\<close>

lemma store_simps [simp]:
  "db (pgStore D) = D" "dialect (pgStore D) = pgDialect"
  "db (mysqlStore D) = D" "dialect (mysqlStore D) = mysqlDialect"
  by (simp_all add: pgStore_def mysqlStore_def)

text \<open>A statement or query that names a column its table does not have is refused.\<close>

lemma unknown_column_refused:
  assumes "map_of (sc_tables sc) t = Some tb" and "columnNamed tb x = None"
  shows "x \<in> set cols \<Longrightarrow> runStmt now sc (InsertInto t cols vals) T = Refused"
    and "x \<in> assigned ` set asg \<Longrightarrow> runStmt now sc (UpdateSet t asg conds) T = Refused"
    and "x \<in> set cols \<Longrightarrow> runQuery sc (selectFrom cols t conds) T = Refused"
  using assms by (auto simp: runStmt.simps runInsert_def runUpdate_def runQuery_def selectFrom_def selectionColumns_def list_all_iff)

lemma pg_instances: "\<exists>tb. map_of (sc_tables pgSchema) ''process_instances'' = Some tb \<and> columnNamed tb ''tenant_id'' = None"
  by (simp add: pgSchema_def texts_def emptyTexts_def table_simps Let_def)

lemma mysql_instances: "\<exists>tb. map_of (sc_tables mysqlSchema) ''process_instances'' = Some tb \<and> columnNamed tb ''tenant_id'' = None"
  by (simp add: mysqlSchema_def texts_def emptyTexts_def table_simps Let_def)

lemma mysql_versions:
  "\<exists>tb. map_of (sc_tables mysqlSchema) ''activity_instances'' = Some tb \<and> columnNamed tb ''lock_version'' = None"
  "\<exists>tb. map_of (sc_tables mysqlSchema) ''tokens'' = Some tb \<and> columnNamed tb ''lock_version'' = None"
  by (simp_all add: mysqlSchema_def texts_def emptyTexts_def table_simps Let_def)

text \<open>The database refuses, and nothing changes.\<close>

definition refused :: "('db \<Rightarrow> tables) \<Rightarrow> 'db \<Rightarrow> (sqlError + 'a) \<times> 'db \<Rightarrow> bool" where
  "refused contents s p \<longleftrightarrow> (\<exists>e. fst p = Inl (DbFailed e)) \<and> contents (snd p) = contents s"

lemma refusedI:
  "\<exists>e s'. p = (Inl (DbFailed e), s') \<and> contents s' = contents s \<Longrightarrow> refused contents s p"
  by (auto simp: refused_def)

context sql_database
begin

lemma calls_refused:
  assumes "db S = D" and "usable c (phase s)" and tb: "\<exists>tb. map_of (sc_tables sc) t = Some tb \<and> columnNamed tb x = None"
  shows "x \<in> set cols \<Longrightarrow> refused contents s (execAny S c (InsertInto t cols vals) s)"
    and "x \<in> assigned ` set asg \<Longrightarrow> refused contents s (execOne S c (UpdateSet t asg conds) i s)"
    and "x \<in> set cols \<Longrightarrow> refused contents s (queryRowContext S c (selectFrom cols t conds) i scan s)"
    and "x \<in> set cols \<Longrightarrow> refused contents s (queryRows S c (selectFrom cols t conds) scan2 s)"
proof -
  obtain tb where tb: "map_of (sc_tables sc) t = Some tb" "columnNamed tb x = None" using tb by blast
  note no = unknown_column_refused [OF tb]
  show "refused contents s (execAny S c (InsertInto t cols vals) s)" if "x \<in> set cols"
    by (rule refusedI [OF execAny_refused [OF assms(1,2) no(1) [OF that]]])
  show "refused contents s (execOne S c (UpdateSet t asg conds) i s)" if "x \<in> assigned ` set asg"
    by (rule refusedI [OF execOne_refused [OF assms(1,2) no(2) [OF that]]])
  show "refused contents s (queryRowContext S c (selectFrom cols t conds) i scan s)" if "x \<in> set cols"
    by (rule refusedI [OF queryRow_refused [OF assms(1,2) no(3) [OF that]]])
  show "refused contents s (queryRows S c (selectFrom cols t conds) scan2 s)" if "x \<in> set cols"
    by (rule refusedI [OF queryRows_refused [OF assms(1,2) no(3) [OF that]]])
qed

lemma create_refused:
  assumes "db S = D" and "usable c (phase s)"
    and "\<exists>tb. map_of (sc_tables sc) ''process_instances'' = Some tb \<and> columnNamed tb ''tenant_id'' = None"
  shows "refused contents s (sqlCreateProcessInstance S c p s)"
  unfolding sqlCreateProcessInstance_def by (rule calls_refused(1) [OF assms]) simp

end

lemma refused_isl: "refused contents s p \<Longrightarrow> isl (fst p)"
  by (auto simp: refused_def)

text \<open>C31. On PostgreSQL and on MySQL no process instance can ever be created, and on MySQL no activity and no token can be read
  or updated: the statements name columns (\<open>tenant_id\<close>, \<open>lock_version\<close>) that \<open>init\<close> does not create, so the database
  refuses them and nothing changes.\<close>

theorem schemas_lack_columns:
  assumes pg: "sql_database P pgSchema pcontents pphase" "usable c (pphase ps)"
    and my: "sql_database Q mysqlSchema qcontents qphase" "usable c (qphase qs)"
  shows "refused pcontents ps (pgCreateProcessInstance P c inst ps)
     \<and> refused qcontents qs (mysqlCreateProcessInstance Q c inst qs)
     \<and> refused qcontents qs (mysqlGetActivityInstance Q c i qs) \<and> refused qcontents qs (mysqlUpdateActivityInstance Q c ai qs)
     \<and> refused qcontents qs (mysqlListActiveActivities Q c i qs)
     \<and> refused qcontents qs (mysqlGetToken Q c i qs) \<and> refused qcontents qs (mysqlUpdateToken Q c t qs)
     \<and> refused qcontents qs (mysqlListActiveTokens Q c i qs)"
proof (intro conjI)
  note q = sql_database.calls_refused [OF my(1) store_simps(3) my(2)]
  show "refused pcontents ps (pgCreateProcessInstance P c inst ps)"
    unfolding pgCreateProcessInstance_def by (rule sql_database.create_refused [OF pg(1) store_simps(1) pg(2) pg_instances])
  show "refused qcontents qs (mysqlCreateProcessInstance Q c inst qs)"
    unfolding mysqlCreateProcessInstance_def by (rule sql_database.create_refused [OF my(1) store_simps(3) my(2) mysql_instances])
  show "refused qcontents qs (mysqlGetActivityInstance Q c i qs)"
    unfolding mysqlGetActivityInstance_def sqlGetActivityInstance_def
    by (rule q(3) [OF mysql_versions(1)]) (simp add: activityColumns_def)
  show "refused qcontents qs (mysqlUpdateActivityInstance Q c ai qs)"
    unfolding mysqlUpdateActivityInstance_def sqlUpdateActivityInstance_def by (rule q(2) [OF mysql_versions(1)]) simp
  show "refused qcontents qs (mysqlListActiveActivities Q c i qs)"
    unfolding mysqlListActiveActivities_def sqlListActiveActivities_def
    by (rule q(4) [OF mysql_versions(1)]) (simp add: activityColumns_def)
  show "refused qcontents qs (mysqlGetToken Q c i qs)"
    unfolding mysqlGetToken_def sqlGetToken_def by (rule q(3) [OF mysql_versions(2)]) (simp add: tokenColumns_def)
  show "refused qcontents qs (mysqlUpdateToken Q c t qs)"
    unfolding mysqlUpdateToken_def sqlUpdateToken_def by (rule q(2) [OF mysql_versions(2)]) simp
  show "refused qcontents qs (mysqlListActiveTokens Q c i qs)"
    unfolding mysqlListActiveTokens_def sqlListActiveTokens_def by (rule q(4) [OF mysql_versions(2)]) (simp add: tokenColumns_def)
qed

theorem schemas_lack_columns_witness:
  "let P = memoryDatabase 9 pgSchema; Q = memoryDatabase 9 mysqlSchema; inst = NewProcessInstance 5 ''p1'' ''order:v1'' [] in
   refused md_tables someDb (pgCreateProcessInstance P OnPool inst someDb)
     \<and> refused md_tables someDb (mysqlCreateProcessInstance Q OnPool inst someDb)
     \<and> refused md_tables someDb (mysqlGetActivityInstance Q OnPool ''a1'' someDb)
     \<and> refused md_tables someDb (mysqlUpdateActivityInstance Q OnPool someActivity someDb)
     \<and> refused md_tables someDb (mysqlListActiveActivities Q OnPool ''a1'' someDb)
     \<and> refused md_tables someDb (mysqlGetToken Q OnPool ''a1'' someDb)
     \<and> refused md_tables someDb (mysqlUpdateToken Q OnPool someToken someDb)
     \<and> refused md_tables someDb (mysqlListActiveTokens Q OnPool ''a1'' someDb)"
  unfolding Let_def
  by (rule schemas_lack_columns [OF memoryDatabase.sql_database_axioms some_usable(1) memoryDatabase.sql_database_axioms some_usable(1)])

text \<open>C29. The suite fails on PostgreSQL and on MySQL: it reports that a process instance cannot be created, whatever is stored.\<close>

theorem suite_fails:
  assumes pg: "sql_database P pgSchema pcontents pphase" "pphase ps = Idle"
    and my: "sql_database Q mysqlSchema qcontents qphase" "qphase qs = Idle"
  shows "''CreateProcessInstance'' \<in> set (suiteFailures now (sqlInterface (pgStore P) OnPool ord) ps)
     \<and> ''CreateProcessInstance'' \<in> set (suiteFailures now (sqlInterface (mysqlStore Q) OnPool ord) qs)"
proof
  have keeps: "phase (snd (apiCall (sqlInterface S OnPool ord) call s)) = Idle"
    if "sql_database D sc contents phase" "db S = D" "phase s = Idle" for D sc contents phase S call s
    using sql_database.stays_call [OF that(1,2) idle_kept] that(3) by (simp add: stays_def apiCall_sql)
  have pg_refuses: "isl (fst (createProcessInstance (theProcessInstanceStore (sqlInterface (pgStore P) OnPool ord)) p s))"
    if "pphase s = Idle" for p s
    using sql_database.create_refused [OF pg(1) store_simps(1) _ pg_instances, of OnPool s p] that
    by (simp add: sqlInterface_def usable_def refused_isl)
  have my_refuses: "isl (fst (createProcessInstance (theProcessInstanceStore (sqlInterface (mysqlStore Q) OnPool ord)) p s))"
    if "qphase s = Idle" for p s
    using sql_database.create_refused [OF my(1) store_simps(3) _ mysql_instances, of OnPool s p] that
    by (simp add: sqlInterface_def usable_def refused_isl)
  show "''CreateProcessInstance'' \<in> set (suiteFailures now (sqlInterface (pgStore P) OnPool ord) ps)"
    by (rule suite_reports [where Q = "\<lambda>s. pphase s = Idle"]) (simp_all add: keeps [OF pg(1)] pg_refuses pg(2))
  show "''CreateProcessInstance'' \<in> set (suiteFailures now (sqlInterface (mysqlStore Q) OnPool ord) qs)"
    by (rule suite_reports [where Q = "\<lambda>s. qphase s = Idle"]) (simp_all add: keeps [OF my(1)] my_refuses my(2))
qed

theorem suite_fails_witness:
  "''CreateProcessInstance'' \<in> set (suiteFailures (\<lambda>i. int i) (sqlInterface (pgStore (memoryDatabase 9 pgSchema)) OnPool rev) someDb)
     \<and> ''CreateProcessInstance'' \<in> set (suiteFailures (\<lambda>i. int i) (sqlInterface (mysqlStore (memoryDatabase 9 mysqlSchema)) OnPool rev) someDb)"
  by (rule suite_fails [OF memoryDatabase.sql_database_axioms some_usable(3) memoryDatabase.sql_database_axioms some_usable(3)])

definition pgActivities :: sqlTable where
  "pgActivities = tableWith [''id'']
     [column ''id'' (TextType None) Required, column ''process_instance_id'' (TextType None) Required,
      column ''tenant_id'' (TextType None) (DefaultTo (SText '''')), column ''activity_id'' (TextType None) Required,
      column ''activity_type'' (TextType None) Required, column ''assignee'' (TextType None) (DefaultTo (SText '''')),
      column ''adhoc_parent_id'' (TextType None) (DefaultTo (SText '''')),
      column ''state'' (TextType None) (DefaultTo (SText ''active'')), column ''claim_time'' (TimeType 1000) Nullable,
      column ''completed_time'' (TimeType 1000) Nullable, column ''multi_instance_loop'' (TextType None) (DefaultTo (SText '''')),
      column ''loop_counter'' (IntType 32 False) (DefaultTo (SInt 0)), column ''expire_time'' (TimeType 1000) Nullable,
      column ''lock_version'' (IntType 32 False) (DefaultTo (SInt 0)), column ''term_mode'' (IntType 32 False) (DefaultTo (SInt 0))]"

lemma pg_activities: "map_of (sc_tables pgSchema) ''activity_instances'' = Some pgActivities"
  by (simp add: pgSchema_def texts_def emptyTexts_def pgActivities_def Let_def)

lemma pg_text [simp]: "sc_sameText pgSchema = (=)"
  by (simp add: pgSchema_def Let_def)

lemma find_holds: "find P xs = Some x \<Longrightarrow> P x"
  by (induction xs) (auto split: if_splits)

lemma elementTypeString_of [simp]: "elementTypeString (elementTypeOf s) = s"
proof (cases "find (\<lambda>x. elementTypeString x = s)
       [ElementTypeStartEvent, ElementTypeEndEvent, ElementTypeUserTask, ElementTypeServiceTask,
        ElementTypeExclusiveGateway, ElementTypeParallelGateway, ElementTypeInclusiveGateway,
        ElementTypeBoundaryEvent, ElementTypeIntermediateCatchEvent, ElementTypeIntermediateThrowEvent,
        ElementTypeCallActivity]")
  case (Some t)
  then show ?thesis using find_holds [OF Some] unfolding elementTypeOf_def by simp
qed (simp add: elementTypeOf_def)

text \<open>The activity that PostgreSQL stores for \<open>a\<close>: the identifier of the element lands in the tenant's column, the type in the
  column of the identifier, and the tenant in the column of the type.\<close>

definition swappedActivity :: "ActivityInstance \<Rightarrow> ActivityInstance" where
  "swappedActivity a = a\<lparr>ai_TenantID := ai_ActivityID a, ai_ActivityID := elementTypeString (ai_ActivityType a),
     ai_ActivityType := elementTypeOf (ai_TenantID a), ai_ClaimTime := None, ai_CompletedTime := None, ai_LockVersion := 0,
     ai_ExpireTime := map_option (\<lambda>t. t - t mod 1000) (ai_ExpireTime a)\<rparr>"

definition in32 :: "int \<Rightarrow> bool" where
  "in32 i \<longleftrightarrow> - (2 ^ 31) \<le> i \<and> i < 2 ^ 31"

lemma pg_newRow:
  assumes "in32 (ai_LoopCounter a)" and "in32 (ai_TermMode a)"
  shows "newRow now pgActivities insertedColumns (pgActivityArgs a) = Done (activityRow (swappedActivity a))"
  using assms by (cases "ai_ExpireTime a")
    (simp_all add: newRow_def pgActivities_def tableWith_def column_def columnValue_def activityRow_def swappedActivity_def
       pgActivityArgs_def timeVal_def in32_def)

lemma free_id: "x \<notin> f ` set rs \<Longrightarrow> r \<in> set rs \<Longrightarrow> f r \<noteq> x"
  by blast

lemma pg_insert:
  assumes ints: "in32 (ai_LoopCounter a)" "in32 (ai_TermMode a)"
    and new: "SText (ai_ID a) \<notin> (\<lambda>r. cell r ''id'') ` set (rowsOf T ''activity_instances'')"
  shows "runStmt now pgSchema (InsertInto ''activity_instances'' insertedColumns (pgActivityArgs a)) T
    = Done (1, AList.update ''activity_instances'' (rowsOf T ''activity_instances'' @ [activityRow (swappedActivity a)]) T)"
proof -
  have "sameKey pgSchema pgActivities (activityRow (swappedActivity a)) r \<longleftrightarrow> cell r ''id'' = SText (ai_ID a)" for r
    by (auto simp: sameKey_def pgActivities_def tableWith_def sameVal_def activityRow_def swappedActivity_def cell_def [of "_ # _"]
        split: sqlVal.splits)
  then have free: "\<not> list_ex (sameKey pgSchema pgActivities (activityRow (swappedActivity a))) (rowsOf T ''activity_instances'')"
    using free_id [OF new] by (auto simp: list_ex_iff)
  have known: "list_all (\<lambda>c. columnNamed pgActivities c \<noteq> None) insertedColumns"
    by (simp add: pgActivities_def table_simps)
  have len: "length insertedColumns = length (pgActivityArgs a)" by (simp add: pgActivityArgs_def)
  show ?thesis
    unfolding runStmt.simps using runInsert_value [OF pg_activities known len pg_newRow [OF ints]] free by simp
qed

text \<open>C32. On PostgreSQL an activity does not survive being stored: after \<open>CreateActivityInstance\<close>, \<open>GetActivityInstance\<close> returns
  an activity whose element is the name of the type of the original and whose type is the tenant's name. (MySQL has the same order of
  arguments.)\<close>

theorem pg_activity_columns_swapped:
  assumes D: "sql_database D pgSchema contents phase" and u: "usable c (phase s)"
    and new: "SText (ai_ID a) \<notin> (\<lambda>r. cell r ''id'') ` set (rowsOf (contents s) ''activity_instances'')"
    and ints: "in32 (ai_LoopCounter a)" "in32 (ai_TermMode a)"
  shows "\<exists>s' s'' b. pgCreateActivityInstance D c a s = (Inr (), s') \<and> pgGetActivityInstance D c (ai_ID a) s' = (Inr b, s'')
     \<and> ai_ID b = ai_ID a \<and> ai_ActivityID b = elementTypeString (ai_ActivityType a)
     \<and> ai_ActivityType b = elementTypeOf (ai_TenantID a) \<and> pgActivityArgs a = mysqlActivityArgs a"
proof -
  let ?t = "''activity_instances''" and ?row = "activityRow (swappedActivity a)"
  have "\<exists>(now :: int) s'. pgCreateActivityInstance D c a s = (Inr (), s') \<and> leaves contents phase s
      (AList.update ?t (rowsOf (contents s) ?t @ [?row]) (contents s)) s'"
    unfolding pgCreateActivityInstance_def sqlCreateActivityInstance_def store_simps pgDialect_def dialect.simps
    by (rule sql_database.execAny_done [where n = 1 and f = "\<lambda>_. AList.update ?t (rowsOf (contents s) ?t @ [?row]) (contents s)",
          OF D _ u pg_insert [OF ints new]]) simp
  then obtain s' where s': "pgCreateActivityInstance D c a s = (Inr (), s')" "usable c (phase s')"
    "rowsOf (contents s') ?t = map (\<lambda>r. r) (rowsOf (contents s) ?t @ [?row])"
    using u by (auto simp: leaves_def)
  have q: "runQuery pgSchema (selectFrom activityColumns ?t [ColEq ''id'' (SText (ai_ID a))]) (contents s')
      = Done (map (\<lambda>r. r) (filter (\<lambda>r. cell r ''id'' = SText (ai_ID a)) (rowsOf (contents s) ?t @ [?row])))"
    by (rule runQuery_value [OF pg_activities s'(3)])
       (auto simp: activityColumns_def pgActivities_def table_simps holdsAll_def sameVal_def split: sqlVal.splits)
  have "filter (\<lambda>r. cell r ''id'' = SText (ai_ID a)) (rowsOf (contents s) ?t) = []"
    using free_id [OF new] by (auto simp: filter_empty_conv)
  then have "filter (\<lambda>r. cell r ''id'' = SText (ai_ID a)) (rowsOf (contents s) ?t @ [?row]) = [?row]"
    by (simp add: activityRow_def swappedActivity_def cell_def [of "_ # _"])
  note q1 = q [unfolded this]
  have scan: "scanActivityInstance (map (cell ?row) activityColumns) = Inr (keptActivity (swappedActivity a))"
    by (rule scan_activityRow) (simp add: activityKeeps_def swappedActivity_def)
  have "\<exists>s''. leaves contents phase s' (contents s') s'' \<and> pgGetActivityInstance D c (ai_ID a) s'
      = (case Some ?row of None \<Rightarrow> Inl (RowNotFound (ai_ID a)) | Some r \<Rightarrow> Inr (keptActivity (swappedActivity a)), s'')"
    unfolding pgGetActivityInstance_def sqlGetActivityInstance_def
    by (rule sql_database.queryRow_done [where h = "\<lambda>_. keptActivity (swappedActivity a)", OF D _ s'(2) q1]) (simp_all add: scan)
  then show ?thesis using s'(1)
    by (auto simp: keptActivity_def swappedActivity_def pgActivityArgs_def mysqlActivityArgs_def)
qed

theorem pg_activity_columns_swapped_witness:
  "let D = memoryDatabase 9 pgSchema; s = \<lparr>md_tables = [], md_phase = Idle\<rparr>; a = someActivity\<lparr>ai_TenantID := ''acme''\<rparr> in
   \<exists>s' s'' b. pgCreateActivityInstance D OnPool a s = (Inr (), s') \<and> pgGetActivityInstance D OnPool (ai_ID a) s' = (Inr b, s'')
     \<and> ai_ID b = ai_ID a \<and> ai_ActivityID b = elementTypeString (ai_ActivityType a)
     \<and> ai_ActivityType b = elementTypeOf (ai_TenantID a) \<and> pgActivityArgs a = mysqlActivityArgs a"
  unfolding Let_def
  by (rule pg_activity_columns_swapped [OF memoryDatabase.sql_database_axioms])
     (simp_all add: usable_def rowsOf_def someActivity_def NewActivityInstance_def in32_def)

end
