(* ===== verification/Observations.thy ===== *)
theory Observations imports Samples Rework Timers begin

text \<open>
  Runs on concrete processes that end in a state the design does not intend. Each theorem is one run of
  the model from a deployed definition, evaluated by the simplifier; the comment says what the engine does and why.
\<close>

definition smallDef ::
  "(string \<times> FlowElement) list \<Rightarrow> (string \<times> string \<times> string \<times> string option) list \<Rightarrow> ProcessDefinition" where
  "smallDef els flows = \<lparr>pd_ID = ''d:v1'', pd_Name = '''', pd_Key = ''d'', pd_Version = 1, pd_TenantID = '''',
     pd_Elements = els, pd_SequenceFlows = map (\<lambda>(i, s, t, c). demoFlow i s t c) flows, pd_StartEventID = ''s''\<rparr>"

definition taskEl :: "string \<Rightarrow> string \<times> FlowElement" where
  "taskEl i = (i, UserTaskEl (sampleTask i None))"

text \<open>Sequences of commands, each of which may look at the world it is issued in.\<close>

primrec after :: "world \<Rightarrow> (world \<Rightarrow> command) list \<Rightarrow> world" where
  "after w [] = w"
| "after w (c # cs) = after (snd (exec demoEnv 20 (c w) w)) cs"

definition started :: "ProcessDefinition list \<Rightarrow> vars \<Rightarrow> world" where
  "started ds vs = after (emptyWorld\<lparr>st := NewStore\<lparr>definitions := map (\<lambda>d. (pd_ID d, d)) ds\<rparr>\<rparr>) [\<lambda>_. CStart ''d:v1'' vs]"

text \<open>What is looked at: the states of the instances, and where activities and tokens are active.\<close>

definition activeAt :: "world \<Rightarrow> (string \<times> string) list" where
  "activeAt w = map (\<lambda>(i, a). (ai_ActivityID a, i)) (filter (\<lambda>(i, a). ai_State a = ActivityActive) (activities (st w)))"

definition outcome :: "world \<Rightarrow> ProcessInstanceState list \<times> string list \<times> string list" where
  "outcome w = (map (\<lambda>(i, p). pi_State p) (instances (st w)), map fst (activeAt w),
     map (\<lambda>(i, t). tok_CurrentElementID t) (filter (\<lambda>(i, t). tok_State t = TokenActive) (tokens (st w))))"

definition finish :: "string \<Rightarrow> vars \<Rightarrow> world \<Rightarrow> command" where
  "finish el vs w = CComplete (case map_of (activeAt w) el of None \<Rightarrow> '''' | Some i \<Rightarrow> i) vs"

definition firstInstance :: "world \<Rightarrow> string" where
  "firstInstance w = fst (hd (instances (st w)))"

section \<open>Gateways\<close>

text \<open>
  A fork whose first branch leads to an end event: the branch is followed to its end before the token of the
  second one exists, so no token is left and the instance is completed with a task that is still active.
\<close>

definition forkDef :: ProcessDefinition where
  "forkDef = smallDef [(''s'', StartEvent ''s'' ''''), (''g'', ParallelGateway ''g'' ''''), (''e'', EndEvent ''e'' ''''), taskEl ''u'']
    [(''f1'', ''s'', ''g'', None), (''f2'', ''g'', ''e'', None), (''f3'', ''g'', ''u'', None), (''f4'', ''u'', ''e'', None)]"

theorem fork_completes_early: "outcome (started [forkDef] []) = ([Completed], [''u''], [''u''])"
  by code_simp

text \<open>
  A join of a service task and a user task: the flow from the service task is not counted, so the join waits
  for one arrival only and lets each branch through, and the task behind it is created twice.
\<close>

definition joinDef :: ProcessDefinition where
  "joinDef = smallDef [(''s'', StartEvent ''s'' ''''), (''g'', ParallelGateway ''g'' ''''), taskEl ''u'',
       (''m'', ServiceTaskEl \<lparr>st_ID = ''m'', st_Name = '''', st_Type = ''''\<rparr>), (''j'', ParallelGateway ''j'' ''''),
       taskEl ''w'', (''e'', EndEvent ''e'' '''')]
    [(''f1'', ''s'', ''g'', None), (''f2'', ''g'', ''m'', None), (''f3'', ''g'', ''u'', None), (''f4'', ''u'', ''j'', None),
     (''f5'', ''m'', ''j'', None), (''f6'', ''j'', ''w'', None), (''f7'', ''w'', ''e'', None)]"

theorem join_fires_twice:
  "outcome (after (started [joinDef] []) [finish ''u'' []]) = ([Running], [''w'', ''w''], [''w'', ''w''])"
  by code_simp

text \<open>
  An inclusive gateway whose condition fails to evaluate: the token is consumed first, and the memory store
  keeps what was done before the error, so the instance runs on with nothing that could continue it.
\<close>

definition orDef :: ProcessDefinition where
  "orDef = smallDef [(''s'', StartEvent ''s'' ''''), taskEl ''u'', (''o'', InclusiveGateway eitherGateway), (''e'', EndEvent ''e'' '''')]
    [(''f1'', ''s'', ''u'', None), (''f2'', ''u'', ''o'', None), (''f8'', ''o'', ''e'', Some ''missing'')]"

theorem failed_condition_stalls:
  "outcome (after (started [orDef] []) [finish ''u'' []]) = ([Running], [], [])"
  by code_simp

section \<open>Tasks\<close>

text \<open>
  Completing a task of a suspended instance is accepted; the token is consumed and navigation does nothing, so
  that the instance stands still for ever when it is resumed.
\<close>

theorem suspended_completion_stalls:
  "outcome (after demoWorld [\<lambda>_. CSuspend ''p'', \<lambda>_. CComplete ''b'' [], \<lambda>_. CResume ''p'']) = ([Running, Rejected], [], [])"
  by code_simp

text \<open>The same happens to a suspended caller when the process it has called ends.\<close>

definition callDef :: ProcessDefinition where
  "callDef = smallDef [(''s'', StartEvent ''s'' ''''), (''c'', CallActivityEl \<lparr>ca_ID = ''c'', ca_Name = '''',
       ca_CalledElement = ''k'', ca_InheritVariables = True\<rparr>), taskEl ''u'', (''e'', EndEvent ''e'' '''')]
    [(''f1'', ''s'', ''c'', None), (''f2'', ''c'', ''u'', None), (''f3'', ''u'', ''e'', None)]"

theorem suspended_caller_stalls:
  "outcome (after (started [callDef, demoDef] [])
     [\<lambda>w. CSuspend (firstInstance w), finish ''t'' [(''ok'', GBool True)], \<lambda>w. CResume (firstInstance w)])
   = ([Running, Completed], [], [])"
  by code_simp

text \<open>A jump to a gateway puts a token there and does not go on from it.\<close>

theorem jump_to_gateway_stalls:
  "outcome (after demoWorld [\<lambda>_. CJump ''b'' ''g'']) = ([Running, Rejected], [], [''g''])"
  by code_simp

text \<open>Terminating completes active tasks but not unclaimed ones, which can still be claimed.\<close>

theorem claim_after_terminate:
  "outcome (after sampleWorld [\<lambda>_. CTerminate ''r'', \<lambda>_. CClaim ''c'' ''ann'']) = ([Terminated], [''v''], [])"
  by code_simp

section \<open>Durations\<close>

text \<open>
  Durations below thirty seconds are read as zero minutes, for which a day is taken; months before the \<open>T\<close> are
  read as days.
\<close>

theorem short_duration_is_a_day: "parseISODuration ''PT20S'' now = now + dayNs"
proof -
  have "isoMinutes ''PT20S'' = 0" by code_simp
  then show ?thesis by (simp add: parseISODuration_def)
qed

theorem month_is_a_day: "parseISODuration ''P1M'' now = now + dayNs"
proof -
  have "isoMinutes ''P1M'' = 1440" "wrap64 (1440 * minuteNs) = dayNs" by code_simp+
  then show ?thesis by (simp add: parseISODuration_def)
qed

end
