(* ===== verification/Spec2Isabelle.thy ===== *)
theory Spec2Isabelle imports Runs Termination TaskContracts Lock SqlContracts Observations begin

text \<open>
  A verification development for the workflow engine of this repository.

  The program. Applications deploy process definitions (src/spec), start instances of them and complete their
  tasks. The engine (src/engine) moves tokens through the definition with its navigator, keeps what it knows in a store
  (src/storage: an in-memory one and SQL ones for SQLite, PostgreSQL and MySQL), evaluates conditions (src/expr),
  resolves candidates (src/identity) and serialises the completion of the tasks of an instance with a locker
  (src/lock). src/api offers all of this to clients, with pages and filters.

  Theories, in the order of the code:

  \<^item> Prelude, Values: Go maps with a chosen iteration order, functions that return an error as state transformers
    (\<open>sem\<close>), dynamically typed values, 64-bit arithmetic, formatting.
  \<^item> ProcSpec: spec/*.go, definitions, \<open>Validate\<close>, and the records of the JSON form. Instances: instance/*.go.
  \<^item> MemStore: storage/memstore/mem_store.go, the record \<open>Store\<close> with the eight maps and one function per method.
    StoreLaws: the contracts of its tables as the locales \<open>entity_table\<close> and \<open>versioned_table\<close>, and its pages.
  \<^item> Identity: identity/identity.go. Expr: expr/expr.go and the templates of engine/engine.go.
  \<^item> World: the state of a run, \<open>world\<close>, which is the store, the counter of \<open>newID\<close>, and a tick counter.
  \<^item> Timers, Gateways, Events, Navigator: engine/event.go, gateway.go, call_activity.go, multi_instance.go, navigator.go.
  \<^item> Tasks, Rework, Lifecycle: engine/engine.go, add_sign.go, delegate.go, reject.go, reclaim.go, jump_urge.go,
    timeout.go, deployment.go. Api: api/*.go, with the commands of the engine as the datatype \<open>command\<close> and their
    interpretation \<open>exec\<close>.
  \<^item> Lock: lock/memory.go, as a step relation between goroutines.
  \<^item> Sql: what the SQL stores use of SQL, \<open>database/sql\<close> and \<open>encoding/json\<close>. SqlStore: sqlstore/sql_store.go, with what
    differs in pgstore and mysqlstore as a \<open>dialect\<close>. SqlDialects: the three schemas, and pgstore/pg_store.go and
    mysqlstore/mysql_store.go as instances.
  \<^item> Storage: storage/storage.go, each interface as a record of its methods, with the memory store and the SQL stores behind
    it. StorageTest: the contract tests of storage/storagetest/suite.go, as programs over any store behind the interface.

  What is taken from outside, as arguments of the model. \<open>Env\<close> holds the iteration order of each range loop
  (\<open>fairEnv\<close>: every key once), the readings of the clock, the expression library, the decimal form of a float, the
  configured identity service and the answers of the configured locker. \<open>Database\<close> is a connected SQL database; what is
  relied on is the locale \<open>sql_database\<close>: a statement to which the reference semantics of Sql gives a result has that
  result, one that it refuses fails without effect, and a rollback restores the tables; the connection does not break.
  Where SQL leaves a result to the dialect, the reference says \<open>Unspecified\<close> and nothing is relied
  on. \<open>memoryDatabase\<close> is an instance, on which the witnesses run.

  What the lemmas show:

  \<^item> Effects and EngineEffects give the effect of every function of the engine on the store, as one relation \<open>keep\<close>,
    by rules for the sequencing of functions (locales \<open>effect_order\<close>, \<open>navigation\<close>). Runs lifts it to all runs from
    an empty store. Here: the store stays well-formed, completed activities never change, tokens are only consumed,
    instances follow their life cycle.
  \<^item> EngineLaws, TaskLaws, Routing, Frames, Fresh say what the functions do on each branch. Navigation and TaskContracts
    state it for the elements and for the tasks.
  \<^item> Fuel and Termination. \<open>navigateFrom\<close> and \<open>takeSequenceFlow\<close> are mutually recursive through the store and need not
    end, so they carry fuel and fail with \<open>OutOfFuel\<close>. More fuel never changes another result; twice the length of the
    longest path is enough to start a definition without loops, signals and calls. The searches of engine/reject.go
    carry as much fuel as there are elements, which Searches proves to be enough.
  \<^item> SqlLaws computes each SQL call on the entities its rows stand for (locale \<open>sqlite_entity\<close>, one table). SqlRefine (tokens,
    activities), SqlTables (instances, history, subscriptions, timer jobs), SqlVariables and SqlDefinitions show, table by
    table, that a call of the SQLite store corresponds to the same call of the memory store. SqlTransactions says what a
    transaction leaves. SqlRun joins the tables: \<open>storesAgree\<close> relates the contents of a database to a memory store, and
    runs of calls over all tables, alone or in a transaction, preserve it. The calls are those that \<open>callOk\<close> admits: new
    entities start with version 0 and without end, updates keep the fields that identify an entity and its place, which
    is how the engine's constructors and updates are written (the relation \<open>keep\<close> of Effects). Left out are the calls that SQL answers
    differently by design or without a specified result: due timer jobs and filters by time (how SQLite compares two times),
    the newest completed instances, and pages, which the memory store cuts from an unordered map.
  \<^item> Conformance states the contract of the interface as the locale \<open>store_contract\<close>, which the memory store and SQLite
    keep, and runs the test suite under it. SqlContracts states the properties of the SQL stores: refinement, rollback, the
    suite, the round trip of variables, and what PostgreSQL and MySQL refuse or confuse.
  \<^item> Demo and Samples are the processes of the witnesses. Observations evaluates runs that end as the design does not
    intend.

  How far the model goes. Objects are values: the maps of the memory store hold pointers, and a caller that keeps an
  object sees later changes to it. No function of the engine reads an object after changing it through another
  reference, so a run of one command is the same; but the version check of the memory store, which the model applies to
  values, never fails in Go on an object that was read from that store. A command runs alone: the locker serialises the
  completion of tasks only, and interleaved commands of one instance are not modelled. Floats are rationals without
  rounding, times are nanoseconds, strings are bytes. Errors keep their cause, not their text.

  Not modelled: the listeners (engine/listener.go), which can be registered and are never called; opening a database and its
  driver; the text of JSON documents, which appear as trees; limits on the size of binary columns.
\<close>

section \<open>All runs\<close>



text \<open>C2. A completed activity is history: no command, whether it succeeds or fails, changes
  any of its fields or removes it.\<close>

theorem completed_activity_frozen:
  assumes "wf w" and "map_of (activities (st w)) i = Some a" and "ai_State a = ActivityCompleted"
  shows "map_of (activities (st (snd (exec E n c w)))) i = Some a"
  using keep_exec [OF assms(1), of c E n] assms(2,3)
  by (auto simp: keep_def activityStep_def dest!: growsD)

theorem completed_activity_frozen_witness:
  "map_of (activities (st (snd (exec demoEnv 20 (CComplete ''b'' []) demoWorld)))) ''a'' = Some demoStart"
  by (rule completed_activity_frozen [OF demo_wf(1)]) (simp_all add: demo_defs)



text \<open>C4. The life cycle of an instance. A command changes the state of an instance by at most
  one step, and only by the steps of that command (\<open>cmdT\<close>): execution completes running
  instances, suspending and resuming alternate, rejecting and terminating end them; every other
  command leaves the state alone. Identity, definition, tenant, business key, start time and
  parent never change, and no instance disappears.\<close>

theorem instance_life_cycle:
  assumes "wf w" and "map_of (instances (st w)) i = Some p"
  shows "\<exists>p'. map_of (instances (st (snd (exec E n c w)))) i = Some p'
    \<and> (pi_State p' = pi_State p \<or> (pi_State p, pi_State p') \<in> cmdT c) \<and> sameInst p p'"
  using keep_exec [OF assms(1), of c E n] assms(2)
  by (auto simp: keep_def instStep_def cmdT_single dest!: growsD)

theorem instance_life_cycle_witness:
  "\<exists>p'. map_of (instances (st (snd (exec demoEnv 20 (CSuspend ''p'') demoWorld)))) ''p'' = Some p'
    \<and> (pi_State p' = pi_State demoInst \<or> (pi_State demoInst, pi_State p') \<in> cmdT (CSuspend ''p''))
    \<and> sameInst demoInst p'"
  by (rule instance_life_cycle [OF demo_wf(1)]) (simp add: demo_defs)

text \<open>C5. An instance that has ended stays as it ended: no sequence of deployments and commands
  brings it back or gives it another end, except that a rejected instance can still be
  terminated.\<close>

theorem ended_is_final:
  assumes "wf w" and "map_of (instances (st w)) i = Some p" and "ended (pi_State p)"
  shows "\<exists>p'. map_of (instances (st (snd (exec E n c w)))) i = Some p'
    \<and> (pi_State p' = pi_State p
       \<or> pi_State p = Rejected \<and> pi_State p' = Terminated \<and> (\<exists>j. c = CTerminate j))"
proof -
  obtain p' where p': "map_of (instances (st (snd (exec E n c w)))) i = Some p'"
    "pi_State p' = pi_State p \<or> (pi_State p, pi_State p') \<in> cmdT c"
    using keep_exec [OF assms(1), of c E n] assms(2)
    by (auto simp: keep_def instStep_def cmdT_single dest!: growsD)
  moreover have "pi_State p = Rejected \<and> pi_State p' = Terminated \<and> (\<exists>j. c = CTerminate j)"
    if "(pi_State p, pi_State p') \<in> cmdT c"
    using that assms(3) by (cases c) (auto simp: ended_def navT_def suspendT_def resumeT_def terminateT_def rejectT_def)
  ultimately show ?thesis by blast
qed


theorem ended_is_final_witness:
  "\<exists>p'. map_of (instances (st (snd (exec demoEnv 20 (CResume ''q'') demoWorld)))) ''q'' = Some p'
    \<and> (pi_State p' = pi_State demoOld
       \<or> pi_State demoOld = Rejected \<and> pi_State p' = Terminated \<and> (\<exists>j. CResume ''q'' = CTerminate j))"
  by (rule ended_is_final [OF demo_wf(1)]) (simp_all add: demo_defs ended_def)



text \<open>C7. Starting an instance of a definition whose flows do not loop, throw signals or call
  other definitions always comes to an end: two units of fuel for each element on the longest path
  from the start event are enough, whatever the variables, conditions and outcomes.\<close>

theorem start_terminates:
  assumes "wf w" and "map_of (definitions (st w)) defID = Some d"
    and "endsIn n d (pd_StartEventID d)" and "2 * n \<le> fuel"
  shows "fst (StartProcessInstanceWithBusinessKey E fuel defID key tenant vs w) \<noteq> Inl OutOfFuel"
proof -
  have "fuelElem d fuel (pd_StartEventID d)" using assms(3,4) by (auto simp: fuelElem_def)
  then have "Eff True False navT (storesDef defID d) (StartProcessInstanceWithBusinessKey E fuel defID key tenant vs)"
    by (rule Eff_Start_total)
  from eff_error [OF this assms(1)] show ?thesis
    using assms(2) by (auto simp: storesDef_def okErr_def)
qed

theorem start_terminates_witness:
  "fst (StartProcessInstanceWithBusinessKey demoEnv 10 ''k:v1'' ''order 7'' '''' [] demoWorld) \<noteq> Inl OutOfFuel"
  by (rule start_terminates [OF demo_wf(1), of _ demoDef 5])
     (simp_all add: demo_defs FindOutgoingFlows_def element_def eval_nat_numeral)

section \<open>Definitions\<close>





end
